(* ===== verification/Prelude.thy ===== *)
theory Prelude
  imports Main "HOL-Library.State_Monad" "HOL-Library.Sublist"
begin

text \<open>
  What every component of the operator shares.

  \<^item> Effects. The operator's functions talk to the API server, the clock and the random
    sources. Such a function is a computation of \<^theory_text>\<open>HOL-Library.State_Monad\<close> over a world
    state \<open>'s\<close> about which nothing is known: the operations of the outside (API client,
    clock, random numbers, cryptography) are parameters.
  \<^item> Errors. A Go function that returns \<open>(T, error)\<close> returns a sum; one that returns only
    an \<open>error\<close> returns an option (\<open>None\<close> is \<open>nil\<close>). \<open>go_error\<close> has the kinds of error the
    code distinguishes. A run-time panic is a value of \<open>outcome\<close>.
  \<^item> Reasoning. \<open>wp m Q s\<close> says that running \<open>m\<close> from \<open>s\<close> ends with a result and a
    state that satisfy \<open>Q\<close>. Its equations are simplification rules, so a proof about a
    computation is a simplification followed by case splits.
  \<^item> Recording. \<open>recorded\<close> turns an operation of the world into one that also appends to
    a list of events. Theorems about what a controller does, and in which order, are
    about the events recorded when it runs against an arbitrary world.
\<close>

subsection \<open>Errors and panics\<close>

text \<open>
  \<open>ErrNotFound\<close> is an API status error for which \<open>errors.IsNotFound\<close> holds, \<open>ErrWrap p e\<close>
  the result of \<open>fmt.Errorf(p + "%w", e)\<close>, the two unmanaged-secret constructors are
  the sentinel values of \<open>pkg/certs\<close>, and \<open>ErrOther\<close> is any other error, by its text.
\<close>

datatype go_error =
    ErrNotFound string
  | ErrOther string
  | ErrWrap string go_error
  | ErrUnmanagedValidSecretExists
  | ErrUnmanagedInvalidSecretExists

fun Error :: "go_error \<Rightarrow> string" where
  "Error (ErrNotFound m) = m"
| "Error (ErrOther m) = m"
| "Error (ErrWrap p e) = p @ Error e"
| "Error ErrUnmanagedValidSecretExists = ''refuse to overwrite valid unmanaged cert secret''"
| "Error ErrUnmanagedInvalidSecretExists =
     ''refuse to overwrite invalid/renewable unmanaged cert secret''"

fun IsNotFound :: "go_error \<Rightarrow> bool" where
  "IsNotFound (ErrNotFound _) = True"
| "IsNotFound _ = False"

text \<open>\<open>errors.Unwrap\<close>: the wrapped error, or \<open>nil\<close>.\<close>

fun Unwrap :: "go_error \<Rightarrow> go_error option" where
  "Unwrap (ErrWrap _ e) = Some e"
| "Unwrap _ = None"

text \<open>A function that may panic returns \<open>Panicked\<close> with the panic's text, or its value.\<close>

datatype 'a outcome = Returned 'a | Panicked string

text \<open>\<open>Pairs\<close> of a value and an error, where Go returns both.\<close>

type_synonym 'a result = "go_error + 'a"

definition err_of :: "'a result \<Rightarrow> go_error option" where
  "err_of r = (case r of Inl e \<Rightarrow> Some e | Inr _ \<Rightarrow> None)"

lemma err_of_simps [simp]: "err_of (Inl e) = Some e" "err_of (Inr x) = None"
  by (simp_all add: err_of_def)

subsection \<open>Computations over a world\<close>

abbreviation ret :: "'a \<Rightarrow> ('s, 'a) state" where
  "ret \<equiv> State_Monad.return"

definition wp :: "('s, 'a) state \<Rightarrow> ('a \<Rightarrow> 's \<Rightarrow> bool) \<Rightarrow> 's \<Rightarrow> bool" where
  "wp m Q s = (case run_state m s of (a, s') \<Rightarrow> Q a s')"

named_theorems wp_rules \<open>introduction rules for the operations of the world\<close>

lemma wp_return [simp]: "wp (State_Monad.return a) Q s = Q a s"
  by (simp add: wp_def)

lemma wp_bind [simp]: "wp (State_Monad.bind m f) Q s = wp m (\<lambda>a. wp (f a) Q) s"
  by (simp add: wp_def split: prod.split)

lemma wp_if [simp]: "wp (if b then m else n) Q s = (if b then wp m Q s else wp n Q s)"
  by simp

lemma wp_case_sum [simp]:
  "wp (case x of Inl e \<Rightarrow> f e | Inr a \<Rightarrow> g a) Q s =
   (case x of Inl e \<Rightarrow> wp (f e) Q s | Inr a \<Rightarrow> wp (g a) Q s)"
  by (simp split: sum.split)

lemma wp_case_option [simp]:
  "wp (case x of None \<Rightarrow> m | Some a \<Rightarrow> g a) Q s =
   (case x of None \<Rightarrow> wp m Q s | Some a \<Rightarrow> wp (g a) Q s)"
  by (simp split: option.split)

lemma wp_case_prod [simp]:
  "wp (case x of (a, b) \<Rightarrow> g a b) Q s = (case x of (a, b) \<Rightarrow> wp (g a b) Q s)"
  by (simp split: prod.split)

lemma wp_case_outcome [simp]:
  "wp (case x of Returned a \<Rightarrow> f a | Panicked p \<Rightarrow> g p) Q s =
   (case x of Returned a \<Rightarrow> wp (f a) Q s | Panicked p \<Rightarrow> wp (g p) Q s)"
  by (simp split: outcome.split)

lemma wp_State: "wp (State f) Q s = (case f s of (a, s') \<Rightarrow> Q a s')"
  by (simp add: wp_def)

lemma wp_mono: "wp m P s \<Longrightarrow> (\<And>a s'. P a s' \<Longrightarrow> Q a s') \<Longrightarrow> wp m Q s"
  by (auto simp: wp_def split: prod.splits)

lemma wp_conj: "wp m P s \<Longrightarrow> wp m Q s \<Longrightarrow> wp m (\<lambda>a s'. P a s' \<and> Q a s') s"
  by (auto simp: wp_def split: prod.splits)

lemma wp_run: "run_state m s = (a, s') \<Longrightarrow> wp m Q s = Q a s'"
  by (simp add: wp_def)

lemma run_iff_wp: "run_state m s = (a, s') \<longleftrightarrow> wp m (\<lambda>b t. b = a \<and> t = s') s"
  by (auto simp: wp_def split: prod.split)

lemma wp_runI: "(\<And>a s'. run_state m s = (a, s') \<Longrightarrow> Q a s') \<Longrightarrow> wp m Q s"
  by (simp add: wp_def split: prod.split)

lemma wp_any: "(\<And>a s'. Q a s') \<Longrightarrow> wp m Q s"
  by (auto simp: wp_def split: prod.splits)

text \<open>A computation that leaves a part of the world as it is.\<close>

definition reads_only :: "('s \<Rightarrow> 'm) \<Rightarrow> ('s, 'a) state \<Rightarrow> bool" where
  "reads_only stored m \<longleftrightarrow> (\<forall>s. stored (snd (run_state m s)) = stored s)"

lemma reads_only_bind [intro]:
  "reads_only stored m \<Longrightarrow> (\<And>a. reads_only stored (f a)) \<Longrightarrow> reads_only stored (State_Monad.bind m f)"
  by (auto simp: reads_only_def split: prod.split) (metis snd_conv)

lemma reads_only_return [simp]: "reads_only stored (State_Monad.return a)"
  by (simp add: reads_only_def)

lemma reads_only_run: "reads_only stored m \<Longrightarrow> run_state m s = (a, s') \<Longrightarrow> stored s' = stored s"
  by (metis reads_only_def snd_conv)

lemma wp_reads_only:
  "reads_only stored m \<Longrightarrow> (\<And>a s'. stored s' = stored s \<Longrightarrow> Q a s') \<Longrightarrow> wp m Q s"
  by (auto simp: reads_only_def wp_def split: prod.splits) (metis snd_conv)

subsection \<open>Recording the operations of the world\<close>

definition recorded :: "('a \<Rightarrow> 'e) \<Rightarrow> ('s, 'a) state \<Rightarrow> ('s \<times> 'e list, 'a) state" where
  "recorded ev m = State (\<lambda>(s, l).
     case run_state m s of (a, s') \<Rightarrow> (a, (s', l @ [ev a])))"

definition unrecorded :: "('s, 'a) state \<Rightarrow> ('s \<times> 'e list, 'a) state" where
  "unrecorded m = State (\<lambda>(s, l). case run_state m s of (a, s') \<Rightarrow> (a, (s', l)))"

lemma run_recorded [simp]:
  "run_state (recorded ev m) (s, l) =
   (fst (run_state m s), (snd (run_state m s), l @ [ev (fst (run_state m s))]))"
  by (simp add: recorded_def split: prod.split)

lemma run_unrecorded [simp]:
  "run_state (unrecorded m) (s, l) =
   (fst (run_state m s), (snd (run_state m s), l))"
  by (simp add: unrecorded_def split: prod.split)

lemma unrecorded_silent [simp]: "reads_only snd (unrecorded m)"
  by (auto simp: reads_only_def unrecorded_def split: prod.split)

text \<open>Against an unknown world any answer is possible: the rules quantify over it.\<close>

lemma wp_recordedI [wp_rules]:
  "(\<And>a s'. Q a (s', l @ [ev a])) \<Longrightarrow> wp (recorded ev m) Q (s, l)"
  by (simp add: wp_def)

lemma wp_unrecordedI [wp_rules]:
  "(\<And>a s'. Q a (s', l)) \<Longrightarrow> wp (unrecorded m) Q (s, l)"
  by (simp add: wp_def)

lemma wp_recorded_answerI:
  "(\<And>a s'. run_state m s = (a, s') \<Longrightarrow> Q a (s', l @ [ev a])) \<Longrightarrow> wp (recorded ev m) Q (s, l)"
  by (simp add: wp_def)

lemma wp_recorded: "wp (recorded ev m) Q (s, l) = wp m (\<lambda>a s'. Q a (s', l @ [ev a])) s"
  by (simp add: wp_def split: prod.split)

lemma wp_unrecorded: "wp (unrecorded m) Q (s, l) = wp m (\<lambda>a s'. Q a (s', l)) s"
  by (simp add: wp_def split: prod.split)

text \<open>The recording never changes an answer: erasing it gives back the world's run.\<close>

lemma recorded_transparent:
  "map_prod id fst (run_state (recorded ev m) (s, l)) = run_state m s"
  by simp

subsection \<open>Lists\<close>

text \<open>The list without its first element that satisfies \<open>p\<close>.\<close>

fun remove_first :: "('a \<Rightarrow> bool) \<Rightarrow> 'a list \<Rightarrow> 'a list" where
  "remove_first p [] = []"
| "remove_first p (x # xs) = (if p x then xs else x # remove_first p xs)"

lemma set_remove_first: "set (remove_first p xs) \<subseteq> set xs"
  by (induction xs) auto

lemma remove_first_none [simp]: "\<not> list_ex p xs \<Longrightarrow> remove_first p xs = xs"
  by (induction xs) auto

lemma remove_first_keeps: "x \<in> set xs \<Longrightarrow> \<not> p x \<Longrightarrow> x \<in> set (remove_first p xs)"
  by (induction xs) auto

lemma list_all_remove_first [intro]: "list_all q xs \<Longrightarrow> list_all q (remove_first p xs)"
  by (induction xs) auto

text \<open>The list with its first element that satisfies \<open>p\<close> replaced, or \<open>y\<close> appended.\<close>

fun replace_first :: "('a \<Rightarrow> bool) \<Rightarrow> 'a \<Rightarrow> 'a list \<Rightarrow> 'a list" where
  "replace_first p y [] = [y]"
| "replace_first p y (x # xs) = (if p x then y # xs else x # replace_first p y xs)"

lemma in_replace_first: "y \<in> set (replace_first p y xs)"
  by (induction xs) auto

lemma replace_first_absent: "\<not> list_ex p xs \<Longrightarrow> replace_first p y xs = xs @ [y]"
  by (induction xs) auto

lemma replace_first_length:
  "length (replace_first p y xs) = (if list_ex p xs then length xs else Suc (length xs))"
  by (induction xs) auto

subsection \<open>Maps that may be nil\<close>

text \<open>
  A Go map is \<open>None\<close> when it is \<open>nil\<close>. Reading a key that is absent, or any key of a nil
  map, gives the zero value, here the empty string.
\<close>

type_synonym strmap = "(string \<rightharpoonup> string) option"

definition map_get :: "strmap \<Rightarrow> string \<Rightarrow> string" where
  "map_get m k = (case m of None \<Rightarrow> [] | Some f \<Rightarrow> (case f k of None \<Rightarrow> [] | Some v \<Rightarrow> v))"

lemma map_get_simps [simp]:
  "map_get None k = []"
  "map_get (Some (f(k \<mapsto> v))) k = v"
  "k \<noteq> k' \<Longrightarrow> map_get (Some (f(k' \<mapsto> v))) k = map_get (Some f) k"
  "map_get (Some Map.empty) k = []"
  by (simp_all add: map_get_def)

text \<open>Range loops over a Go map visit its entries in an unspecified order. Such a map is
  given as the list of its entries in the order of the visit, with distinct keys.\<close>

definition entries_ok :: "('k \<times> 'v) list \<Rightarrow> bool" where
  "entries_ok es \<longleftrightarrow> distinct (map fst es)"

lemma map_of_mset_eq:
  "entries_ok es \<Longrightarrow> entries_ok es' \<Longrightarrow> set es = set es' \<Longrightarrow> map_of es = map_of es'"
  by (rule map_of_inject_set [THEN iffD2]) (auto simp: entries_ok_def)

end
