(* ===== verification/GoLib.thy ===== *)
theory GoLib
  imports Prelude
begin

text \<open>
  The parts of Go's standard library the operator computes with: the decimal form of an
  integer (\<open>strconv.FormatInt(i, 10)\<close>, \<open>%d\<close>), \<open>strings.SplitN(s, sep, 2)\<close>, durations
  and times in nanoseconds, and \<open>base64.StdEncoding\<close>. Strings and byte slices are lists
  of bytes.
\<close>

subsection \<open>Decimal numbers\<close>

definition digit_char :: "nat \<Rightarrow> char" where
  "digit_char d = char_of (48 + d)"

definition char_digit :: "char \<Rightarrow> nat" where
  "char_digit c = of_char c - 48"

fun format_nat :: "nat \<Rightarrow> string" where
  "format_nat n =
     (if n < 10 then [digit_char n] else format_nat (n div 10) @ [digit_char (n mod 10)])"

declare format_nat.simps [simp del]

definition FormatInt :: "int \<Rightarrow> string" where
  "FormatInt i = (if i < 0 then CHR ''-'' # format_nat (nat (- i)) else format_nat (nat i))"

fun read_nat :: "string \<Rightarrow> nat \<Rightarrow> nat" where
  "read_nat [] acc = acc"
| "read_nat (c # cs) acc = read_nat cs (10 * acc + char_digit c)"

lemma char_digit_char: "d < 10 \<Longrightarrow> char_digit (digit_char d) = d"
  by (simp add: char_digit_def digit_char_def)

lemma read_nat_append: "read_nat (xs @ ys) acc = read_nat ys (read_nat xs acc)"
  by (induction xs arbitrary: acc) auto

lemma read_format_nat: "read_nat (format_nat n) 0 = n"
proof (induction n rule: format_nat.induct)
  case (1 n)
  then show ?case
    by (subst format_nat.simps) (auto simp: read_nat_append char_digit_char)
qed

lemma format_nat_inj: "format_nat m = format_nat n \<longleftrightarrow> m = n"
  by (metis read_format_nat)

lemma of_digit_char: "d < 10 \<Longrightarrow> of_char (digit_char d) = 48 + d"
  by (simp add: digit_char_def)

lemma format_nat_digits: "c \<in> set (format_nat n) \<Longrightarrow> 48 \<le> (of_char c :: nat) \<and> (of_char c :: nat) < 58"
proof (induction n rule: format_nat.induct)
  case (1 n)
  show ?case
  proof (cases "n < 10")
    case True
    with "1.prems" show ?thesis by (simp add: format_nat.simps of_digit_char)
  next
    case False
    with "1.prems" have "c \<in> set (format_nat (n div 10)) \<or> c = digit_char (n mod 10)"
      by (subst (asm) format_nat.simps) auto
    with "1.IH" [OF False] show ?thesis by (auto simp: of_digit_char)
  qed
qed

lemma FormatInt_chars:
  assumes "c \<in> set (FormatInt i)"
  shows "c = CHR ''-'' \<or> 48 \<le> (of_char c :: nat) \<and> (of_char c :: nat) < 58"
  using assms format_nat_digits by (auto simp: FormatInt_def split: if_splits)

lemma FormatInt_no_dot [simp]: "CHR ''.'' \<notin> set (FormatInt i)"
  using FormatInt_chars [of "CHR ''.''" i] by auto

lemma FormatInt_no_colon [simp]: "CHR '':'' \<notin> set (FormatInt i)"
  using FormatInt_chars [of "CHR '':''" i] by auto

lemma format_nat_not_minus: "format_nat n \<noteq> CHR ''-'' # xs"
  using format_nat_digits [of "CHR ''-''" n] by auto

lemma FormatInt_inj [simp]: "FormatInt i = FormatInt j \<longleftrightarrow> i = j"
proof
  assume eq: "FormatInt i = FormatInt j"
  have minus: "CHR ''-'' # xs \<noteq> format_nat n" for xs n
    using format_nat_not_minus [of n xs] by metis
  show "i = j"
  proof (cases "i < 0 \<longleftrightarrow> j < 0")
    case True
    with eq have "(if i < 0 then nat (- i) = nat (- j) else nat i = nat j)"
      by (simp add: FormatInt_def format_nat_inj split: if_splits)
    with True show ?thesis by (simp split: if_splits)
  next
    case False
    then consider (a) "i < 0" "\<not> j < 0" | (b) "\<not> i < 0" "j < 0" by blast
    then show ?thesis
    proof cases
      case a
      then have "CHR ''-'' # format_nat (nat (- i)) = format_nat (nat j)"
        using eq by (simp only: FormatInt_def if_True if_False)
      with minus show ?thesis by blast
    next
      case b
      then have "CHR ''-'' # format_nat (nat (- j)) = format_nat (nat i)"
        using eq by (simp only: FormatInt_def if_True if_False)
      with minus show ?thesis by blast
    qed
  qed
qed simp

lemma format_nat_nonempty [simp]: "format_nat n \<noteq> []"
  by (subst format_nat.simps) simp

lemma FormatInt_nonempty [simp]: "FormatInt i \<noteq> []"
  by (simp add: FormatInt_def)

subsection \<open>Splitting at a separator\<close>

text \<open>\<open>strings.SplitN(s, sep, 2)\<close> for a separator of one byte: the whole string when it has
  no separator, else what stands before and after the first one.\<close>

definition SplitN2 :: "char \<Rightarrow> string \<Rightarrow> string list" where
  "SplitN2 sep s =
     (case dropWhile (\<lambda>c. c \<noteq> sep) s of
        [] \<Rightarrow> [s]
      | _ # after \<Rightarrow> [takeWhile (\<lambda>c. c \<noteq> sep) s, after])"

lemma SplitN2_join [simp]:
  "sep \<notin> set a \<Longrightarrow> SplitN2 sep (a @ sep # b) = [a, b]"
  by (simp add: SplitN2_def dropWhile_append takeWhile_tail)

lemma SplitN2_none [simp]: "sep \<notin> set s \<Longrightarrow> SplitN2 sep s = [s]"
proof -
  assume "sep \<notin> set s"
  then have "dropWhile (\<lambda>c. c \<noteq> sep) s = []"
    by (auto simp: dropWhile_eq_Nil_conv)
  then show ?thesis by (simp only: SplitN2_def list.case)
qed

lemma SplitN2_cases:
  obtains (whole) "SplitN2 sep s = [s]" "sep \<notin> set s"
  | (parts) a b where "SplitN2 sep s = [a, b]" "s = a @ sep # b" "sep \<notin> set a"
proof (cases "sep \<in> set s")
  case False
  then show ?thesis using whole by simp
next
  case True
  then obtain a b where "s = a @ sep # b" "sep \<notin> set a"
    by (meson split_list_first)
  then show ?thesis using parts by simp
qed

text \<open>Two strings joined by a separator the first does not contain determine each other.\<close>

lemma join_inj:
  "sep \<notin> set a \<Longrightarrow> sep \<notin> set a' \<Longrightarrow> a @ sep # b = a' @ sep # b' \<longleftrightarrow> a = a' \<and> b = b'"
proof (induction a arbitrary: a')
  case Nil
  then show ?case by (cases a') auto
next
  case (Cons x a)
  then show ?case by (cases a') auto
qed

lemma join_inj_right:
  "sep \<notin> set b \<Longrightarrow> sep \<notin> set b' \<Longrightarrow> a @ sep # b = a' @ sep # b' \<longleftrightarrow> a = a' \<and> b = b'"
proof -
  assume "sep \<notin> set b" and "sep \<notin> set b'"
  then have "rev b @ sep # rev a = rev b' @ sep # rev a' \<longleftrightarrow> rev b = rev b' \<and> rev a = rev a'"
    by (intro join_inj) auto
  moreover have "rev b @ sep # rev a = rev b' @ sep # rev a' \<longleftrightarrow> rev (a @ sep # b) = rev (a' @ sep # b')"
    by simp
  ultimately show ?thesis by (simp only: rev_is_rev_conv) blast
qed

subsection \<open>Time\<close>

text \<open>
  A \<open>time.Time\<close> is its distance from the Unix epoch in nanoseconds, a \<open>time.Duration\<close> a
  64-bit number of nanoseconds. \<open>t.Sub(u)\<close> saturates at the ends of the 64-bit range;
  \<open>t.Add(d)\<close> is exact for the times that occur. Division of a duration truncates
  towards zero. The zero time is the first instant of the year 1.
\<close>

type_synonym time = int
type_synonym duration = int

definition maxDuration :: duration where "maxDuration = 9223372036854775807"
definition minDuration :: duration where "minDuration = -9223372036854775808"

definition time_Sub :: "time \<Rightarrow> time \<Rightarrow> duration" where
  "time_Sub t u = max minDuration (min maxDuration (t - u))"

definition time_Add :: "time \<Rightarrow> duration \<Rightarrow> time" where
  "time_Add t d = t + d"

definition zero_time :: time where
  "zero_time = -62135596800000000000"

definition wrap64 :: "int \<Rightarrow> int" where
  "wrap64 x = (x + 9223372036854775808) mod 18446744073709551616 - 9223372036854775808"

lemma wrap64_id [simp]: "minDuration \<le> x \<Longrightarrow> x \<le> maxDuration \<Longrightarrow> wrap64 x = x"
  by (simp add: wrap64_def minDuration_def maxDuration_def)

lemma wrap64_range: "minDuration \<le> wrap64 x \<and> wrap64 x \<le> maxDuration"
proof -
  have "0 \<le> (x + 9223372036854775808) mod 18446744073709551616"
    and "(x + 9223372036854775808) mod 18446744073709551616 < 18446744073709551616"
    by simp_all
  then show ?thesis by (simp add: wrap64_def minDuration_def maxDuration_def)
qed

definition quot :: "int \<Rightarrow> int \<Rightarrow> int" where
  "quot a b = sgn a * sgn b * (\<bar>a\<bar> div \<bar>b\<bar>)"

definition Second :: duration where "Second = 1000000000"
definition Minute :: duration where "Minute = 60 * Second"
definition Hour :: duration where "Hour = 60 * Minute"

lemmas time_defs = time_Sub_def time_Add_def maxDuration_def minDuration_def
  Second_def Minute_def Hour_def

lemma time_Sub_exact:
  "minDuration \<le> t - u \<Longrightarrow> t - u \<le> maxDuration \<Longrightarrow> time_Sub t u = t - u"
  by (simp add: time_Sub_def)

lemma time_Sub_range: "minDuration \<le> time_Sub t u \<and> time_Sub t u \<le> maxDuration"
  by (simp add: time_defs)

subsection \<open>Base64\<close>

text \<open>
  \<open>base64.StdEncoding\<close>: three bytes become four characters of the standard alphabet, a
  last group of one or two bytes is padded with \<open>=\<close>. The decoder skips carriage returns
  and newlines wherever they stand, and fails on any other character outside the
  alphabet, on missing or misplaced padding and on anything after the padding. It does
  not look at the unused low bits of a padded group (the encoding is not strict).
\<close>

definition b64_char :: "nat \<Rightarrow> char" where
  "b64_char n =
     char_of (if n < 26 then n + 65 else if n < 52 then n + 71 else if n < 62 then n - 4
       else if n = 62 then 43 else 47)"

definition b64_val :: "char \<Rightarrow> nat option" where
  "b64_val c =
     (let n = of_char c in
      if 65 \<le> n \<and> n \<le> 90 then Some (n - 65)
      else if 97 \<le> n \<and> n \<le> 122 then Some (n - 71)
      else if 48 \<le> n \<and> n \<le> 57 then Some (n + 4)
      else if n = 43 then Some 62
      else if n = 47 then Some 63
      else None)"

fun EncodeToString :: "string \<Rightarrow> string" where
  "EncodeToString [] = []"
| "EncodeToString [a] =
     (let x = of_char a * 65536 in
      [b64_char (x div 262144), b64_char (x div 4096 mod 64), CHR ''='', CHR ''=''])"
| "EncodeToString [a, b] =
     (let x = of_char a * 65536 + of_char b * 256 in
      [b64_char (x div 262144), b64_char (x div 4096 mod 64), b64_char (x div 64 mod 64),
       CHR ''=''])"
| "EncodeToString (a # b # c # rest) =
     (let x = of_char a * 65536 + of_char b * 256 + of_char c in
      [b64_char (x div 262144), b64_char (x div 4096 mod 64), b64_char (x div 64 mod 64),
       b64_char (x mod 64)] @ EncodeToString rest)"

definition b64_bytes :: "nat \<Rightarrow> nat \<Rightarrow> nat \<Rightarrow> nat \<Rightarrow> char list" where
  "b64_bytes w x y z =
     (let v = w * 262144 + x * 4096 + y * 64 + z in
      [char_of (v div 65536), char_of (v div 256 mod 256), char_of (v mod 256)])"

fun b64_quanta :: "string \<Rightarrow> string option" where
  "b64_quanta [] = Some []"
| "b64_quanta (a # b # c # d # rest) =
     (case (b64_val a, b64_val b) of
        (Some w, Some x) \<Rightarrow>
          (if c = CHR ''='' then
             (if d = CHR ''='' \<and> rest = [] then Some (take 1 (b64_bytes w x 0 0)) else None)
           else case b64_val c of
             None \<Rightarrow> None
           | Some y \<Rightarrow>
               (if d = CHR ''='' then
                  (if rest = [] then Some (take 2 (b64_bytes w x y 0)) else None)
                else case b64_val d of
                  None \<Rightarrow> None
                | Some z \<Rightarrow>
                    (case b64_quanta rest of
                       None \<Rightarrow> None
                     | Some bs \<Rightarrow> Some (b64_bytes w x y z @ bs))))
      | _ \<Rightarrow> None)"
| "b64_quanta _ = None"

definition DecodeString :: "string \<Rightarrow> string result" where
  "DecodeString s =
     (case b64_quanta (filter (\<lambda>c. c \<noteq> char_of (10::nat) \<and> c \<noteq> char_of (13::nat)) s) of
        None \<Rightarrow> Inl (ErrOther ''illegal base64 data'')
      | Some bs \<Rightarrow> Inr bs)"

lemma of_b64_char:
  "n < 64 \<Longrightarrow> of_char (b64_char n) =
     (if n < 26 then n + 65 else if n < 52 then n + 71 else if n < 62 then n - 4
       else if n = 62 then 43 else (47::nat))"
  by (simp add: b64_char_def)

lemma b64_val_char: "n < 64 \<Longrightarrow> b64_val (b64_char n) = Some n"
  by (auto simp: b64_val_def Let_def of_b64_char)

lemma b64_char_neq:
  assumes "n < 64" "(of_char c :: nat) < 43 \<or> of_char c = (61::nat)"
  shows "b64_char n \<noteq> c"
proof
  assume "b64_char n = c"
  with of_b64_char [OF assms(1)] have "of_char c =
     (if n < 26 then n + 65 else if n < 52 then n + 71 else if n < 62 then n - 4
       else if n = 62 then 43 else (47::nat))" by simp
  with assms show False by (auto split: if_splits)
qed

lemma b64_char_plain:
  assumes "n < 64"
  shows "b64_char n \<noteq> CHR ''=''" "b64_char n \<noteq> char_of (10::nat)" "b64_char n \<noteq> char_of (13::nat)"
  by (rule b64_char_neq; use assms in simp)+

text \<open>The four sextets of a group of three bytes, and back.\<close>

lemma sextets:
  fixes x :: nat
  assumes "x < 16777216"
  shows "x div 262144 < 64" "x div 4096 mod 64 < 64" "x div 64 mod 64 < 64" "x mod 64 < 64"
    and "x div 262144 * 262144 + x div 4096 mod 64 * 4096 + x div 64 mod 64 * 64 + x mod 64 = x"
proof -
  show "x div 262144 < 64" using assms by simp
  show "x div 4096 mod 64 < 64" "x div 64 mod 64 < 64" "x mod 64 < 64" by simp_all
  have a: "x = x div 64 * 64 + x mod 64" by simp
  have b: "x div 64 = x div 64 div 64 * 64 + x div 64 mod 64" by simp
  have c: "x div 64 div 64 = x div 64 div 64 div 64 * 64 + x div 64 div 64 mod 64" by simp
  have d: "x div 64 div 64 = x div 4096" "x div 4096 div 64 = x div 262144"
    by (simp_all add: div_mult2_eq [symmetric])
  show "x div 262144 * 262144 + x div 4096 mod 64 * 4096 + x div 64 mod 64 * 64 + x mod 64 = x"
    using a b c unfolding d by linarith
qed

lemma three_bytes:
  fixes a b c :: nat
  assumes "a < 256" "b < 256" "c < 256"
  shows "a * 65536 + b * 256 + c < 16777216"
    and "(a * 65536 + b * 256 + c) div 65536 = a"
    and "(a * 65536 + b * 256 + c) div 256 mod 256 = b"
    and "(a * 65536 + b * 256 + c) mod 256 = c"
proof -
  show "a * 65536 + b * 256 + c < 16777216" using assms by simp
  show "(a * 65536 + b * 256 + c) div 65536 = a" using assms by simp
  have "(a * 65536 + b * 256 + c) div 256 = a * 256 + b" using assms by simp
  then show "(a * 65536 + b * 256 + c) div 256 mod 256 = b" using assms by simp
  show "(a * 65536 + b * 256 + c) mod 256 = c"
  proof -
    have "a * 65536 + b * 256 + c = c + (a * 256 + b) * 256" by simp
    then show ?thesis using assms by (metis mod_mult_self1 mod_less)
  qed
qed

lemma of_char_256: "(of_char c :: nat) < 256"
  using of_char_mod_256 [of c] by (metis mod_less_divisor zero_less_numeral)

lemma b64_bytes_group:
  fixes a b c :: char
  defines "x \<equiv> of_char a * 65536 + of_char b * 256 + (of_char c :: nat)"
  shows "b64_bytes (x div 262144) (x div 4096 mod 64) (x div 64 mod 64) (x mod 64) = [a, b, c]"
  using three_bytes [OF of_char_256 of_char_256 of_char_256, of a b c]
  by (simp only: b64_bytes_def Let_def sextets(5) x_def three_bytes of_char_256 char_of_char)

lemma b64_group_chars:
  fixes a b c :: char
  defines "x \<equiv> of_char a * 65536 + of_char b * 256 + (of_char c :: nat)"
  shows "x div 262144 < 64" "x div 4096 mod 64 < 64" "x div 64 mod 64 < 64" "x mod 64 < 64"
  using sextets [OF three_bytes(1) [OF of_char_256 of_char_256 of_char_256, of a b c]]
  by (simp_all add: x_def)

lemmas b64_group = b64_group_chars b64_bytes_group

lemma b64_quanta_encode: "b64_quanta (EncodeToString bs) = Some bs"
proof (induction bs rule: EncodeToString.induct)
  case 1
  then show ?case by simp
next
  case (2 a)
  note g = b64_group [of a "CHR 0x00" "CHR 0x00", simplified]
  have z: "of_char a * 65536 div 64 mod 64 = (0::nat)" "of_char a * 65536 mod 64 = (0::nat)"
    by (simp_all add: mod_mult_left_eq div_mult_swap)
  show ?case
    using g by (simp add: Let_def b64_val_char b64_char_plain z)
next
  case (3 a b)
  note g = b64_group [of a b "CHR 0x00", simplified]
  have z: "(of_char a * 65536 + of_char b * 256) mod 64 = (0::nat)"
    by (simp add: mod_eq_0_iff_dvd)
  show ?case
    using g by (simp add: Let_def b64_val_char b64_char_plain z)
next
  case (4 a b c rest)
  show ?case
    using "4.IH" [OF refl] b64_group [of a b c]
    by (simp add: Let_def b64_val_char b64_char_plain)
qed

lemma pad_plain [simp]: "CHR ''='' \<noteq> char_of (10::nat)" "CHR ''='' \<noteq> char_of (13::nat)"
  by code_simp+

lemma EncodeToString_plain:
  "c \<in> set (EncodeToString bs) \<Longrightarrow> c \<noteq> char_of (10::nat) \<and> c \<noteq> char_of (13::nat)"
proof (induction bs rule: EncodeToString.induct)
  case 1
  then show ?case by simp
next
  case (2 a)
  with b64_group_chars [of a "CHR 0x00" "CHR 0x00", simplified] show ?case
    by (auto simp: Let_def b64_char_plain)
next
  case (3 a b)
  with b64_group_chars [of a b "CHR 0x00", simplified] show ?case
    by (auto simp: Let_def b64_char_plain)
next
  case (4 a b c rest)
  with b64_group_chars [of a b c] show ?case
    by (auto simp: Let_def b64_char_plain)
qed

text \<open>Decoding what was encoded gives back the bytes.\<close>

lemma Decode_Encode [simp]: "DecodeString (EncodeToString bs) = Inr bs"
proof -
  have "filter (\<lambda>c. c \<noteq> char_of (10::nat) \<and> c \<noteq> char_of (13::nat)) (EncodeToString bs)
      = EncodeToString bs"
    by (rule filter_True) (use EncodeToString_plain in blast)
  then show ?thesis by (simp add: DecodeString_def b64_quanta_encode)
qed

end
