(* ===== verification/Kube.thy ===== *)
theory Kube
  imports GoLib
begin

text \<open>
  The operator's view of Kubernetes: the metadata every API object embeds
  (\<open>metav1.TypeMeta\<close>, \<open>metav1.ObjectMeta\<close>), status conditions, and the libraries the
  controllers call (controller-runtime's client and \<open>controllerutil\<close>, operator-sdk's
  \<open>status\<close>). The libraries and the API server are not part of the repository. They are
  parameters: records of operations over a world \<open>'s\<close>, with the documented behaviour that
  theorems rely on stated as the \<open>_contract\<close> predicates of this theory.
\<close>

subsection \<open>Object metadata\<close>

datatype NamespacedName = NN (nn_namespace: string) (nn_name: string)

record OwnerReference =
  or_APIVersion :: string
  or_Kind :: string
  or_Name :: string
  or_UID :: string
  or_Controller :: "bool option"
  or_BlockOwnerDeletion :: "bool option"

text \<open>
  Go structs embed \<open>TypeMeta\<close> and \<open>ObjectMeta\<close>, so the records of the API types extend
  this one. \<open>APIVersion\<close> and \<open>Kind\<close> are what
  \<open>GetObjectKind().GroupVersionKind().ToAPIVersionAndKind()\<close> returns.
\<close>

record kobject =
  APIVersion :: string
  Kind :: string
  Name :: string
  Namespace :: string
  UID :: string
  Generation :: int
  CreationTimestamp :: time
  DeletionTimestamp :: "time option"
  Labels :: strmap
  Annotations :: strmap
  OwnerReferences :: "OwnerReference list"
  Finalizers :: "string list"

definition new_kobject :: kobject where
  "new_kobject = \<lparr>APIVersion = [], Kind = [], Name = [], Namespace = [], UID = [],
     Generation = 0, CreationTimestamp = zero_time, DeletionTimestamp = None,
     Labels = None, Annotations = None, OwnerReferences = [], Finalizers = []\<rparr>"

definition object_key :: "'a kobject_scheme \<Rightarrow> NamespacedName" where
  "object_key o' = NN (Namespace o') (Name o')"

lemma object_key_simps [simp]:
  "object_key (o'\<lparr>OwnerReferences := rs\<rparr>) = object_key o'"
  "object_key (o'\<lparr>Finalizers := fs\<rparr>) = object_key o'"
  "object_key (o'\<lparr>Annotations := a\<rparr>) = object_key o'"
  "object_key (o'\<lparr>Labels := a\<rparr>) = object_key o'"
  by (simp_all add: object_key_def)

lemma OwnerReferences_truncate: "OwnerReferences (kobject.truncate x) = OwnerReferences x"
  by (simp add: kobject.defs)

text \<open>\<open>(*metav1.Time).IsZero\<close>: true for \<open>nil\<close> and for the zero time.\<close>

definition IsZero :: "time option \<Rightarrow> bool" where
  "IsZero t = (case t of None \<Rightarrow> True | Some u \<Rightarrow> u = zero_time)"

lemma IsZero_simps [simp]: "IsZero None" "IsZero (Some u) \<longleftrightarrow> u = zero_time"
  by (simp_all add: IsZero_def)

subsection \<open>Secrets\<close>

text \<open>\<open>corev1.Secret\<close>, as far as the operator uses it.\<close>

record Secret = kobject +
  SecretType :: string
  Data :: strmap

definition new_secret :: "string \<Rightarrow> string \<Rightarrow> Secret" where
  "new_secret ns n =
     kobject.extend (new_kobject\<lparr>Namespace := ns, Name := n\<rparr>) (Secret.fields [] None)"

lemma new_secret_simps [simp]:
  "Name (new_secret ns n) = n" "Namespace (new_secret ns n) = ns"
  "UID (new_secret ns n) = []" "Labels (new_secret ns n) = None"
  "Annotations (new_secret ns n) = None" "OwnerReferences (new_secret ns n) = []"
  "SecretType (new_secret ns n) = []" "Data (new_secret ns n) = None"
  by (simp_all add: new_secret_def new_kobject_def kobject.defs Secret.defs)

definition SecretTypeOpaque :: string where "SecretTypeOpaque = ''Opaque''"
definition SecretTypeDockerConfigJson :: string where
  "SecretTypeDockerConfigJson = ''kubernetes.io/dockerconfigjson''"
definition SecretTypeTLS :: string where "SecretTypeTLS = ''kubernetes.io/tls''"
definition DockerConfigJsonKey :: string where "DockerConfigJsonKey = ''.dockerconfigjson''"

subsection \<open>Conditions\<close>

datatype ConditionStatus = ConditionTrue | ConditionFalse | ConditionUnknown

record Condition =
  CondType :: string
  CondStatus :: ConditionStatus
  CondReason :: string
  CondMessage :: string
  LastTransitionTime :: time

type_synonym Conditions = "string \<rightharpoonup> Condition"

definition mk_condition :: "string \<Rightarrow> ConditionStatus \<Rightarrow> string \<Rightarrow> string \<Rightarrow> Condition" where
  "mk_condition t s r m = \<lparr>CondType = t, CondStatus = s, CondReason = r, CondMessage = m,
     LastTransitionTime = zero_time\<rparr>"

lemma mk_condition_simps [simp]:
  "CondType (mk_condition t s r m) = t" "CondStatus (mk_condition t s r m) = s"
  "CondReason (mk_condition t s r m) = r" "CondMessage (mk_condition t s r m) = m"
  by (simp_all add: mk_condition_def)

text \<open>Two conditions that differ at most in the time of their last transition.\<close>

definition same_condition :: "Condition \<Rightarrow> Condition \<Rightarrow> bool" where
  "same_condition c d \<longleftrightarrow> CondType c = CondType d \<and> CondStatus c = CondStatus d \<and>
     CondReason c = CondReason d \<and> CondMessage c = CondMessage d"

lemma same_condition_refl [simp]: "same_condition c c"
  by (simp add: same_condition_def)

subsection \<open>The libraries\<close>

record 's kube_lib =
  \<comment> \<open>\<open>controllerutil.SetControllerReference(owner, obj, scheme)\<close>: the owner references of
      \<open>obj\<close> with \<open>owner\<close> as its controller, or an error\<close>
  SetControllerReference :: "kobject \<Rightarrow> kobject \<Rightarrow> OwnerReference list result"
  \<comment> \<open>\<open>controllerutil.AddFinalizer\<close>, \<open>RemoveFinalizer\<close>\<close>
  AddFinalizer :: "string \<Rightarrow> string list \<Rightarrow> string list"
  RemoveFinalizer :: "string \<Rightarrow> string list \<Rightarrow> string list"
  \<comment> \<open>operator-sdk \<open>status.Conditions\<close>: \<open>SetCondition\<close> (reads the clock), \<open>IsTrueFor\<close>\<close>
  SetCondition :: "Condition \<Rightarrow> Conditions \<Rightarrow> ('s, Conditions \<times> bool) state"
  IsTrueFor :: "string \<Rightarrow> Conditions \<Rightarrow> bool"
  \<comment> \<open>\<open>types.NamespacedName.String\<close>\<close>
  NNString :: "NamespacedName \<Rightarrow> string"
  \<comment> \<open>\<open>labels.SelectorFromSet\<close>, for a set of labels: the requirements of the selector\<close>
  SelectorFromSet :: "(string \<times> string) list \<Rightarrow> (string \<times> string) list"
  \<comment> \<open>\<open>time.Now\<close>\<close>
  Now :: "('s, time) state"

text \<open>The documented behaviour of these functions.\<close>

definition finalizer_contract :: "('s, 'z) kube_lib_scheme \<Rightarrow> bool" where
  "finalizer_contract lib \<longleftrightarrow> (\<forall>f fs.
     set (AddFinalizer lib f fs) = insert f (set fs) \<and>
     set (RemoveFinalizer lib f fs) = set fs - {f})"

definition condition_contract :: "('s, 'z) kube_lib_scheme \<Rightarrow> bool" where
  "condition_contract lib \<longleftrightarrow> (\<forall>c cs s. \<exists>c' s'.
     run_state (SetCondition lib c cs) s =
       ((cs(CondType c \<mapsto> c'),
         (case cs (CondType c) of None \<Rightarrow> True | Some d \<Rightarrow> \<not> same_condition d c)), s') \<and>
     same_condition c' c)"

definition IsTrueFor_contract :: "('s, 'z) kube_lib_scheme \<Rightarrow> bool" where
  "IsTrueFor_contract lib \<longleftrightarrow> (\<forall>t cs.
     IsTrueFor lib t cs = (case cs t of None \<Rightarrow> False | Some c \<Rightarrow> CondStatus c = ConditionTrue))"

text \<open>An object that has the controller reference keeps its references, whatever else of
  it changed within its namespace.\<close>

definition controller_contract :: "('s, 'z) kube_lib_scheme \<Rightarrow> bool" where
  "controller_contract lib \<longleftrightarrow> (\<forall>owner x y refs.
     SetControllerReference lib owner x = Inr refs \<longrightarrow> OwnerReferences y = refs \<longrightarrow>
     Namespace y = Namespace x \<longrightarrow> SetControllerReference lib owner y = Inr refs)"

definition NNString_contract :: "('s, 'z) kube_lib_scheme \<Rightarrow> bool" where
  "NNString_contract lib \<longleftrightarrow> (\<forall>ns n. NNString lib (NN ns n) = ns @ ''/'' @ n)"

text \<open>
  Label selectors. A selector is a list of requirements, labels that an object must have with
  these values; without a requirement it selects everything. Kubernetes documents what a label
  value may be: at most 63 characters, letters, digits, dashes, underscores and dots, a letter
  or a digit first and last, or nothing. \<open>SelectorFromSet\<close> is documented to match the set, and
  requires nothing else than the labels of the set; how it treats labels that no object can
  have is not documented and differs between versions (dropped requirements or requirements
  that the server refuses), so the contract leaves it open.
\<close>

definition selects :: "(string \<times> string) list \<Rightarrow> strmap \<Rightarrow> bool" where
  "selects sel ls \<longleftrightarrow> list_all (\<lambda>(k, v). case ls of None \<Rightarrow> False | Some m \<Rightarrow> m k = Some v) sel"

definition alphanumeric :: "char \<Rightarrow> bool" where
  "alphanumeric c \<longleftrightarrow> c \<in> set ''abcdefghijklmnopqrstuvwxyzABCDEFGHIJKLMNOPQRSTUVWXYZ0123456789''"

definition legal_label_value :: "string \<Rightarrow> bool" where
  "legal_label_value v \<longleftrightarrow> v = [] \<or> length v \<le> 63 \<and> alphanumeric (hd v) \<and> alphanumeric (last v) \<and>
     list_all (\<lambda>c. alphanumeric c \<or> c \<in> set ''-_.'') v"

definition selector_contract :: "('s, 'z) kube_lib_scheme \<Rightarrow> bool" where
  "selector_contract lib \<longleftrightarrow> (\<forall>ls. set (SelectorFromSet lib ls) \<subseteq> set ls \<and>
     (list_all (\<lambda>(_, v). legal_label_value v) ls \<longrightarrow> set (SelectorFromSet lib ls) = set ls))"

lemma selects_nothing_required [simp]: "selects [] ls"
  by (simp add: selects_def)

lemma legal_no_slash: "legal_label_value v \<Longrightarrow> CHR ''/'' \<notin> set v"
proof
  assume v: "legal_label_value v" "CHR ''/'' \<in> set v"
  have "\<not> alphanumeric (CHR ''/'')" "CHR ''/'' \<notin> set ''-_.''" by (simp_all add: alphanumeric_def)
  moreover have "list_all (\<lambda>c. alphanumeric c \<or> c \<in> set ''-_.'') v"
    using v by (cases v) (simp_all only: legal_label_value_def list.pred_inject simp_thms list.distinct)
  ultimately show False using v(2) unfolding list_all_iff by blast
qed

lemma wp_SetCondition:
  assumes "condition_contract lib"
    and "\<And>c' s'. same_condition c' c \<Longrightarrow>
      Q (cs(CondType c \<mapsto> c'), case cs (CondType c) of None \<Rightarrow> True | Some d \<Rightarrow> \<not> same_condition d c) s'"
  shows "wp (SetCondition lib c cs) Q s"
proof -
  from assms(1) obtain c' s' where
    "run_state (SetCondition lib c cs) s =
       ((cs(CondType c \<mapsto> c'),
         (case cs (CondType c) of None \<Rightarrow> True | Some d \<Rightarrow> \<not> same_condition d c)), s')"
    and "same_condition c' c"
    unfolding condition_contract_def by blast
  with assms(2) show ?thesis by (simp add: wp_run)
qed

subsection \<open>The API client\<close>

text \<open>
  \<open>client.Client\<close> for one kind of object. Go passes a pointer that a successful call
  overwrites with the server's answer, so the writing calls return the object as it is
  afterwards. \<open>DeleteAllOf\<close> takes the requirements of the label selector and a namespace.
\<close>

record ('o, 's) client =
  Get :: "NamespacedName \<Rightarrow> ('s, 'o result) state"
  Create :: "'o \<Rightarrow> ('s, go_error option \<times> 'o) state"
  Update :: "'o \<Rightarrow> ('s, go_error option \<times> 'o) state"
  StatusUpdate :: "'o \<Rightarrow> ('s, go_error option \<times> 'o) state"
  Delete :: "'o \<Rightarrow> ('s, go_error option) state"
  DeleteAllOf :: "(string \<times> string) list \<Rightarrow> string \<Rightarrow> ('s, go_error option) state"

text \<open>The calls of a client, as events: the call and its error, if any.\<close>

datatype 'o call =
    CGet NamespacedName
  | CCreate 'o
  | CUpdate 'o
  | CStatus 'o
  | CDelete 'o
  | CDeleteAll "(string \<times> string) list" string

fun is_write :: "'o call \<Rightarrow> bool" where
  "is_write (CGet _) = False"
| "is_write _ = True"

definition recorded_client ::
  "('o call \<Rightarrow> go_error option \<Rightarrow> 'e) \<Rightarrow> ('o, 's) client \<Rightarrow> ('o, 's \<times> 'e list) client" where
  "recorded_client ev c = \<lparr>
     Get = (\<lambda>k. recorded (\<lambda>r. ev (CGet k) (err_of r)) (Get c k)),
     Create = (\<lambda>x. recorded (\<lambda>r. ev (CCreate x) (fst r)) (Create c x)),
     Update = (\<lambda>x. recorded (\<lambda>r. ev (CUpdate x) (fst r)) (Update c x)),
     StatusUpdate = (\<lambda>x. recorded (\<lambda>r. ev (CStatus x) (fst r)) (StatusUpdate c x)),
     Delete = (\<lambda>x. recorded (\<lambda>r. ev (CDelete x) r) (Delete c x)),
     DeleteAllOf = (\<lambda>ls ns. recorded (\<lambda>r. ev (CDeleteAll ls ns) r) (DeleteAllOf c ls ns))\<rparr>"

lemma recorded_client_simps [simp]:
  "Get (recorded_client ev c) k = recorded (\<lambda>r. ev (CGet k) (err_of r)) (Get c k)"
  "Create (recorded_client ev c) x = recorded (\<lambda>r. ev (CCreate x) (fst r)) (Create c x)"
  "Update (recorded_client ev c) x = recorded (\<lambda>r. ev (CUpdate x) (fst r)) (Update c x)"
  "StatusUpdate (recorded_client ev c) x = recorded (\<lambda>r. ev (CStatus x) (fst r)) (StatusUpdate c x)"
  "Delete (recorded_client ev c) x = recorded (\<lambda>r. ev (CDelete x) r) (Delete c x)"
  "DeleteAllOf (recorded_client ev c) ls ns =
     recorded (\<lambda>r. ev (CDeleteAll ls ns) r) (DeleteAllOf c ls ns)"
  by (simp_all add: recorded_client_def)

definition recorded_lib :: "'s kube_lib \<Rightarrow> ('s \<times> 'e list) kube_lib" where
  "recorded_lib lib = \<lparr>
     SetControllerReference = SetControllerReference lib,
     AddFinalizer = AddFinalizer lib, RemoveFinalizer = RemoveFinalizer lib,
     SetCondition = (\<lambda>c cs. unrecorded (SetCondition lib c cs)),
     IsTrueFor = IsTrueFor lib, NNString = NNString lib,
     SelectorFromSet = SelectorFromSet lib, Now = unrecorded (Now lib)\<rparr>"

lemma recorded_lib_simps [simp]:
  "SetControllerReference (recorded_lib lib) = SetControllerReference lib"
  "AddFinalizer (recorded_lib lib) = AddFinalizer lib"
  "RemoveFinalizer (recorded_lib lib) = RemoveFinalizer lib"
  "SetCondition (recorded_lib lib) c cs = unrecorded (SetCondition lib c cs)"
  "IsTrueFor (recorded_lib lib) = IsTrueFor lib"
  "NNString (recorded_lib lib) = NNString lib" "SelectorFromSet (recorded_lib lib) = SelectorFromSet lib"
  "Now (recorded_lib lib) = unrecorded (Now lib)"
  by (simp_all add: recorded_lib_def)

subsection \<open>Create or update\<close>

text \<open>
  \<open>controllerutil.CreateOrUpdate(ctx, client, obj, mutate)\<close> is documented to fetch the
  object, to call \<open>mutate\<close> on it whether it exists or not, to stop at an error of either,
  and then to create the object, to update it or to leave it as it is. What fetching and
  writing do is up to the library and the server: they are the two operations of an
  \<open>upserter\<close>. The callback may change the variables \<open>'x\<close> it captures, and its panic is a
  panic of the call.
\<close>

datatype OperationResult = OperationResultNone | OperationResultCreated | OperationResultUpdated

record ('o, 's) upserter =
  up_fetch :: "'o \<Rightarrow> ('s, go_error option \<times> 'o) state"
  up_write :: "'o \<Rightarrow> 'o \<Rightarrow> ('s, OperationResult \<times> go_error option \<times> 'o) state"

definition CreateOrUpdate ::
  "('o, 's) upserter \<Rightarrow> 'o \<Rightarrow> ('o \<Rightarrow> 'x \<Rightarrow> ('s, (go_error option \<times> 'o \<times> 'x) outcome) state) \<Rightarrow> 'x
     \<Rightarrow> ('s, (OperationResult \<times> go_error option \<times> 'o \<times> 'x) outcome) state" where
  "CreateOrUpdate u obj mutate x = do {
     f \<leftarrow> up_fetch u obj;
     case fst f of
       Some err \<Rightarrow> ret (Returned (OperationResultNone, Some err, snd f, x))
     | None \<Rightarrow> do {
         o' \<leftarrow> mutate (snd f) x;
         case o' of
           Panicked p \<Rightarrow> ret (Panicked p)
         | Returned q \<Rightarrow>
             (case fst q of
                Some err \<Rightarrow> ret (Returned (OperationResultNone, Some err, snd q))
              | None \<Rightarrow> do {
                  w \<leftarrow> up_write u (snd f) (fst (snd q));
                  ret (Returned (fst w, fst (snd w), snd (snd w), snd (snd q)))
                })
       }
   }"

lemma wp_CreateOrUpdate:
  assumes "wp (up_fetch u obj) (\<lambda>f. case fst f of
      Some err \<Rightarrow> Q (Returned (OperationResultNone, Some err, snd f, x))
    | None \<Rightarrow> wp (mutate (snd f) x) (\<lambda>o'. case o' of
        Panicked p \<Rightarrow> Q (Panicked p)
      | Returned q \<Rightarrow> (case fst q of
          Some err \<Rightarrow> Q (Returned (OperationResultNone, Some err, snd q))
        | None \<Rightarrow> wp (up_write u (snd f) (fst (snd q)))
            (\<lambda>w. Q (Returned (fst w, fst (snd w), snd (snd w), snd (snd q))))))) s"
  shows "wp (CreateOrUpdate u obj mutate x) Q s"
  unfolding CreateOrUpdate_def wp_bind
  by (rule wp_mono [OF assms])
    (auto split: option.splits outcome.splits elim!: wp_mono)

definition recorded_upserter ::
  "('o \<Rightarrow> go_error option \<Rightarrow> 'e) \<Rightarrow> ('o, 's) upserter \<Rightarrow> ('o, 's \<times> 'e list) upserter" where
  "recorded_upserter ev u = \<lparr>
     up_fetch = (\<lambda>x. unrecorded (up_fetch u x)),
     up_write = (\<lambda>x y. recorded (\<lambda>r. ev y (fst (snd r))) (up_write u x y))\<rparr>"

lemma recorded_upserter_simps [simp]:
  "up_fetch (recorded_upserter ev u) x = unrecorded (up_fetch u x)"
  "up_write (recorded_upserter ev u) x y = recorded (\<lambda>r. ev y (fst (snd r))) (up_write u x y)"
  by (simp_all add: recorded_upserter_def)

text \<open>The same operations where they are not recorded.\<close>

definition lifted_upserter :: "('o, 's) upserter \<Rightarrow> ('o, 's \<times> 'e list) upserter" where
  "lifted_upserter u = \<lparr>up_fetch = (\<lambda>x. unrecorded (up_fetch u x)),
     up_write = (\<lambda>x y. unrecorded (up_write u x y))\<rparr>"

definition lifted_client :: "('o, 's) client \<Rightarrow> ('o, 's \<times> 'e list) client" where
  "lifted_client c = \<lparr>Get = (\<lambda>k. unrecorded (Get c k)), Create = (\<lambda>x. unrecorded (Create c x)),
     Update = (\<lambda>x. unrecorded (Update c x)), StatusUpdate = (\<lambda>x. unrecorded (StatusUpdate c x)),
     Delete = (\<lambda>x. unrecorded (Delete c x)),
     DeleteAllOf = (\<lambda>ls ns. unrecorded (DeleteAllOf c ls ns))\<rparr>"

lemma lifted_upserter_simps [simp]:
  "up_fetch (lifted_upserter u) x = unrecorded (up_fetch u x)"
  "up_write (lifted_upserter u) x y = unrecorded (up_write u x y)"
  by (simp_all add: lifted_upserter_def)

lemma lifted_client_simps [simp]:
  "Get (lifted_client c) k = unrecorded (Get c k)"
  "Create (lifted_client c) x = unrecorded (Create c x)"
  "Update (lifted_client c) x = unrecorded (Update c x)"
  "StatusUpdate (lifted_client c) x = unrecorded (StatusUpdate c x)"
  by (simp_all add: lifted_client_def)

end
