(* ===== verification/ApiTypes.thy ===== *)
theory ApiTypes
  imports Kube
begin

text \<open>
  \<open>pkg/apis/registry/v1alpha1\<close>: the custom resources. A spec or status struct that has one
  level of nesting in Go is flattened into the record of its resource, with a prefix that
  names the resource. A \<open>nil\<close> pointer is \<open>None\<close>. The result of a \<open>Reconcile\<close> is the delay
  after which the request is to be queued again (zero: not at all; \<open>Requeue\<close> is never set)
  and the error, which makes the request be queued again with a back-off.
\<close>

subsection \<open>Image secrets\<close>

definition TypePull :: string where "TypePull = ''pull''"
definition TypePush :: string where "TypePush = ''push''"
definition SecretKeyCaCert :: string where "SecretKeyCaCert = ''ca.crt''"
definition SecretKeyRegistry :: string where "SecretKeyRegistry = ''registry''"
definition SecretKeyUsername :: string where "SecretKeyUsername = ''username''"
definition SecretKeyPassword :: string where "SecretKeyPassword = ''password''"
definition ReasonRegistryUnavailable :: string where
  "ReasonRegistryUnavailable = ''RegistryUnavailable''"

lemmas secret_keys = SecretKeyCaCert_def SecretKeyRegistry_def SecretKeyUsername_def
  SecretKeyPassword_def DockerConfigJsonKey_def

record ImageRegistryRef =
  ref_Name :: string
  ref_Namespace :: string

record ImageSecretStatus =
  st_Conditions :: Conditions
  st_ObservedGeneration :: int
  RotationDate :: "time option"
  Rotation :: int
  RegistryNamespace :: string

record ImageSecret = kobject +
  RegistryRef :: "ImageRegistryRef option"
  Status :: ImageSecretStatus

definition new_ImageSecretStatus :: ImageSecretStatus where
  "new_ImageSecretStatus = \<lparr>st_Conditions = Map.empty, st_ObservedGeneration = 0,
     RotationDate = None, Rotation = 0, RegistryNamespace = []\<rparr>"

definition new_ImageSecret :: "string \<Rightarrow> string \<Rightarrow> ImageSecret" where
  "new_ImageSecret ns n = kobject.extend (new_kobject\<lparr>Namespace := ns, Name := n\<rparr>)
     (ImageSecret.fields None new_ImageSecretStatus)"

text \<open>
  The two kinds, \<open>ImagePullSecret\<close> and \<open>ImagePushSecret\<close>, embed the same struct and differ
  in what \<open>GetRegistryAccessMode\<close> returns.
\<close>

datatype ImageSecretKind = ImagePullSecret | ImagePushSecret

fun GetRegistryAccessMode :: "ImageSecretKind \<Rightarrow> string" where
  "GetRegistryAccessMode ImagePullSecret = TypePull"
| "GetRegistryAccessMode ImagePushSecret = TypePush"

lemma access_mode_inj [simp]:
  "GetRegistryAccessMode k = GetRegistryAccessMode k' \<longleftrightarrow> k = k'"
  by (cases k; cases k') (simp_all add: TypePull_def TypePush_def)

lemma access_mode_no_dot [simp]: "CHR ''.'' \<notin> set (GetRegistryAccessMode k)"
  by (cases k) (simp_all add: TypePull_def TypePush_def)

lemma access_mode_no_colon [simp]: "CHR '':'' \<notin> set (GetRegistryAccessMode k)"
  by (cases k) (simp_all add: TypePull_def TypePush_def)

subsection \<open>Accounts\<close>

record ImageRegistryAccount = kobject +
  acc_Password :: string
  acc_Labels :: "(string \<rightharpoonup> string list) option"
  acc_TTL :: "duration option"

definition new_ImageRegistryAccount :: "string \<Rightarrow> string \<Rightarrow> ImageRegistryAccount" where
  "new_ImageRegistryAccount ns n = kobject.extend (new_kobject\<lparr>Namespace := ns, Name := n\<rparr>)
     (ImageRegistryAccount.fields [] None None)"

lemma new_ImageRegistryAccount_simps [simp]:
  "Name (new_ImageRegistryAccount ns n) = n"
  "Namespace (new_ImageRegistryAccount ns n) = ns"
  "CreationTimestamp (new_ImageRegistryAccount ns n) = zero_time"
  "object_key (new_ImageRegistryAccount ns n) = NN ns n"
  by (simp_all add: new_ImageRegistryAccount_def new_kobject_def kobject.defs object_key_def
      ImageRegistryAccount.defs)

text \<open>\<open>Expired\<close>, at the time \<open>now\<close> that it reads.\<close>

definition ExpiredAt :: "time \<Rightarrow> ImageRegistryAccount \<Rightarrow> bool" where
  "ExpiredAt now a =
     (case acc_TTL a of
        None \<Rightarrow> False
      | Some ttl \<Rightarrow> now > time_Add (CreationTimestamp a) ttl)"

definition Expired :: "'s kube_lib \<Rightarrow> ImageRegistryAccount \<Rightarrow> ('s, bool) state" where
  "Expired lib a =
     (case acc_TTL a of
        None \<Rightarrow> ret False
      | Some _ \<Rightarrow> do { now \<leftarrow> Now lib; ret (ExpiredAt now a) })"

subsection \<open>Registries\<close>

definition ConditionSynced :: string where "ConditionSynced = ''Synced''"
definition ConditionReady :: string where "ConditionReady = ''Ready''"
definition ReasonFailedSync :: string where "ReasonFailedSync = ''FailedSync''"
definition ReasonUpdating :: string where "ReasonUpdating = ''Updating''"

lemma condition_types [simp]: "ConditionReady \<noteq> ConditionSynced" "ConditionSynced \<noteq> ConditionReady"
  by (simp_all add: ConditionReady_def ConditionSynced_def)

record CertIssuerRefSpec =
  issuer_Name :: string
  issuer_Kind :: string

record CertificateSpec =
  cs_IssuerRef :: "CertIssuerRefSpec option"
  cs_SecretName :: "string option"

record PersistentVolumeClaimSpec =
  StorageClassName :: "string option"
  AccessModes :: "string list"
  Resources :: "(string \<times> string) list"
  DeleteClaim :: bool

record ImageRegistry = kobject +
  reg_Replicas :: "int option"
  reg_PVC :: PersistentVolumeClaimSpec
  reg_TLS :: CertificateSpec
  AuthConfigMapName :: "string option"
  AuthCA :: CertificateSpec
  reg_ObservedGeneration :: int
  reg_Conditions :: Conditions
  Hostname :: string
  TLSSecretName :: string

definition no_cert_spec :: CertificateSpec where
  "no_cert_spec = \<lparr>cs_IssuerRef = None, cs_SecretName = None\<rparr>"

definition new_ImageRegistry :: "string \<Rightarrow> string \<Rightarrow> ImageRegistry" where
  "new_ImageRegistry ns n = kobject.extend (new_kobject\<lparr>Namespace := ns, Name := n\<rparr>)
     (ImageRegistry.fields None
        \<lparr>StorageClassName = None, AccessModes = [], Resources = [], DeleteClaim = False\<rparr>
        no_cert_spec None no_cert_spec 0 Map.empty [] [])"

subsection \<open>Build environments\<close>

definition ReasonMissingSecret :: string where "ReasonMissingSecret = ''MissingSecret''"
definition ReasonInvalidSecret :: string where "ReasonInvalidSecret = ''InvalidSecret''"
definition ReasonFailedUpdate :: string where "ReasonFailedUpdate = ''FailedUpdate''"
definition ReasonPending :: string where "ReasonPending = ''Pending''"
definition SecretKeyMakisuYAML :: string where "SecretKeyMakisuYAML = ''makisu.yaml''"
definition SecretKeyRedis :: string where "SecretKeyRedis = ''redis''"
definition SecretKeyRedisPassword :: string where "SecretKeyRedisPassword = ''redis_password''"

record ImageBuildEnv = kobject +
  env_Redis :: bool
  env_Secrets :: "string list"
  env_ObservedGeneration :: int
  env_Conditions :: Conditions
  SecretRefs :: "string list"

subsection \<open>Results of a reconciliation\<close>

datatype reconcile_result = Result (RequeueAfter: duration)

type_synonym reconciled = "reconcile_result \<times> go_error option"

abbreviation no_requeue :: reconcile_result where
  "no_requeue \<equiv> Result 0"

end
