(* ===== verification/RegistryNames.thy ===== *)
theory RegistryNames
  imports ApiTypes
begin

text \<open>
  The names of what belongs to an \<open>ImageRegistry\<close>
  (\<open>pkg/controller/imageregistry/imageregistry_reconcile.go\<close>). The image secret controller
  uses the host name too. \<open>Getenv\<close> is a parameter.
\<close>

definition EnvDnsZone :: string where "EnvDnsZone = ''OPERATOR_DNS_ZONE''"

definition DNSZone :: "(string \<Rightarrow> string) \<Rightarrow> string" where
  "DNSZone Getenv =
     (let dnsZone = Getenv EnvDnsZone in
      if dnsZone = [] then ''svc.cluster.local'' else dnsZone)"

definition serviceNameForCR :: "ImageRegistry \<Rightarrow> string" where
  "serviceNameForCR cr = Name cr"

definition RegistryHostname :: "ImageRegistry \<Rightarrow> string \<Rightarrow> string" where
  "RegistryHostname cr dnsZone = serviceNameForCR cr @ ''.'' @ Namespace cr @ ''.'' @ dnsZone"

definition selectorLabelsForCR :: "ImageRegistry \<Rightarrow> strmap" where
  "selectorLabelsForCR cr = Some [''app'' \<mapsto> ''imageregistry-'' @ Name cr]"

definition pvcNameForCR :: "ImageRegistry \<Rightarrow> string" where
  "pvcNameForCR cr = ''imageregistry-'' @ Name cr @ ''-pvc''"

definition tlsCertNameForCR :: "ImageRegistry \<Rightarrow> string" where
  "tlsCertNameForCR cr = ''imageregistry-'' @ Name cr @ ''-tls''"

definition tlsSecretNameForCR :: "ImageRegistry \<Rightarrow> string" where
  "tlsSecretNameForCR cr =
     (case cs_SecretName (reg_TLS cr) of
        Some name \<Rightarrow> name
      | None \<Rightarrow>
          (case cs_IssuerRef (reg_TLS cr) of
             None \<Rightarrow> ''imageregistry-'' @ Name cr @ ''-selfsigned-tls''
           | Some _ \<Rightarrow> ''imageregistry-'' @ Name cr @ ''-cm-tls''))"

definition authCACertNameForCR :: "ImageRegistry \<Rightarrow> string" where
  "authCACertNameForCR cr = ''imageregistry-'' @ Name cr @ ''-auth-ca''"

definition authCASecretNameForCR :: "ImageRegistry \<Rightarrow> string" where
  "authCASecretNameForCR cr =
     (case cs_SecretName (AuthCA cr) of
        Some name \<Rightarrow> name
      | None \<Rightarrow>
          (case cs_IssuerRef (AuthCA cr) of
             None \<Rightarrow> ''imageregistry-'' @ Name cr @ ''-selfsigned-auth-ca''
           | Some _ \<Rightarrow> ''imageregistry-'' @ Name cr @ ''-cm-auth-ca''))"

definition serviceAccountNameForCR :: "ImageRegistry \<Rightarrow> string" where
  "serviceAccountNameForCR cr = ''imageregistry-'' @ Name cr"

subsection \<open>Host names identify registries\<close>

text \<open>
  Two registries of one operator have the same host name only when they are the same
  object: Kubernetes names a \<open>Service\<close> and a namespace by DNS labels, without dots.
\<close>

lemma RegistryHostname_inj:
  assumes "CHR ''.'' \<notin> set (Name r)" "CHR ''.'' \<notin> set (Name r')"
    and "CHR ''.'' \<notin> set (Namespace r)" "CHR ''.'' \<notin> set (Namespace r')"
  shows "RegistryHostname r zone = RegistryHostname r' zone \<longleftrightarrow> object_key r = object_key r'"
  using assms by (auto simp: RegistryHostname_def serviceNameForCR_def join_inj object_key_def)

text \<open>The two secrets the operator maintains for a registry have different names.\<close>

lemma generated_secret_names_differ:
  assumes "cs_SecretName (reg_TLS cr) = None" "cs_SecretName (AuthCA cr) = None"
  shows "tlsSecretNameForCR cr \<noteq> authCASecretNameForCR cr"
  using assms
  by (auto simp: tlsSecretNameForCR_def authCASecretNameForCR_def split: option.split)

end
