(* ===== verification/KeyToRequest.thy ===== *)
theory KeyToRequest
  imports Kube
begin

text \<open>
  \<open>pkg/backrefs/keytorequest.go\<close>: an object refers to another one by a label or an
  annotation of the form \<open>name.namespace\<close>. \<open>ToMapValue\<close> writes such a value; the event
  mapper \<open>Map\<close> turns a watched object into the reconcile request for the object it
  refers to.
\<close>

subsection \<open>The code\<close>

definition separator :: char where
  "separator = CHR ''.''"

definition ToMapValue :: "NamespacedName \<Rightarrow> string" where
  "ToMapValue nn = nn_name nn @ separator # nn_namespace nn"

record keyToRequest =
  keyFn :: "kobject \<Rightarrow> strmap"
  key :: string

definition AnnotationToRequest :: "string \<Rightarrow> keyToRequest" where
  "AnnotationToRequest annotation = \<lparr>keyFn = Annotations, key = annotation\<rparr>"

definition LabelToRequest :: "string \<Rightarrow> keyToRequest" where
  "LabelToRequest label = \<lparr>keyFn = Labels, key = label\<rparr>"

definition Map :: "keyToRequest \<Rightarrow> kobject \<Rightarrow> NamespacedName list" where
  "Map m obj =
     (case keyFn m obj of
        None \<Rightarrow> []
      | Some a \<Rightarrow>
          let fullName = map_get (Some a) (key m) in
          if fullName = [] then []
          else case SplitN2 separator fullName of
              [s0, s1] \<Rightarrow> if s0 = [] \<or> s1 = [] then [] else [NN s1 s0]
            | _ \<Rightarrow> [])"

subsection \<open>What a value decodes to\<close>

text \<open>The names a value can carry there and back: without a dot in the object's name.\<close>

definition mappable :: "NamespacedName \<Rightarrow> bool" where
  "mappable nn \<longleftrightarrow> separator \<notin> set (nn_name nn) \<and> nn_name nn \<noteq> [] \<and> nn_namespace nn \<noteq> []"

lemma ToMapValue_nonempty [simp]: "ToMapValue nn \<noteq> []"
  by (simp add: ToMapValue_def)

lemma Map_cases:
  "Map m obj = [] \<or> (\<exists>nn. Map m obj = [nn] \<and> mappable nn \<and>
     map_get (keyFn m obj) (key m) = ToMapValue nn)"
proof (cases "keyFn m obj")
  case None
  then show ?thesis by (simp add: Map_def)
next
  case (Some a)
  define v where "v = map_get (Some a) (key m)"
  show ?thesis
  proof (cases rule: SplitN2_cases [of separator v])
    case whole
    with Some show ?thesis by (simp add: Map_def v_def [symmetric] Let_def)
  next
    case (parts x y)
    then have "Map m obj = (if x = [] \<or> y = [] then [] else [NN y x])"
      using Some by (auto simp: Map_def v_def [symmetric] Let_def)
    moreover have "map_get (keyFn m obj) (key m) = ToMapValue (NN y x)"
      using Some parts by (simp add: v_def ToMapValue_def)
    ultimately show ?thesis using parts by (auto simp: mappable_def)
  qed
qed

lemma Map_ToMapValue:
  assumes "map_get (keyFn m obj) (key m) = ToMapValue nn" "mappable nn"
  shows "Map m obj = [nn]"
proof -
  from assms(1) obtain a where a: "keyFn m obj = Some a"
    by (cases "keyFn m obj") (auto simp: ToMapValue_def)
  with assms have "SplitN2 separator (map_get (Some a) (key m)) = [nn_name nn, nn_namespace nn]"
    by (simp add: ToMapValue_def mappable_def)
  with a assms show ?thesis
    by (simp add: Map_def Let_def mappable_def)
qed

text \<open>
  C40. The event mapper requests exactly the object that a label or annotation value names:
  for every watched object it returns \<open>[nn]\<close> if and only if the value is what
  \<open>ToMapValue\<close> writes for \<open>nn\<close>, the name and the namespace are not empty and the name has
  no dot; in every other case it returns no request, and it never returns more than one.
\<close>

theorem mapper_exact:
  "(Map m obj = [nn] \<longleftrightarrow> map_get (keyFn m obj) (key m) = ToMapValue nn \<and> mappable nn) \<and>
   length (Map m obj) \<le> 1"
proof
  show "Map m obj = [nn] \<longleftrightarrow> map_get (keyFn m obj) (key m) = ToMapValue nn \<and> mappable nn"
    using Map_cases [of m obj] Map_ToMapValue by fastforce
  show "length (Map m obj) \<le> 1"
    using Map_cases [of m obj] by auto
qed

text \<open>
  A custom resource whose name has a dot is not found again: the request that the
  mapper makes of its back reference is for another name in another namespace, the name cut at its
  first dot and the rest of it prepended to the namespace.
\<close>

theorem mapper_dotted_name:
  assumes "map_get (keyFn m obj) (key m) = ToMapValue (NN ns (a @ ''.'' @ b))"
    and "CHR ''.'' \<notin> set a" and "a \<noteq> []"
  shows "Map m obj = [NN (b @ ''.'' @ ns) a] \<and> Map m obj \<noteq> [NN ns (a @ ''.'' @ b)]"
proof -
  have "ToMapValue (NN ns (a @ ''.'' @ b)) = ToMapValue (NN (b @ ''.'' @ ns) a)"
    by (simp add: ToMapValue_def separator_def)
  moreover have "mappable (NN (b @ ''.'' @ ns) a)"
    using assms by (simp add: mappable_def separator_def)
  ultimately have "Map m obj = [NN (b @ ''.'' @ ns) a]"
    using assms(1) by (simp add: Map_ToMapValue)
  moreover have "length a \<noteq> length (a @ ''.'' @ b)" by simp
  ultimately show ?thesis by (auto simp del: length_append)
qed

theorem mapper_dotted_name_witness:
  "Map (LabelToRequest ''l'') (new_kobject\<lparr>Labels := Some [''l'' \<mapsto> ''a.b.ns'']\<rparr>)
     = [NN ''b.ns'' ''a'']"
  using mapper_dotted_name [of "LabelToRequest ''l''"
      "new_kobject\<lparr>Labels := Some [''l'' \<mapsto> ''a.b.ns'']\<rparr>" "''ns''" "''a''" "''b''"]
  by (simp add: LabelToRequest_def ToMapValue_def separator_def)

end
