(* ===== verification/Merge.thy ===== *)
theory Merge
  imports Kube
begin

text \<open>
  \<open>pkg/merge\<close>: the helpers the controllers use to bring one element of an object into the
  desired shape (a finalizer, a service port, a container, a volume).
\<close>

subsection \<open>The data\<close>

record ServicePort =
  sp_Name :: string
  sp_Port :: int
  sp_TargetPort :: int
  sp_Protocol :: string

record Service = kobject +
  svc_Selector :: strmap
  svc_Type :: string
  svc_Ports :: "ServicePort list"

definition new_Service :: "string \<Rightarrow> string \<Rightarrow> Service" where
  "new_Service ns n =
     kobject.extend (new_kobject\<lparr>Namespace := ns, Name := n\<rparr>) (Service.fields None [] [])"

record VolumeMount =
  vm_Name :: string
  vm_MountPath :: string

record ContainerPort =
  cp_Name :: string
  cp_ContainerPort :: int
  cp_Protocol :: string

datatype Probe = HTTPProbe string int int int | TCPProbe int int int

record Container =
  c_Name :: string
  c_Image :: string
  c_ImagePullPolicy :: string
  c_Args :: "string list"
  c_Ports :: "ContainerPort list"
  c_Env :: "(string \<times> string) list"
  c_VolumeMounts :: "VolumeMount list"
  c_ReadinessProbe :: "Probe option"
  c_LivenessProbe :: "Probe option"
  c_Limits :: "(string \<times> string) list"
  c_Requests :: "(string \<times> string) list"

datatype VolumeSource =
    VolSecret string
  | VolConfigMap string
  | VolPVC string bool

record Volume =
  v_Name :: string
  v_Source :: VolumeSource

record PodSpec =
  Containers :: "Container list"
  Volumes :: "Volume list"
  ServiceAccountName :: string
  RestartPolicy :: string

definition new_podspec :: PodSpec where
  "new_podspec = \<lparr>Containers = [], Volumes = [], ServiceAccountName = [], RestartPolicy = []\<rparr>"

text \<open>A pod, with the type and status of its conditions.\<close>

record Pod = kobject +
  pod_Spec :: PodSpec
  pod_Conditions :: "(string \<times> ConditionStatus) list"

definition new_Pod :: "string \<Rightarrow> string \<Rightarrow> Pod" where
  "new_Pod ns n =
     kobject.extend (new_kobject\<lparr>Namespace := ns, Name := n\<rparr>) (Pod.fields new_podspec [])"

subsection \<open>The operations\<close>

text \<open>\<open>HasFinalizer\<close>: the loop returns at the first equal finalizer.\<close>

fun has_finalizer :: "string list \<Rightarrow> string \<Rightarrow> bool" where
  "has_finalizer [] f = False"
| "has_finalizer (g # gs) f = (if g = f then True else has_finalizer gs f)"

definition HasFinalizer :: "'a kobject_scheme \<Rightarrow> string \<Rightarrow> bool" where
  "HasFinalizer obj f = has_finalizer (Finalizers obj) f"

text \<open>\<open>AddServicePort\<close> keeps the ports when one of them is the wanted port, and otherwise
  replaces all of them by it.\<close>

definition AddServicePort :: "string \<Rightarrow> int \<Rightarrow> int \<Rightarrow> string \<Rightarrow> Service \<Rightarrow> Service" where
  "AddServicePort name port targetPort prot svc =
     (if list_ex (\<lambda>p. sp_Name p = name \<and> sp_Port p = port \<and> sp_TargetPort p = targetPort \<and>
           sp_Protocol p = prot) (svc_Ports svc)
      then svc
      else svc\<lparr>svc_Ports := [\<lparr>sp_Name = name, sp_Port = port, sp_TargetPort = targetPort,
           sp_Protocol = prot\<rparr>]\<rparr>)"

definition AddContainer :: "Container \<Rightarrow> PodSpec \<Rightarrow> PodSpec" where
  "AddContainer c pod =
     pod\<lparr>Containers := replace_first (\<lambda>e. c_Name e = c_Name c) c (Containers pod)\<rparr>"

definition AddVolume :: "Volume \<Rightarrow> PodSpec \<Rightarrow> PodSpec" where
  "AddVolume v pod =
     pod\<lparr>Volumes := replace_first (\<lambda>e. v_Name e = v_Name v) v (Volumes pod)\<rparr>"

definition DelVolume :: "string \<Rightarrow> PodSpec \<Rightarrow> PodSpec" where
  "DelVolume n pod = pod\<lparr>Volumes := remove_first (\<lambda>e. v_Name e = n) (Volumes pod)\<rparr>"

subsection \<open>Finalizers and ports\<close>

lemma has_finalizer_iff [simp]: "has_finalizer fs f \<longleftrightarrow> f \<in> set fs"
  by (induction fs) auto

lemma HasFinalizer_iff [simp]: "HasFinalizer obj f \<longleftrightarrow> f \<in> set (Finalizers obj)"
  by (simp add: HasFinalizer_def)

lemma AddServicePort_present:
  "\<exists>p \<in> set (svc_Ports (AddServicePort n a b pr svc)).
     sp_Name p = n \<and> sp_Port p = a \<and> sp_TargetPort p = b \<and> sp_Protocol p = pr"
  by (auto simp: AddServicePort_def list_ex_iff)

lemma AddServicePort_idem:
  "AddServicePort n a b pr (AddServicePort n a b pr svc) = AddServicePort n a b pr svc"
  by (simp add: AddServicePort_def)

lemma AddServicePort_frame [simp]:
  "svc_Selector (AddServicePort n a b pr svc) = svc_Selector svc"
  "svc_Type (AddServicePort n a b pr svc) = svc_Type svc"
  "kobject.truncate (AddServicePort n a b pr svc) = kobject.truncate svc"
  by (simp_all add: AddServicePort_def kobject.defs)

subsection \<open>Named items\<close>

text \<open>
  Containers and volumes are lists of named items, where a name stands for at most one
  item. The contract of adding: the names stay distinct, the item is there under its
  name, the items of other names are as before, and adding again changes nothing.
\<close>

locale named_items =
  fixes item_name :: "'i \<Rightarrow> string"
    and items :: "'p \<Rightarrow> 'i list"
    and add :: "'i \<Rightarrow> 'p \<Rightarrow> 'p"
  assumes items_add:
    "items (add i p) = replace_first (\<lambda>e. item_name e = item_name i) i (items p)"
begin

definition find_item :: "'p \<Rightarrow> string \<Rightarrow> 'i option" where
  "find_item p n = find (\<lambda>e. item_name e = n) (items p)"

definition names_ok :: "'p \<Rightarrow> bool" where
  "names_ok p \<longleftrightarrow> distinct (map item_name (items p))"

lemma replace_names:
  "item_name i = n \<Longrightarrow> map item_name (replace_first (\<lambda>e. item_name e = n) i xs) =
   (if n \<in> set (map item_name xs) then map item_name xs else map item_name xs @ [n])"
proof (induction xs)
  case Nil
  then show ?case by simp
next
  case (Cons a xs)
  then show ?case by (cases "item_name a = n") simp_all
qed

lemma add_names_ok: "names_ok p \<Longrightarrow> names_ok (add i p)"
  by (simp add: names_ok_def items_add replace_names del: set_map)

lemma find_add: "find_item (add i p) n = (if n = item_name i then Some i else find_item p n)"
proof -
  have "find (\<lambda>e. item_name e = n) (replace_first (\<lambda>e. item_name e = item_name i) i xs) =
      (if n = item_name i then Some i else find (\<lambda>e. item_name e = n) xs)" for xs
    by (induction xs) auto
  then show ?thesis by (simp add: find_item_def items_add)
qed

lemma add_idem: "items (add i (add i p)) = items (add i p)"
proof -
  have "replace_first (\<lambda>e. item_name e = item_name i) i
      (replace_first (\<lambda>e. item_name e = item_name i) i xs) =
      replace_first (\<lambda>e. item_name e = item_name i) i xs" for xs
    by (induction xs) auto
  then show ?thesis by (simp add: items_add)
qed

end

interpretation containers: named_items c_Name Containers AddContainer
  by unfold_locales (simp add: AddContainer_def)

interpretation volumes: named_items v_Name Volumes AddVolume
  by unfold_locales (simp add: AddVolume_def)

lemma DelVolume_removed:
  "volumes.names_ok pod \<Longrightarrow> volumes.find_item (DelVolume n pod) n = None"
proof -
  have "distinct (map v_Name vs) \<Longrightarrow>
      n \<notin> set (map v_Name (remove_first (\<lambda>e. v_Name e = n) vs))" for vs
  proof (induction vs)
    case (Cons v vs)
    then show ?case by (cases "v_Name v = n") simp_all
  qed simp
  then have "distinct (map v_Name vs) \<Longrightarrow>
      find (\<lambda>e. v_Name e = n) (remove_first (\<lambda>e. v_Name e = n) vs) = None" for vs
    unfolding find_None_iff by (metis image_eqI set_map)
  then show "volumes.names_ok pod \<Longrightarrow> volumes.find_item (DelVolume n pod) n = None"
    by (simp add: volumes.names_ok_def volumes.find_item_def DelVolume_def)
qed

text \<open>
  A volume that was added can be taken out again: the pod has the volumes it had before,
  when it had none of that name.
\<close>

lemma DelVolume_AddVolume:
  "volumes.find_item pod (v_Name v) = None \<Longrightarrow> DelVolume (v_Name v) (AddVolume v pod) = pod"
proof -
  have "find (\<lambda>e. v_Name e = v_Name v) vs = None \<Longrightarrow>
      remove_first (\<lambda>e. v_Name e = v_Name v)
        (replace_first (\<lambda>e. v_Name e = v_Name v) v vs) = vs" for vs
    by (induction vs) auto
  then show "volumes.find_item pod (v_Name v) = None \<Longrightarrow>
      DelVolume (v_Name v) (AddVolume v pod) = pod"
    by (simp add: volumes.find_item_def DelVolume_def AddVolume_def)
qed

end
