(* ===== verification/Store.thy ===== *)
theory Store
  imports Kube
begin

text \<open>
  The API server seen through a client that succeeds: what reading and writing one kind of
  object means for the objects that are stored (locale \<open>object_store\<close>, the documented
  behaviour of \<open>client.Client\<close> without concurrent writers and faults), and a server that
  keeps its objects in a map, on which the controllers can be run (\<open>mem_client\<close>).
\<close>

subsection \<open>The contract\<close>

locale object_store =
  fixes c :: "('a kobject_scheme, 's) client"
    and stored :: "'s \<Rightarrow> NamespacedName \<rightharpoonup> 'a kobject_scheme"
    and consistent :: "'s \<Rightarrow> bool"
  assumes stored_key: "consistent s \<Longrightarrow> stored s k = Some x \<Longrightarrow> object_key x = k"
    and get_found: "stored s k = Some x \<Longrightarrow> run_state (Get c k) s = (Inr x, s)"
    and get_missing: "stored s k = None \<Longrightarrow>
      \<exists>e. IsNotFound e \<and> run_state (Get c k) s = (Inl e, s)"
    and update_found: "consistent s \<Longrightarrow> stored s (object_key x) = Some y \<Longrightarrow>
      \<exists>s'. run_state (Update c x) s = ((None, x), s') \<and>
        stored s' = (stored s)(object_key x \<mapsto> x) \<and> consistent s'"
begin

lemma wp_Get:
  assumes "\<And>x. stored s k = Some x \<Longrightarrow> Q (Inr x) s"
    and "\<And>e. stored s k = None \<Longrightarrow> IsNotFound e \<Longrightarrow> Q (Inl e) s"
  shows "wp (Get c k) Q s"
proof (cases "stored s k")
  case None
  with get_missing obtain e where "IsNotFound e" "run_state (Get c k) s = (Inl e, s)" by blast
  with None assms(2) show ?thesis by (simp add: wp_def)
next
  case (Some x)
  with get_found assms(1) show ?thesis by (simp add: wp_def)
qed

lemma wp_Update:
  assumes "consistent s" "stored s (object_key x) = Some y"
    and "\<And>s'. stored s' = (stored s)(object_key x \<mapsto> x) \<Longrightarrow> consistent s' \<Longrightarrow> Q (None, x) s'"
  shows "wp (Update c x) Q s"
  using update_found [OF assms(1,2)] assms(3) by (auto simp: wp_def)

text \<open>What was written is what the next read returns.\<close>

lemma read_after_write:
  assumes "consistent s" "stored s (object_key x) = Some y"
  shows "wp (Update c x) (\<lambda>_. wp (Get c (object_key x)) (\<lambda>r _. r = Inr x)) s"
  by (rule wp_Update [OF assms]) (rule wp_Get, auto)

end

subsection \<open>A server with the objects in a map\<close>

text \<open>
  \<open>find_all\<close> and \<open>put_all\<close> read and write the map of one kind in the server's state,
  \<open>complete\<close> fills in what the server sets on creation (UID, creation time).
\<close>

definition mem_client ::
  "('s \<Rightarrow> NamespacedName \<rightharpoonup> 'a kobject_scheme) \<Rightarrow> ((NamespacedName \<rightharpoonup> 'a kobject_scheme) \<Rightarrow> 's \<Rightarrow> 's)
     \<Rightarrow> ('s \<Rightarrow> 'a kobject_scheme \<Rightarrow> 'a kobject_scheme) \<Rightarrow> ('a kobject_scheme, 's) client" where
  "mem_client find_all put_all complete = \<lparr>
     Get = (\<lambda>k. State (\<lambda>s.
       (case find_all s k of None \<Rightarrow> Inl (ErrNotFound ''not found'') | Some x \<Rightarrow> Inr x, s))),
     Create = (\<lambda>x. State (\<lambda>s.
       case find_all s (object_key x) of
         Some _ \<Rightarrow> ((Some (ErrOther ''already exists''), x), s)
       | None \<Rightarrow> let y = complete s x in
           ((None, y), put_all ((find_all s)(object_key x \<mapsto> y)) s))),
     Update = (\<lambda>x. State (\<lambda>s.
       case find_all s (object_key x) of
         None \<Rightarrow> ((Some (ErrNotFound ''not found''), x), s)
       | Some _ \<Rightarrow> ((None, x), put_all ((find_all s)(object_key x \<mapsto> x)) s))),
     StatusUpdate = (\<lambda>x. State (\<lambda>s.
       case find_all s (object_key x) of
         None \<Rightarrow> ((Some (ErrNotFound ''not found''), x), s)
       | Some _ \<Rightarrow> ((None, x), put_all ((find_all s)(object_key x \<mapsto> x)) s))),
     Delete = (\<lambda>x. State (\<lambda>s.
       case find_all s (object_key x) of
         None \<Rightarrow> (Some (ErrNotFound ''not found''), s)
       | Some _ \<Rightarrow> (None, put_all ((find_all s)(object_key x := None)) s))),
     DeleteAllOf = (\<lambda>ls ns. State (\<lambda>s.
       (None, put_all (\<lambda>k. case find_all s k of
          None \<Rightarrow> None
        | Some x \<Rightarrow> if nn_namespace k = ns \<and> selects ls (Labels x)
            then None else Some x) s)))\<rparr>"

text \<open>Keys and objects agree in the map.\<close>

definition keyed :: "(NamespacedName \<rightharpoonup> 'a kobject_scheme) \<Rightarrow> bool" where
  "keyed m \<longleftrightarrow> (\<forall>k x. m k = Some x \<longrightarrow> object_key x = k)"

lemma keyed_empty [simp]: "keyed Map.empty"
  by (simp add: keyed_def)

lemma keyed_upd [simp]: "keyed m \<Longrightarrow> keyed (m(object_key x \<mapsto> x))"
  by (simp add: keyed_def)

lemma mem_client_store:
  assumes "\<And>m s. find_all (put_all m s) = m"
  shows "object_store (mem_client find_all put_all complete) find_all (\<lambda>s. keyed (find_all s))"
  by unfold_locales (auto simp: mem_client_def assms keyed_def)

lemma mem_client_store_with:
  assumes "\<And>m s. find_all (put_all m s) = m" and "\<And>m s. P (put_all m s) = P s"
  shows "object_store (mem_client find_all put_all complete) find_all (\<lambda>s. keyed (find_all s) \<and> P s)"
  by unfold_locales (auto simp: mem_client_def assms keyed_def)

text \<open>The server whose whole state is one map: the plainest instance of the contract.\<close>

interpretation mem: object_store "mem_client (\<lambda>m. m) (\<lambda>m _. m) (\<lambda>_ x. x)" "\<lambda>m. m" keyed
  using mem_client_store [of "\<lambda>m. m" "\<lambda>m _. m" "\<lambda>_ x. x"] by simp

subsection \<open>Create or update\<close>

text \<open>
  What \<open>CreateOrUpdate\<close> is documented to do on a server that answers: fetch the object,
  leave it when the callback changed nothing, update it when it exists and create it
  otherwise. The server gives a new object its UID and creation time.
\<close>

definition completed :: "'a kobject_scheme \<Rightarrow> 'a kobject_scheme \<Rightarrow> bool" where
  "completed x y \<longleftrightarrow> (\<exists>uid t. y = x\<lparr>UID := uid, CreationTimestamp := t\<rparr>)"

locale upsert_store =
  fixes u :: "('a kobject_scheme, 's) upserter"
    and stored :: "'s \<Rightarrow> NamespacedName \<rightharpoonup> 'a kobject_scheme"
  assumes fetch_found: "stored s (object_key obj) = Some x \<Longrightarrow>
      run_state (up_fetch u obj) s = ((None, x), s)"
    and fetch_missing: "stored s (object_key obj) = None \<Longrightarrow>
      run_state (up_fetch u obj) s = ((None, obj), s)"
    and write_same: "stored s (object_key x) = Some x \<Longrightarrow>
      run_state (up_write u x x) s = ((OperationResultNone, None, x), s)"
    and write_changed: "stored s (object_key y) = Some x \<Longrightarrow> x \<noteq> y \<Longrightarrow>
      \<exists>s'. run_state (up_write u x y) s = ((OperationResultUpdated, None, y), s') \<and>
        stored s' = (stored s)(object_key y \<mapsto> y)"
    and write_new: "stored s (object_key y) = None \<Longrightarrow>
      \<exists>s' z. run_state (up_write u x y) s = ((OperationResultCreated, None, z), s') \<and>
        completed y z \<and> stored s' = (stored s)(object_key y \<mapsto> z)"
begin

text \<open>After a write without an error the server has the object.\<close>

lemma wp_write:
  assumes "stored s (object_key y) = None \<or> stored s (object_key y) = Some x"
    and "\<And>r s' z. z = y \<or> completed y z \<Longrightarrow> stored s' = (stored s)(object_key y \<mapsto> z) \<Longrightarrow>
      Q (r, None, z) s'"
  shows "wp (up_write u x y) Q s"
proof (cases "stored s (object_key y)")
  case None
  with write_new [of s y x] assms(2) show ?thesis by (auto simp: wp_def)
next
  case (Some w)
  with assms(1) have [simp]: "w = x" by simp
  show ?thesis
  proof (cases "x = y")
    case True
    with Some have st: "stored s = (stored s)(object_key y \<mapsto> y)" by (auto simp: fun_eq_iff)
    from True Some write_same [of s y] have "run_state (up_write u x y) s = ((OperationResultNone, None, y), s)"
      by simp
    with assms(2) [OF disjI1 [OF refl] st] show ?thesis by (simp add: wp_run)
  next
    case False
    with Some write_changed [of s y x] assms(2) show ?thesis by (auto simp: wp_def)
  qed
qed

text \<open>The whole call: the callback sees the stored object or the new one, and what it returns
  is stored.\<close>

lemma wp_upsert:
  assumes keyed: "\<And>y. stored s (object_key obj) = Some y \<Longrightarrow> object_key y = object_key obj"
    and callback: "\<And>old. object_key old = object_key obj \<Longrightarrow>
      stored s (object_key obj) = None \<and> old = obj \<or> stored s (object_key obj) = Some old \<Longrightarrow>
      wp (mutate old x) (\<lambda>res s'. stored s' = stored s \<and> (case res of
          Panicked p \<Rightarrow> Q (Panicked p) s'
        | Returned (Some e, r) \<Rightarrow> Q (Returned (OperationResultNone, Some e, r)) s'
        | Returned (None, y, x') \<Rightarrow> object_key y = object_key obj \<and>
            (\<forall>w s'' z. z = y \<or> completed y z \<longrightarrow> stored s'' = (stored s)(object_key obj \<mapsto> z) \<longrightarrow>
              Q (Returned (w, None, z, x')) s''))) s"
  shows "wp (CreateOrUpdate u obj mutate x) Q s"
proof -
  obtain old where f: "run_state (up_fetch u obj) s = ((None, old), s)" and k: "object_key old = object_key obj"
    and old: "stored s (object_key obj) = None \<and> old = obj \<or> stored s (object_key obj) = Some old"
    using fetch_missing [of s obj] fetch_found [of s obj] keyed
    by (cases "stored s (object_key obj)") auto
  have wr: "wp (up_write u old y) (\<lambda>w s''. Q (Returned (fst w, fst (snd w), snd (snd w), x')) s'') s'"
    if "stored s' = stored s" "object_key y = object_key obj"
      "\<forall>w s'' z. z = y \<or> completed y z \<longrightarrow> stored s'' = (stored s)(object_key obj \<mapsto> z) \<longrightarrow>
         Q (Returned (w, None, z, x')) s''" for y x' s'
    by (rule wp_write) (use that old in auto)
  show ?thesis
    by (intro wp_CreateOrUpdate, simp add: wp_run [OF f], rule wp_mono [OF callback [OF k old]])
      (auto split: outcome.splits option.splits intro: wr)
qed

end

text \<open>The in-memory server with this library.\<close>

definition mem_upserter :: "('a kobject_scheme, 's) client \<Rightarrow> ('a kobject_scheme, 's) upserter" where
  "mem_upserter c = \<lparr>
     up_fetch = (\<lambda>x. do {
       r \<leftarrow> Get c (object_key x);
       case r of
         Inl e \<Rightarrow> if IsNotFound e then ret (None, x) else ret (Some e, x)
       | Inr y \<Rightarrow> ret (None, y) }),
     up_write = (\<lambda>x y. do {
       r \<leftarrow> Get c (object_key y);
       case r of
         Inl _ \<Rightarrow> do { w \<leftarrow> Create c y; ret (OperationResultCreated, w) }
       | Inr old \<Rightarrow>
           if old = y then ret (OperationResultNone, None, y)
           else do { w \<leftarrow> Update c y; ret (OperationResultUpdated, w) } })\<rparr>"

lemma mem_upserter_store:
  fixes find_all :: "'s \<Rightarrow> NamespacedName \<rightharpoonup> 'a kobject_scheme"
  assumes "\<And>m s. find_all (put_all m s) = m" and "\<And>s x. completed x (complete s x)"
  shows "upsert_store (mem_upserter (mem_client find_all put_all complete)) find_all"
proof
  fix s :: 's and x y :: "'a kobject_scheme"
  assume "find_all s (object_key y) = None"
  then show "\<exists>s' z. run_state (up_write (mem_upserter (mem_client find_all put_all complete)) x y) s =
      ((OperationResultCreated, None, z), s') \<and> completed y z \<and> find_all s' = (find_all s)(object_key y \<mapsto> z)"
    using assms by (auto simp: mem_upserter_def mem_client_def Let_def)
qed (auto simp: mem_upserter_def mem_client_def assms)

end
