(* ===== verification/PasswordGen.thy ===== *)
theory PasswordGen
  imports GoLib "HOL-Library.Word" "HOL-Library.Multiset"
begin

text \<open>
  \<open>pkg/passwordgen/passwordgen.go\<close>. The randomness is a parameter: \<open>Intn n\<close> of a source is
  documented to return a number in \<open>[0, n)\<close>. The generator draws from two sources, a
  \<open>rand.Rand\<close> over \<open>cryptoSource\<close> and the global one of \<open>math/rand\<close>. The crypto source
  panics when the system has no randomness, so its \<open>Intn\<close> is an \<open>outcome\<close>. bcrypt is a
  parameter as well.
\<close>

unbundle bit_operations_syntax

subsection \<open>The code\<close>

definition digitChars :: string where "digitChars = ''0123456789''"
definition specialChars :: string where "specialChars = ''=.+-_/[]{}@?''"
definition allChars :: string where
  "allChars = ''ABCDEFGHIJKLMNOPQRSTUVWXYZ'' @ ''abcdefghijklmnopqrstuvwxyz'' @
     digitChars @ specialChars"

record 's random =
  crypto_Intn :: "nat \<Rightarrow> ('s, nat outcome) state"
  global_Intn :: "nat \<Rightarrow> ('s, nat) state"

text \<open>\<open>cryptoSource\<close>: \<open>Uint64\<close> reads eight random bytes in big-endian order, \<open>Int63\<close>
  clears the top bit.\<close>

definition read_be64 :: "8 word list \<Rightarrow> 64 word" where
  "read_be64 bs = foldl (\<lambda>v b. push_bit 8 v OR ucast b) 0 bs"

definition Uint64 :: "('s, go_error + 8 word list) state \<Rightarrow> ('s, 64 word outcome) state" where
  "Uint64 read8 = do {
     r \<leftarrow> read8;
     case r of
       Inl err \<Rightarrow> ret (Panicked (Error err))
     | Inr bs \<Rightarrow> ret (Returned (read_be64 bs))
   }"

definition Int63 :: "('s, go_error + 8 word list) state \<Rightarrow> ('s, 64 word outcome) state" where
  "Int63 read8 = do {
     v \<leftarrow> Uint64 read8;
     case v of
       Panicked p \<Rightarrow> ret (Panicked p)
     | Returned w \<Rightarrow> ret (Returned (w AND NOT (push_bit 63 1)))
   }"

text \<open>The loop that fills positions 2 to 15 from the global source.\<close>

fun fill_chars :: "'s random \<Rightarrow> nat \<Rightarrow> ('s, string) state" where
  "fill_chars rnd 0 = ret []"
| "fill_chars rnd (Suc n) = do {
     i \<leftarrow> global_Intn rnd (length allChars);
     cs \<leftarrow> fill_chars rnd n;
     ret (allChars ! i # cs)
   }"

text \<open>\<open>rand.Shuffle\<close>: for \<open>i\<close> from the last index down to 1, swap with an index in \<open>[0, i]\<close>.\<close>

definition swap :: "'a list \<Rightarrow> nat \<Rightarrow> nat \<Rightarrow> 'a list" where
  "swap xs i j = xs[i := xs ! j, j := xs ! i]"

fun shuffle_from :: "'s random \<Rightarrow> nat \<Rightarrow> 'a list \<Rightarrow> ('s, 'a list outcome) state" where
  "shuffle_from rnd 0 xs = ret (Returned xs)"
| "shuffle_from rnd (Suc i) xs = do {
     j \<leftarrow> crypto_Intn rnd (Suc (Suc i));
     case j of
       Panicked p \<Rightarrow> ret (Panicked p)
     | Returned j' \<Rightarrow> shuffle_from rnd i (swap xs (Suc i) j')
   }"

definition Shuffle :: "'s random \<Rightarrow> 'a list \<Rightarrow> ('s, 'a list outcome) state" where
  "Shuffle rnd xs = shuffle_from rnd (length xs - 1) xs"

definition GeneratePassword :: "'s random \<Rightarrow> ('s, string outcome) state" where
  "GeneratePassword rnd = do {
     d \<leftarrow> crypto_Intn rnd (length digitChars);
     case d of
       Panicked p \<Rightarrow> ret (Panicked p)
     | Returned i \<Rightarrow> do {
         c \<leftarrow> crypto_Intn rnd (length specialChars);
         case c of
           Panicked p \<Rightarrow> ret (Panicked p)
         | Returned j \<Rightarrow> do {
             more \<leftarrow> fill_chars rnd 14;
             Shuffle rnd (digitChars ! i # specialChars ! j # more)
           }
       }
   }"

subsection \<open>The sources\<close>

text \<open>The documented range of \<open>Intn\<close>.\<close>

definition random_contract :: "('s, 'z) random_scheme \<Rightarrow> bool" where
  "random_contract rnd \<longleftrightarrow> (\<forall>n s. 0 < n \<longrightarrow>
     wp (crypto_Intn rnd n) (\<lambda>r s'. case r of Returned i \<Rightarrow> i < n | Panicked _ \<Rightarrow> True) s \<and>
     wp (global_Intn rnd n) (\<lambda>i s'. i < n) s)"

text \<open>The system has randomness: the crypto source never panics.\<close>

definition random_available :: "('s, 'z) random_scheme \<Rightarrow> bool" where
  "random_available rnd \<longleftrightarrow> (\<forall>n s. wp (crypto_Intn rnd n) (\<lambda>r s'. \<exists>i. r = Returned i) s)"

lemma wp_crypto_Intn:
  assumes "random_contract rnd" "0 < n"
    and "\<And>i s'. i < n \<Longrightarrow> Q (Returned i) s'" "\<And>p s'. \<not> random_available rnd \<Longrightarrow> Q (Panicked p) s'"
  shows "wp (crypto_Intn rnd n) Q s"
proof -
  have "wp (crypto_Intn rnd n) (\<lambda>r s'. case r of Returned i \<Rightarrow> i < n | Panicked _ \<Rightarrow> \<not> random_available rnd) s"
  proof (cases "random_available rnd")
    case True
    then have "wp (crypto_Intn rnd n) (\<lambda>r s'. \<exists>i. r = Returned i) s"
      by (simp add: random_available_def)
    moreover have "wp (crypto_Intn rnd n) (\<lambda>r s'. case r of Returned i \<Rightarrow> i < n | Panicked _ \<Rightarrow> True) s"
      using assms(1,2) by (simp add: random_contract_def)
    ultimately show ?thesis
      by (rule wp_mono [OF wp_conj]) auto
  next
    case False
    have "wp (crypto_Intn rnd n) (\<lambda>r s'. case r of Returned i \<Rightarrow> i < n | Panicked _ \<Rightarrow> True) s"
      using assms(1,2) by (simp add: random_contract_def)
    then show ?thesis by (rule wp_mono) (simp add: False split: outcome.splits)
  qed
  then show ?thesis
    by (rule wp_mono) (use assms(3,4) in \<open>auto split: outcome.splits\<close>)
qed

lemma wp_global_Intn:
  assumes "random_contract rnd" "0 < n" and "\<And>i s'. i < n \<Longrightarrow> Q i s'"
  shows "wp (global_Intn rnd n) Q s"
proof -
  have "wp (global_Intn rnd n) (\<lambda>i s'. i < n) s"
    using assms(1,2) by (simp add: random_contract_def)
  then show ?thesis by (rule wp_mono) (rule assms(3))
qed

text \<open>
  \<open>cryptoSource\<close> keeps the contract of \<open>rand.Source\<close>: when the system returns eight
  bytes, \<open>Int63\<close> returns their lower 63 bits in big-endian order, which is not negative as
  a signed 64-bit integer; it panics when and only when reading the bytes fails, and it
  reads once.
\<close>

theorem Int63_nonneg:
  "case run_state read8 s of
     (Inl err, s') \<Rightarrow> run_state (Int63 read8) s = (Panicked (Error err), s')
   | (Inr bs, s') \<Rightarrow> \<exists>v. run_state (Int63 read8) s = (Returned v, s') \<and>
       v = take_bit 63 (read_be64 bs) \<and> 0 \<le> sint v"
proof -
  have top: "bit (push_bit 63 (1 :: 64 word)) n \<longleftrightarrow> n = 63" for n
    by (simp only: bit_push_bit_iff bit_1_iff) auto
  have clear: "w AND NOT (push_bit 63 1) = take_bit 63 w" for w :: "64 word"
    by (rule bit_word_eqI) (auto simp: bit_and_iff bit_not_iff bit_take_bit_iff top
        simp del: push_bit_of_1)
  have "\<not> bit (take_bit 63 w :: 64 word) 63" for w
    by (simp add: bit_take_bit_iff)
  then have "0 \<le> sint (take_bit 63 w :: 64 word)" for w
    by (simp add: sint_uint bit_uint_iff signed_take_bit_nonnegative_iff word_size)
  then show ?thesis
    by (auto simp: Int63_def Uint64_def clear [simplified] split: prod.split sum.split)
qed

subsection \<open>Shuffling\<close>

lemma mset_swap: "i < length xs \<Longrightarrow> j < length xs \<Longrightarrow> mset (swap xs i j) = mset xs"
  by (simp add: swap_def mset_swap)

lemma length_swap [simp]: "length (swap xs i j) = length xs"
  by (simp add: swap_def)

lemma shuffle_from_mset:
  "random_contract rnd \<Longrightarrow> i < length xs \<Longrightarrow>
   wp (shuffle_from rnd i xs) (\<lambda>r s'. case r of Returned ys \<Rightarrow> mset ys = mset xs
     | Panicked _ \<Rightarrow> \<not> random_available rnd) s"
proof (induction i arbitrary: xs s)
  case 0
  then show ?case by simp
next
  case (Suc i)
  show ?case
    unfolding shuffle_from.simps wp_bind
  proof (rule wp_crypto_Intn [OF Suc.prems(1)], simp, goal_cases)
    case (1 j s')
    then have "mset (swap xs (Suc i) j) = mset xs"
      using Suc.prems by (intro mset_swap) auto
    have "wp (shuffle_from rnd i (swap xs (Suc i) j)) (\<lambda>r s'. case r of
        Returned ys \<Rightarrow> mset ys = mset (swap xs (Suc i) j)
      | Panicked _ \<Rightarrow> \<not> random_available rnd) s'"
      using Suc.prems by (intro Suc.IH) simp_all
    then have "wp (shuffle_from rnd i (swap xs (Suc i) j)) (\<lambda>r s'. case r of
        Returned ys \<Rightarrow> mset ys = mset xs | Panicked _ \<Rightarrow> \<not> random_available rnd) s'"
      by (rule wp_mono) (simp add: 1 \<open>mset _ = _\<close> split: outcome.splits)
    then show ?case by simp
  qed simp
qed

lemma fill_chars_ok:
  "random_contract rnd \<Longrightarrow> wp (fill_chars rnd n) (\<lambda>cs s'. length cs = n \<and> set cs \<subseteq> set allChars) s"
proof (induction n arbitrary: s)
  case 0
  then show ?case by simp
next
  case (Suc n)
  have pos: "0 < length allChars" by (simp add: allChars_def)
  show ?case
    unfolding fill_chars.simps wp_bind
    by (rule wp_global_Intn [OF Suc.prems pos], rule wp_mono [OF Suc.IH [OF Suc.prems]]) auto
qed

lemma alphabet: "set digitChars \<subseteq> set allChars" "set specialChars \<subseteq> set allChars"
  "CHR '':'' \<notin> set allChars"
  by (simp_all add: allChars_def digitChars_def specialChars_def)

definition password_ok :: "string \<Rightarrow> bool" where
  "password_ok pw \<longleftrightarrow> length pw = 16 \<and> set pw \<subseteq> set allChars \<and>
     set pw \<inter> set digitChars \<noteq> {} \<and> set pw \<inter> set specialChars \<noteq> {}"

lemma GeneratePassword_ok:
  assumes "random_contract rnd"
  shows "wp (GeneratePassword rnd) (\<lambda>r s'. case r of Returned pw \<Rightarrow> password_ok pw
     | Panicked _ \<Rightarrow> \<not> random_available rnd) s"
proof -
  have "password_ok pw" if "mset pw = mset (d # c # cs)" "d \<in> set digitChars"
    "c \<in> set specialChars" "length cs = 14" "set cs \<subseteq> set allChars" for pw d c cs
  proof -
    have "set pw = set (d # c # cs)" using that(1) by (metis set_mset_mset)
    moreover have "length pw = 16" using mset_eq_length [OF that(1)] that(4) by simp
    ultimately show ?thesis using that alphabet by (auto simp: password_ok_def)
  qed
  note ok = this
  have pos: "0 < length digitChars" "0 < length specialChars"
    by (simp_all add: digitChars_def specialChars_def)
  show ?thesis
    unfolding GeneratePassword_def wp_bind
  proof (rule wp_crypto_Intn [OF assms pos(1)], goal_cases)
    case (1 i s')
    show ?case
      unfolding wp_case_outcome outcome.case wp_bind
    proof (rule wp_crypto_Intn [OF assms pos(2)], goal_cases)
      case (1 j s'')
      show ?case
        unfolding wp_case_outcome outcome.case wp_bind
      proof (rule wp_mono [OF fill_chars_ok [OF assms]], goal_cases)
        case (1 cs s3)
        show ?case
          unfolding Shuffle_def
          by (rule wp_mono [OF shuffle_from_mset [OF assms]])
            (use 1 \<open>i < length digitChars\<close> \<open>j < length specialChars\<close> in
              \<open>auto split: outcome.splits intro!: ok [of _ "digitChars ! i" "specialChars ! j" cs]\<close>)
      qed
    qed simp
  qed simp
qed

text \<open>
  C39. A generated password has 16 characters, all of them of the alphabet, at least one
  digit and at least one special character: the shuffle only permutes what was drawn. The
  generator panics only when the system has no randomness.
\<close>

theorem generated_password:
  assumes "random_contract rnd"
  shows "wp (GeneratePassword rnd) (\<lambda>r s'. case r of
       Returned pw \<Rightarrow> length pw = 16 \<and> set pw \<subseteq> set allChars \<and>
         set pw \<inter> set digitChars \<noteq> {} \<and> set pw \<inter> set specialChars \<noteq> {}
     | Panicked _ \<Rightarrow> \<not> random_available rnd) s"
  using GeneratePassword_ok [OF assms, of s] unfolding password_ok_def .

definition last_random :: "'s random" where
  "last_random = \<lparr>crypto_Intn = (\<lambda>n. ret (Returned (n - 1))), global_Intn = (\<lambda>n. ret (n - 1))\<rparr>"

lemma last_random_ok: "random_contract last_random" "random_available last_random"
  by (simp_all add: last_random_def random_contract_def random_available_def)

theorem generated_password_witness:
  "wp (GeneratePassword last_random) (\<lambda>r s'. \<exists>pw. r = Returned pw \<and> length pw = 16 \<and>
     CHR '':'' \<notin> set pw) ()"
  using generated_password [OF last_random_ok(1), of "()"]
  by (rule wp_mono) (use alphabet(3) last_random_ok(2) in \<open>auto split: outcome.splits\<close>)

text \<open>A password has no colon, so it can stand after one in basic credentials.\<close>

lemma password_no_colon: "password_ok pw \<Longrightarrow> CHR '':'' \<notin> set pw"
  using alphabet(3) by (auto simp: password_ok_def)

subsection \<open>Randomness and the rest of the world\<close>

text \<open>Sources that leave a part of the world as it is.\<close>

definition random_frame :: "('s \<Rightarrow> 'm) \<Rightarrow> 's random \<Rightarrow> bool" where
  "random_frame stored rnd \<longleftrightarrow>
     (\<forall>n. reads_only stored (crypto_Intn rnd n) \<and> reads_only stored (global_Intn rnd n))"

lemma fill_chars_frame: "random_frame stored rnd \<Longrightarrow> reads_only stored (fill_chars rnd n)"
  by (induction n) (auto simp: random_frame_def intro!: reads_only_bind)

lemma shuffle_from_frame: "random_frame stored rnd \<Longrightarrow> reads_only stored (shuffle_from rnd n xs)"
  by (induction n arbitrary: xs) (auto simp: random_frame_def intro!: reads_only_bind split: outcome.split)

lemma GeneratePassword_frame: "random_frame stored rnd \<Longrightarrow> reads_only stored (GeneratePassword rnd)"
  unfolding GeneratePassword_def Shuffle_def
  by (intro reads_only_bind)
    (auto simp: random_frame_def split: outcome.split intro!: reads_only_bind fill_chars_frame shuffle_from_frame)

definition recorded_random :: "'s random \<Rightarrow> ('s \<times> 'e list) random" where
  "recorded_random rnd = \<lparr>crypto_Intn = (\<lambda>n. unrecorded (crypto_Intn rnd n)),
     global_Intn = (\<lambda>n. unrecorded (global_Intn rnd n))\<rparr>"

lemma random_contract_recorded: "random_contract rnd \<Longrightarrow> random_contract (recorded_random rnd)"
  by (simp add: random_contract_def recorded_random_def wp_unrecorded split_paired_all)

lemma recorded_random_frame: "random_frame snd (recorded_random rnd)"
  by (simp add: random_frame_def recorded_random_def)

text \<open>Generating a password leaves the record as it is.\<close>

lemma wp_recorded_GeneratePassword [wp_rules]:
  assumes "\<And>r s'. Q r (s', l)"
  shows "wp (GeneratePassword (recorded_random rnd)) Q (s, l)"
  by (rule wp_reads_only [OF GeneratePassword_frame [OF recorded_random_frame]]) (use assms in auto)

end
