(* ===== verification/RegistriesConf.thy ===== *)
theory RegistriesConf
  imports GoLib "HOL-Library.AList" "HOL-Library.List_Lexorder" "HOL-Library.Char_ord"
begin

text \<open>
  \<open>pkg/registriesconf\<close>: the credentials of registries in Docker's \<open>config.json\<close> and in
  Makisu's registry configuration. A map is the list of its entries in the order of a visit
  (\<open>entries_ok\<close>: the keys are distinct). \<open>json.Marshal\<close> is written out for the type
  \<open>DockerConfig\<close> and ASCII text; \<open>json.Unmarshal\<close>, which accepts far more than what
  \<open>Marshal\<close> writes, and \<open>yaml.Marshal\<close> are parameters (record \<open>codecs\<close>).
\<close>

subsection \<open>Docker configuration\<close>

text \<open>\<open>DockerConfig\<close> has the one field \<open>Auths\<close>, a map from registries to the text of
  \<open>DockerConfigUrlAuth.Auth\<close>.\<close>

record DockerConfig =
  Auths :: "(string \<times> string) list option"

definition AddAuth :: "string \<Rightarrow> string \<Rightarrow> string \<Rightarrow> DockerConfig \<Rightarrow> DockerConfig" where
  "AddAuth registry user passwd c =
     (let m = (case Auths c of None \<Rightarrow> [] | Some m \<Rightarrow> m) in
      c\<lparr>Auths := Some (AList.update registry (EncodeToString (user @ '':'' @ passwd)) m)\<rparr>)"

text \<open>\<open>json.Marshal\<close>: map keys in ascending order, quotes, backslashes, control characters
  and the three characters special to HTML escaped.\<close>

definition hex_char :: "nat \<Rightarrow> char" where
  "hex_char n = (if n < 10 then char_of (48 + n) else char_of (87 + n))"

definition json_char :: "char \<Rightarrow> string" where
  "json_char c =
     (let n = of_char c in
      if n = 34 \<or> n = 92 then [CHR 0x5C, c]
      else if n = 10 then [CHR 0x5C, CHR ''n'']
      else if n = 13 then [CHR 0x5C, CHR ''r'']
      else if n = 9 then [CHR 0x5C, CHR ''t'']
      else if n < 32 \<or> n = 60 \<or> n = 62 \<or> n = 38
      then [CHR 0x5C, CHR ''u'', CHR ''0'', CHR ''0'', hex_char (n div 16), hex_char (n mod 16)]
      else [c])"

definition quote :: char where "quote = CHR 0x22"

definition json_string :: "string \<Rightarrow> string" where
  "json_string s = quote # concat (map json_char s) @ [quote]"

definition json_entry :: "string \<times> string \<Rightarrow> string" where
  "json_entry e =
     json_string (fst e) @ '':{'' @ json_string ''auth'' @ '':'' @ json_string (snd e) @ ''}''"

fun json_entries :: "(string \<times> string) list \<Rightarrow> string" where
  "json_entries [] = []"
| "json_entries [e] = json_entry e"
| "json_entries (e # f # es) = json_entry e @ '','' @ json_entries (f # es)"

text \<open>Marshalling strings and maps of strings does not fail, so the panic of \<open>JSON\<close> is
  never reached.\<close>

definition JSON :: "DockerConfig \<Rightarrow> string" where
  "JSON c =
     ''{'' @ json_string ''auths'' @ '':'' @
     (case Auths c of
        None \<Rightarrow> ''null''
      | Some es \<Rightarrow> ''{'' @ json_entries (sort_key fst es) @ ''}'') @ ''}''"

record codecs =
  UnmarshalJSON :: "string \<Rightarrow> DockerConfig result"
  MarshalYAML :: "(string \<rightharpoonup> string \<rightharpoonup> string \<times> string) \<Rightarrow> string result"

definition ParseDockerConfig :: "codecs \<Rightarrow> string \<Rightarrow> DockerConfig result" where
  "ParseDockerConfig cd data = UnmarshalJSON cd data"

subsection \<open>Makisu configuration\<close>

text \<open>A \<open>MakisuRepo\<close> is its basic credentials (user name and password); the TLS section is
  never set.\<close>

type_synonym MakisuBasicAuth = "string \<times> string"
type_synonym MakisuRegistries = "string \<rightharpoonup> string \<rightharpoonup> MakisuBasicAuth"

definition ToMakisuBasicAuth :: "string \<Rightarrow> MakisuBasicAuth result" where
  "ToMakisuBasicAuth auth =
     (case DecodeString auth of
        Inl err \<Rightarrow> Inl err
      | Inr s \<Rightarrow>
          (let l = SplitN2 CHR '':'' s in
           Inr (l ! 0, if length l > 1 then l ! 1 else [])))"

definition AddRegistry ::
  "string \<Rightarrow> string \<Rightarrow> MakisuBasicAuth \<Rightarrow> MakisuRegistries \<Rightarrow> MakisuRegistries" where
  "AddRegistry registry img auth r =
     (let e = (case r registry of None \<Rightarrow> Map.empty | Some e \<Rightarrow> e) in
      r(registry \<mapsto> e(img \<mapsto> auth)))"

text \<open>\<open>YAML\<close> panics when the library cannot marshal.\<close>

definition YAML :: "codecs \<Rightarrow> MakisuRegistries \<Rightarrow> string outcome" where
  "YAML cd r = (case MarshalYAML cd r of Inr y \<Rightarrow> Returned y | Inl err \<Rightarrow> Panicked (Error err))"

subsection \<open>Reading the JSON text back\<close>

text \<open>
  A reader for exactly the texts that \<open>JSON\<close> writes. It shows that the text determines the
  configuration, and it is the instance of \<open>UnmarshalJSON\<close> on which theorems are tried.
\<close>

definition hex_val :: "char \<Rightarrow> nat" where
  "hex_val c = (let n = of_char c in if n < 58 then n - 48 else n - 87)"

fun unquote :: "string \<Rightarrow> (string \<times> string) option" where
  "unquote [] = None"
| "unquote (c # cs) =
     (if c = quote then Some ([], cs)
      else if c = CHR 0x5C then
        (case cs of
           [] \<Rightarrow> None
         | e # rest \<Rightarrow>
             if e = CHR ''u'' then
               (case rest of
                  _ # _ # x # y # rest' \<Rightarrow>
                    map_option (apfst ((#) (char_of (16 * hex_val x + hex_val y)))) (unquote rest')
                | _ \<Rightarrow> None)
             else map_option (apfst ((#)
               (if e = CHR ''n'' then CHR 0x0A else if e = CHR ''r'' then CHR 0x0D
                else if e = CHR ''t'' then CHR 0x09 else e))) (unquote rest))
      else map_option (apfst ((#) c)) (unquote cs))"

definition strip :: "string \<Rightarrow> string \<Rightarrow> string option" where
  "strip p s = (if take (length p) s = p then Some (drop (length p) s) else None)"

definition read_string :: "string \<Rightarrow> (string \<times> string) option" where
  "read_string s = Option.bind (strip [quote] s) unquote"

definition read_entry :: "string \<Rightarrow> ((string \<times> string) \<times> string) option" where
  "read_entry s =
     Option.bind (read_string s) (\<lambda>(k, s1).
     Option.bind (strip ('':{'' @ json_string ''auth'' @ '':'') s1) (\<lambda>s2.
     Option.bind (read_string s2) (\<lambda>(v, s3).
     map_option (\<lambda>s4. ((k, v), s4)) (strip ''}'' s3))))"

fun read_entries :: "nat \<Rightarrow> string \<Rightarrow> (string \<times> string) list option" where
  "read_entries 0 s = None"
| "read_entries (Suc n) s =
     Option.bind (read_entry s) (\<lambda>(e, s1).
       if s1 = ''}}'' then Some [e]
       else Option.bind (strip '','' s1) (\<lambda>s2. map_option ((#) e) (read_entries n s2)))"

definition read_config :: "string \<Rightarrow> DockerConfig result" where
  "read_config s =
     (case strip (''{'' @ json_string ''auths'' @ '':'') s of
        None \<Rightarrow> Inl (ErrOther ''unexpected text'')
      | Some s1 \<Rightarrow>
          if s1 = ''null}'' then Inr \<lparr>Auths = None\<rparr>
          else if s1 = ''{}}'' then Inr \<lparr>Auths = Some []\<rparr>
          else (case Option.bind (strip ''{'' s1) (read_entries (length s1)) of
                  None \<Rightarrow> Inl (ErrOther ''unexpected text'')
                | Some es \<Rightarrow> Inr \<lparr>Auths = Some es\<rparr>))"

lemma strip_append [simp]: "strip p (p @ s) = Some s"
  by (simp add: strip_def)

lemma hex_val_char: "n < 16 \<Longrightarrow> hex_val (hex_char n) = n"
  by (simp add: hex_val_def hex_char_def)

lemma hex_code: "(of_char c :: nat) < 128 \<Longrightarrow>
    char_of (16 * hex_val (hex_char (of_char c div 16)) + hex_val (hex_char (of_char c mod 16))) = c"
  by (simp add: hex_val_char)

lemma of_char_codes: "of_char CHR 0x22 = (34 :: nat)" "of_char CHR 0x5C = (92 :: nat)"
  "of_char CHR 0x0A = (10 :: nat)" "of_char CHR 0x0D = (13 :: nat)" "of_char CHR 0x09 = (9 :: nat)"
  by simp_all

lemma char_of_code:
  "(of_char c :: nat) = 34 \<Longrightarrow> c = CHR 0x22" "(of_char c :: nat) = 92 \<Longrightarrow> c = CHR 0x5C"
  "(of_char c :: nat) = 10 \<Longrightarrow> c = CHR 0x0A" "(of_char c :: nat) = 13 \<Longrightarrow> c = CHR 0x0D"
  "(of_char c :: nat) = 9 \<Longrightarrow> c = CHR 0x09"
  using of_char_eq_iff [where 'a = nat, of c] by (metis of_char_codes)+

lemma unquote_json_char:
  assumes "(of_char c :: nat) < 128"
  shows "unquote (json_char c @ rest) = map_option (apfst ((#) c)) (unquote rest)"
proof -
  let ?n = "of_char c :: nat"
  consider (esc) "?n = 34 \<or> ?n = 92" | (nl) "?n = 10" | (cr) "?n = 13" | (tab) "?n = 9"
    | (hex) "?n < 32 \<or> ?n = 60 \<or> ?n = 62 \<or> ?n = 38" "\<not> (?n = 10 \<or> ?n = 13 \<or> ?n = 9 \<or> ?n = 34 \<or> ?n = 92)"
    | (plain) "\<not> (?n = 10 \<or> ?n = 13 \<or> ?n = 9 \<or> ?n = 34 \<or> ?n = 92 \<or> ?n < 32 \<or> ?n = 60 \<or> ?n = 62 \<or> ?n = 38)"
    by blast
  then show ?thesis
  proof cases
    case esc
    then have "c = CHR 0x22 \<or> c = CHR 0x5C" by (auto dest: char_of_code)
    then show ?thesis by (auto simp: json_char_def quote_def)
  next
    case hex
    then have "json_char c = [CHR 0x5C, CHR ''u'', CHR ''0'', CHR ''0'',
        hex_char (?n div 16), hex_char (?n mod 16)]"
      by (auto simp: json_char_def Let_def)
    then show ?thesis by (simp only: append.simps unquote.simps list.case hex_code [OF assms]) (simp add: quote_def)
  next
    case plain
    then have "json_char c = [c]" "c \<noteq> quote" "c \<noteq> CHR 0x5C"
      by (auto simp: json_char_def quote_def)
    then show ?thesis by simp
  next
    case nl
    from char_of_code(3) [OF this] show ?thesis by (simp add: json_char_def quote_def)
  next
    case cr
    from char_of_code(4) [OF this] show ?thesis by (simp add: json_char_def quote_def)
  next
    case tab
    from char_of_code(5) [OF this] show ?thesis by (simp add: json_char_def quote_def)
  qed
qed

definition ascii :: "string \<Rightarrow> bool" where
  "ascii s \<longleftrightarrow> (\<forall>c \<in> set s. (of_char c :: nat) < 128)"

lemma unquote_json: "ascii s \<Longrightarrow> unquote (concat (map json_char s) @ quote # rest) = Some (s, rest)"
  by (induction s) (simp_all add: ascii_def unquote_json_char)

lemma read_json_string: "ascii s \<Longrightarrow> read_string (json_string s @ rest) = Some (s, rest)"
  by (simp add: read_string_def json_string_def strip_def unquote_json)

lemma read_json_entry:
  assumes "ascii k" "ascii v"
  shows "read_entry (json_entry (k, v) @ rest) = Some ((k, v), rest)"
proof -
  let ?mid = "'':{'' @ json_string ''auth'' @ '':''"
  have e: "json_entry (k, v) @ rest = json_string k @ ?mid @ json_string v @ ''}'' @ rest"
    by (simp add: json_entry_def)
  show ?thesis
    unfolding e read_entry_def read_json_string [OF assms(1)] bind.bind_lunit prod.case
      strip_append [of ?mid] read_json_string [OF assms(2)] strip_append [of "''}''"]
    by simp
qed

lemma json_entry_not_closed: "json_entry e @ rest \<noteq> CHR ''}'' # xs"
  by (simp add: json_entry_def json_string_def quote_def)

lemma read_json_entries:
  assumes "\<forall>(k, v) \<in> set es. ascii k \<and> ascii v" "es \<noteq> []" "length es \<le> n"
  shows "read_entries n (json_entries es @ ''}}'') = Some es"
  using assms
proof (induction es arbitrary: n rule: json_entries.induct)
  case (2 e)
  then show ?case by (cases n; cases e) (simp_all add: read_json_entry)
next
  case (3 e f es)
  obtain m where n: "n = Suc m" using 3(4) by (cases n) simp_all
  obtain k v where e: "e = (k, v)" by (cases e)
  have "read_entry (json_entry (k, v) @ ('','' @ json_entries (f # es) @ ''}}'')) =
      Some ((k, v), '','' @ json_entries (f # es) @ ''}}'')"
    using 3(2) by (intro read_json_entry) (simp_all add: e)
  moreover have "read_entries m (json_entries (f # es) @ ''}}'') = Some (f # es)"
    using 3 n by (intro "3.IH") auto
  ultimately show ?case by (simp add: n e strip_def)
qed simp

lemma sort_key_entries: "set (sort_key fst es) = set es" "(sort_key fst es = []) = (es = [])"
  by (simp_all flip: length_0_conv)

lemma length_json_entries: "length es \<le> length (json_entries es)"
  by (induction es rule: json_entries.induct) (simp_all add: json_entry_def)

definition ascii_config :: "DockerConfig \<Rightarrow> bool" where
  "ascii_config c \<longleftrightarrow> (case Auths c of
     None \<Rightarrow> True
   | Some es \<Rightarrow> entries_ok es \<and> (\<forall>(k, v) \<in> set es. ascii k \<and> ascii v))"

lemma read_JSON:
  assumes "ascii_config c"
  shows "read_config (JSON c) = Inr \<lparr>Auths = map_option (sort_key fst) (Auths c)\<rparr>"
proof (cases "Auths c")
  case None
  then show ?thesis by (simp add: JSON_def read_config_def strip_def)
next
  case (Some es)
  let ?head = "''{'' @ json_string ''auths'' @ '':''" and ?es = "sort_key fst es"
  have j: "JSON c = ?head @ (''{'' @ json_entries ?es @ ''}}'')"
    by (simp add: JSON_def Some)
  show ?thesis
  proof (cases "es = []")
    case True
    then show ?thesis unfolding j read_config_def strip_append by (simp add: Some)
  next
    case False
    then obtain e es' where "?es = e # es'" using sort_key_entries(2) by (metis neq_Nil_conv)
    then have open_ok: "json_entries ?es @ ''}}'' \<noteq> ''}}''"
      by (cases es') (simp_all add: json_entry_def json_string_def quote_def)
    have "\<forall>(k, v) \<in> set ?es. ascii k \<and> ascii v"
      using assms Some by (simp add: ascii_config_def sort_key_entries(1))
    then have "read_entries (length (''{'' @ json_entries ?es @ ''}}'')) (json_entries ?es @ ''}}'') = Some ?es"
      using False length_json_entries [of ?es] by (intro read_json_entries) (simp_all add: sort_key_entries(2))
    then show ?thesis
      unfolding j read_config_def strip_append using open_ok by (simp add: Some strip_def)
  qed
qed

text \<open>What \<open>encoding/json\<close> guarantees: what \<open>Marshal\<close> wrote is read back as a map with the
  same entries, in some order.\<close>

definition json_contract :: "codecs \<Rightarrow> bool" where
  "json_contract cd \<longleftrightarrow> (\<forall>c. ascii_config c \<longrightarrow>
     (\<exists>c'. UnmarshalJSON cd (JSON c) = Inr c' \<and> (Auths c = None \<longleftrightarrow> Auths c' = None) \<and>
        ascii_config c' \<and>
        map_option map_of (Auths c') = map_option map_of (Auths c)))"

definition strict_codecs :: codecs where
  "strict_codecs = \<lparr>UnmarshalJSON = read_config, MarshalYAML = (\<lambda>_. Inr [])\<rparr>"

lemma map_of_sort_key: "entries_ok es \<Longrightarrow> map_of (sort_key fst es) = map_of es"
  by (rule map_of_mset_eq)
    (simp_all add: entries_ok_def sort_key_entries distinct_map)

lemma strict_codecs_ok: "json_contract strict_codecs"
  unfolding json_contract_def
proof (intro allI impI)
  fix c
  assume ok: "ascii_config c"
  have "entries_ok es \<Longrightarrow> entries_ok (sort_key fst es)" for es :: "(string \<times> string) list"
    by (simp add: entries_ok_def distinct_map sort_key_entries)
  then show "\<exists>c'. UnmarshalJSON strict_codecs (JSON c) = Inr c' \<and>
      (Auths c = None \<longleftrightarrow> Auths c' = None) \<and> ascii_config c' \<and>
      map_option map_of (Auths c') = map_option map_of (Auths c)"
    using ok read_JSON [OF ok]
    by (cases "Auths c") (simp_all add: strict_codecs_def ascii_config_def map_of_sort_key sort_key_entries)
qed

subsection \<open>Credentials survive the encoding\<close>

lemma ToMakisuBasicAuth_encoded:
  "CHR '':'' \<notin> set user \<Longrightarrow>
   ToMakisuBasicAuth (EncodeToString (user @ '':'' @ passwd)) = Inr (user, passwd)"
  by (simp add: ToMakisuBasicAuth_def)

lemma b64_char_ascii: "n < 64 \<Longrightarrow> (of_char (b64_char n) :: nat) < 128"
  by (auto simp: of_b64_char)

lemma EncodeToString_ascii: "ascii (EncodeToString s)"
proof -
  have lt: "x < 16777216 \<Longrightarrow> (of_char (b64_char (x div 262144)) :: nat) < 128 \<and>
      (of_char (b64_char (x div 4096 mod 64)) :: nat) < 128 \<and>
      (of_char (b64_char (x div 64 mod 64)) :: nat) < 128 \<and>
      (of_char (b64_char (x mod 64)) :: nat) < 128" for x :: nat
    using sextets [of x] by (simp add: b64_char_ascii)
  have b: "(of_char c :: nat) < 256" for c by simp
  show ?thesis
  proof (induction s rule: EncodeToString.induct)
    case (2 a)
    have "(of_char a :: nat) * 65536 < 16777216" using b [of a] by linarith
    from lt [OF this] show ?case by (simp add: ascii_def Let_def)
  next
    case (3 a b')
    have "(of_char a :: nat) * 65536 + of_char b' * 256 < 16777216"
      using b [of a] b [of b'] by linarith
    from lt [OF this] show ?case by (simp add: ascii_def Let_def)
  next
    case (4 a b' c rest)
    have "(of_char a :: nat) * 65536 + of_char b' * 256 + of_char c < 16777216"
      using b [of a] b [of b'] b [of c] by linarith
    from lt [OF this] 4 show ?case by (simp add: ascii_def Let_def)
  qed (simp add: ascii_def)
qed

lemma Auths_AddAuth [simp]:
  "Auths (AddAuth registry user passwd c) = Some (AList.update registry
     (EncodeToString (user @ '':'' @ passwd)) (case Auths c of None \<Rightarrow> [] | Some m \<Rightarrow> m))"
  by (simp add: AddAuth_def Let_def)

lemma ascii_AddAuth:
  assumes "ascii_config c" "ascii registry"
  shows "ascii_config (AddAuth registry user passwd c)"
proof -
  have sub: "set (AList.update k v es) \<subseteq> insert (k, v) (set es)" for k v :: string and es
    by (induction es) auto
  show ?thesis
    using assms EncodeToString_ascii [of "user @ '':'' @ passwd"]
      sub [of registry "EncodeToString (user @ '':'' @ passwd)" "case Auths c of None \<Rightarrow> [] | Some m \<Rightarrow> m"]
    by (fastforce simp: ascii_config_def entries_ok_def distinct_update split: option.splits)
qed

text \<open>
  C35. Credentials survive the way from an image secret into a build environment: what
  \<open>AddAuth\<close> stores for a registry, marshalled with \<open>JSON\<close> and parsed again, has for this
  registry an entry that \<open>ToMakisuBasicAuth\<close> decodes to the same user and password, for
  every user without a colon and every password, and for every other registry the entry
  it had before.
\<close>

theorem credentials_roundtrip:
  assumes "json_contract cd" and "ascii_config c" "ascii registry" and "CHR '':'' \<notin> set user"
  shows "\<exists>c' m. ParseDockerConfig cd (JSON (AddAuth registry user passwd c)) = Inr c' \<and>
     Auths c' = Some m \<and>
     map_option ToMakisuBasicAuth (map_of m registry) = Some (Inr (user, passwd)) \<and>
     (map_of m)(registry := None) =
       (map_of (case Auths c of None \<Rightarrow> [] | Some es \<Rightarrow> es))(registry := None)"
proof -
  obtain c' where c': "UnmarshalJSON cd (JSON (AddAuth registry user passwd c)) = Inr c'"
    "map_option map_of (Auths c') = map_option map_of (Auths (AddAuth registry user passwd c))"
    using assms(1) ascii_AddAuth [OF assms(2,3)] unfolding json_contract_def by blast
  then obtain m where "Auths c' = Some m"
    "map_of m = (map_of (case Auths c of None \<Rightarrow> [] | Some es \<Rightarrow> es))
       (registry \<mapsto> EncodeToString (user @ '':'' @ passwd))"
    by (auto simp: update_conv')
  with c'(1) show ?thesis
    using ToMakisuBasicAuth_encoded [OF assms(4), of passwd] by (simp add: ParseDockerConfig_def)
qed

theorem credentials_roundtrip_witness:
  "\<exists>c' m. ParseDockerConfig strict_codecs
       (JSON (AddAuth ''reg.ns.zone'' ''pull.ns.x.1'' ''a:b'' \<lparr>Auths = Some [(''other'', ''eDp5'')]\<rparr>)) = Inr c' \<and>
     Auths c' = Some m \<and>
     map_option ToMakisuBasicAuth (map_of m ''reg.ns.zone'') = Some (Inr (''pull.ns.x.1'', ''a:b''))"
  using credentials_roundtrip [OF strict_codecs_ok, of "\<lparr>Auths = Some [(''other'', ''eDp5'')]\<rparr>"
      "''reg.ns.zone''" "''pull.ns.x.1''" "''a:b''"]
  by (auto simp: ascii_config_def ascii_def entries_ok_def)

end
