(* ===== verification/SecretReconciler.thy ===== *)
theory SecretReconciler
  imports RegistryNames KeyToRequest Merge Store PasswordGen RegistriesConf
begin

text \<open>
  \<open>pkg/controller/imagesecret/secretreconciler.go\<close>, the controller behind
  \<open>ImagePullSecret\<close> and \<open>ImagePushSecret\<close>. For every such resource it keeps one account in
  the registry's namespace and one secret with the account's credentials in the resource's
  namespace, and replaces both when they are due (a rotation). This theory has the code;
  the theorems are in \<open>SecretProtocol\<close> and \<open>SecretSync\<close>.
\<close>

subsection \<open>Configuration\<close>

definition annotationSecretRotation :: string where
  "annotationSecretRotation = ''registry.mgoltzsche.github.com/rotation''"
definition defaultAccountTTL :: duration where "defaultAccountTTL = 24 * Hour"
definition finalizer :: string where "finalizer = ''registry.mgoltzsche.github.com/accounts''"
definition EnvDefaultRegistryName :: string where
  "EnvDefaultRegistryName = ''OPERATOR_DEFAULT_REGISTRY_NAME''"
definition EnvDefaultRegistryNamespace :: string where
  "EnvDefaultRegistryNamespace = ''OPERATOR_DEFAULT_REGISTRY_NAMESPACE''"
definition EnvSecretTTL :: string where "EnvSecretTTL = ''OPERATOR_SECRET_TTL''"
definition WatchNamespaceEnvVar :: string where "WatchNamespaceEnvVar = ''WATCH_NAMESPACE''"

text \<open>\<open>CRFactory\<close> is known by the kind of the object it makes.\<close>

record ReconcileImageSecretConfig =
  Intent :: string
  cfg_SecretType :: string
  DockerConfigKey :: string
  CRFactory :: ImageSecretKind
  AccountLabel :: string

text \<open>
  The reconciler. The clients of the four kinds are those of one API server; the cache
  reads the registry's TLS secret. \<open>BcryptPassword\<close> is \<open>passwordgen.BcryptPassword\<close>.
\<close>

record 's ReconcileImageSecret =
  crs :: "(ImageSecret, 's) client"
  registries :: "(ImageRegistry, 's) client"
  accounts :: "(ImageRegistryAccount, 's) client"
  secrets :: "(Secret, 's) client"
  cacheGet :: "NamespacedName \<Rightarrow> ('s, Secret result) state"
  lib :: "'s kube_lib"
  random :: "'s random"
  BcryptPassword :: "string \<Rightarrow> ('s, string result) state"
  cfg :: ReconcileImageSecretConfig
  defaultRegistry :: ImageRegistryRef
  rotationInterval :: duration
  accountTTL :: duration
  dnsZone :: string

text \<open>\<open>NewReconciler\<close>, its environment variables, the operator's namespace and
  \<open>time.ParseDuration\<close> given; the clients are in \<open>base\<close>.\<close>

definition defaultRegistryRef ::
  "(string \<Rightarrow> string) \<Rightarrow> string result \<Rightarrow> ImageRegistryRef outcome" where
  "defaultRegistryRef Getenv GetOperatorNamespace =
     (let n = Getenv EnvDefaultRegistryName; ns = Getenv EnvDefaultRegistryNamespace;
          n' = (if n = [] then ''registry'' else n) in
      if ns = [] then
        (case GetOperatorNamespace of
           Inr ns' \<Rightarrow> Returned \<lparr>ref_Name = n', ref_Namespace = ns'\<rparr>
         | Inl _ \<Rightarrow>
             (let w = Getenv WatchNamespaceEnvVar in
              if w = [] then Panicked (''could not detect operator namespace to derive '' @
                EnvDefaultRegistryNamespace @ '' - set it alternatively'')
              else Returned \<lparr>ref_Name = n', ref_Namespace = w\<rparr>))
      else Returned \<lparr>ref_Name = n', ref_Namespace = ns\<rparr>)"

definition accountTTLFromEnv ::
  "(string \<Rightarrow> string) \<Rightarrow> (string \<Rightarrow> duration result) \<Rightarrow> duration outcome" where
  "accountTTLFromEnv Getenv ParseDuration =
     (let ttl = Getenv EnvSecretTTL in
      if ttl = [] then Returned defaultAccountTTL
      else (case ParseDuration ttl of
              Inl err \<Rightarrow> Panicked (''Unsupported value in env var '' @ EnvSecretTTL @ '': '' @ Error err)
            | Inr d \<Rightarrow>
                if d < 1 then Panicked (''Unsupported value in env var '' @ EnvSecretTTL @ '': ttl < 1'')
                else Returned d))"

definition NewReconciler ::
  "(string \<Rightarrow> string) \<Rightarrow> string result \<Rightarrow> (string \<Rightarrow> duration result) \<Rightarrow> ReconcileImageSecretConfig \<Rightarrow>
   's ReconcileImageSecret \<Rightarrow> 's ReconcileImageSecret outcome" where
  "NewReconciler Getenv GetOperatorNamespace ParseDuration c base =
     (case defaultRegistryRef Getenv GetOperatorNamespace of
        Panicked p \<Rightarrow> Panicked p
      | Returned ref \<Rightarrow>
          (case accountTTLFromEnv Getenv ParseDuration of
             Panicked p \<Rightarrow> Panicked p
           | Returned ttl \<Rightarrow> Returned (base\<lparr>cfg := c, defaultRegistry := ref, accountTTL := ttl,
               rotationInterval := quot ttl 2, dnsZone := DNSZone Getenv\<rparr>)))"

subsection \<open>The two controllers\<close>

definition pullAccountLabel :: string where
  "pullAccountLabel = ''registry.mgoltzsche.github.com/imagepullsecret''"

definition pushAccountLabel :: string where
  "pushAccountLabel = ''registry.mgoltzsche.github.com/imagepushsecret''"

definition pull_config :: ReconcileImageSecretConfig where
  "pull_config = \<lparr>Intent = TypePull, cfg_SecretType = SecretTypeDockerConfigJson,
     DockerConfigKey = DockerConfigJsonKey, CRFactory = ImagePullSecret,
     AccountLabel = pullAccountLabel\<rparr>"

definition push_config :: ReconcileImageSecretConfig where
  "push_config = \<lparr>Intent = TypePush, cfg_SecretType = SecretTypeDockerConfigJson,
     DockerConfigKey = DockerConfigJsonKey, CRFactory = ImagePushSecret,
     AccountLabel = pushAccountLabel\<rparr>"

text \<open>\<open>WatchSecondaryResources\<close> registers one mapper of its own, by the account label.\<close>

definition accountToSecret :: "ReconcileImageSecretConfig \<Rightarrow> keyToRequest" where
  "accountToSecret c = LabelToRequest (AccountLabel c)"

subsection \<open>Names\<close>

definition accountNameForCR :: "ImageSecretKind \<Rightarrow> ImageSecret \<Rightarrow> string" where
  "accountNameForCR kind cr = GetRegistryAccessMode kind @ ''.'' @ Namespace cr @ ''.'' @
     Name cr @ ''.'' @ FormatInt (Rotation (Status cr))"

definition secretNameForCR :: "ImageSecretKind \<Rightarrow> ImageSecret \<Rightarrow> string" where
  "secretNameForCR kind cr = ''image'' @ GetRegistryAccessMode kind @ ''secret-'' @ Name cr"

subsection \<open>Status and lookups\<close>

definition setSyncStatus ::
  "'s ReconcileImageSecret \<Rightarrow> ImageSecret \<Rightarrow> string \<Rightarrow> ConditionStatus \<Rightarrow> string \<Rightarrow> string
     \<Rightarrow> ('s, go_error option \<times> ImageSecret) state" where
  "setSyncStatus r cr ctype s reason msg = do {
     sc \<leftarrow> SetCondition (lib r) (mk_condition ctype s reason msg) (st_Conditions (Status cr));
     (if snd sc \<or> st_ObservedGeneration (Status cr) \<noteq> Generation cr
      then StatusUpdate (crs r) (cr\<lparr>Status := (Status cr)\<lparr>st_Conditions := fst sc,
             st_ObservedGeneration := Generation cr\<rparr>\<rparr>)
      else ret (None, cr\<lparr>Status := (Status cr)\<lparr>st_Conditions := fst sc\<rparr>\<rparr>))
   }"

definition deleteOrphanAccounts ::
  "'s ReconcileImageSecret \<Rightarrow> NamespacedName \<Rightarrow> string \<Rightarrow> ('s, go_error option) state" where
  "deleteOrphanAccounts r nn registryNamespace =
     DeleteAllOf (accounts r) (SelectorFromSet (lib r) [(AccountLabel (cfg r), NNString (lib r) nn)]) registryNamespace"

text \<open>\<open>get\<close>: whether the object exists, the error, and the object, filled in when found.\<close>

definition get_object ::
  "('a kobject_scheme, 's) client \<Rightarrow> 'a kobject_scheme \<Rightarrow> ('s, bool \<times> go_error option \<times> 'a kobject_scheme) state" where
  "get_object c obj = do {
     g \<leftarrow> Get c (object_key obj);
     case g of
       Inl err \<Rightarrow> if IsNotFound err then ret (False, None, obj) else ret (True, Some err, obj)
     | Inr found \<Rightarrow> ret (True, None, found)
   }"

record targetRegistry =
  tr_Namespace :: string
  tr_Hostname :: string
  tr_CA :: string

text \<open>\<open>getRegistryKeyForCR\<close> fills in the namespace of the reference in place.\<close>

definition getRegistryKeyForCR ::
  "'s ReconcileImageSecret \<Rightarrow> ImageSecret \<Rightarrow> NamespacedName \<times> ImageSecret" where
  "getRegistryKeyForCR r cr =
     (case RegistryRef cr of
        None \<Rightarrow> (NN (ref_Namespace (defaultRegistry r)) (ref_Name (defaultRegistry r)), cr)
      | Some ref \<Rightarrow>
          (let ref' = (if ref_Namespace ref = [] then ref\<lparr>ref_Namespace := Namespace cr\<rparr> else ref) in
           (NN (ref_Namespace ref') (ref_Name ref'), cr\<lparr>RegistryRef := Some ref'\<rparr>)))"

definition registry_not_ready :: "string \<Rightarrow> go_error" where
  "registry_not_ready regKey = ErrWrap ''ImageRegistry is not ready: ''
     (ErrNotFound (regKey @ ''.registry.mgoltzsche.github.com '' @ [CHR 0x22, CHR 0x22] @ '' not found''))"

definition getRegistry ::
  "'s ReconcileImageSecret \<Rightarrow> NamespacedName \<Rightarrow> ('s, targetRegistry result) state" where
  "getRegistry r registryKey = do {
     g \<leftarrow> Get (registries r) registryKey;
     case g of
       Inl err \<Rightarrow> ret (Inl err)
     | Inr registryCR \<Rightarrow>
         if \<not> IsTrueFor (lib r) ConditionReady (reg_Conditions registryCR)
         then ret (Inl (registry_not_ready (NNString (lib r) registryKey)))
         else do {
           c \<leftarrow> cacheGet r (NN (nn_namespace registryKey) (TLSSecretName registryCR));
           case c of
             Inl err \<Rightarrow> ret (Inl err)
           | Inr secret \<Rightarrow> ret (Inr \<lparr>tr_Namespace = Namespace registryCR,
               tr_Hostname = RegistryHostname registryCR (dnsZone r),
               tr_CA = map_get (Data secret) SecretKeyCaCert\<rparr>)
         }
   }"

subsection \<open>Rotation\<close>

text \<open>What \<open>rotatePassword\<close> writes: the resource with the next rotation, the account, and
  the secret.\<close>

definition next_rotation :: "ImageSecret \<Rightarrow> time \<Rightarrow> string \<Rightarrow> ImageSecret" where
  "next_rotation cr now registryNs = cr\<lparr>Status := (Status cr)\<lparr>
     Rotation := wrap64 (Rotation (Status cr) + 1), RotationDate := Some now,
     RegistryNamespace := registryNs\<rparr>\<rparr>"

definition new_account ::
  "'s ReconcileImageSecret \<Rightarrow> ImageSecret \<Rightarrow> targetRegistry \<Rightarrow> string \<Rightarrow> ImageRegistryAccount" where
  "new_account r cr registry newPasswordHash =
     (new_ImageRegistryAccount (tr_Namespace registry) (accountNameForCR (CRFactory (cfg r)) cr))
       \<lparr>Labels := Some [AccountLabel (cfg r) \<mapsto> ToMapValue (NN (Namespace cr) (Name cr))],
        acc_TTL := Some (accountTTL r),
        acc_Password := newPasswordHash,
        acc_Labels := Some [''namespace'' \<mapsto> [Namespace cr], ''name'' \<mapsto> [Name cr],
          ''accessMode'' \<mapsto> [GetRegistryAccessMode (CRFactory (cfg r))]]\<rparr>"

definition fill_secret ::
  "'s ReconcileImageSecret \<Rightarrow> ImageSecret \<Rightarrow> targetRegistry \<Rightarrow> ImageRegistryAccount \<Rightarrow> string \<Rightarrow> Secret \<Rightarrow> Secret" where
  "fill_secret r cr registry account newPassword secret =
     secret\<lparr>SecretType := cfg_SecretType (cfg r),
       Annotations := Some ((case Annotations secret of None \<Rightarrow> Map.empty | Some a \<Rightarrow> a)
         (annotationSecretRotation \<mapsto> FormatInt (Rotation (Status cr)))),
       Data := Some [SecretKeyUsername \<mapsto> Name account, SecretKeyPassword \<mapsto> newPassword,
         SecretKeyRegistry \<mapsto> tr_Hostname registry, SecretKeyCaCert \<mapsto> tr_CA registry,
         DockerConfigKey (cfg r) \<mapsto>
           JSON (AddAuth (tr_Hostname registry) (Name account) newPassword \<lparr>Auths = None\<rparr>)]\<rparr>"

text \<open>The error of \<open>deleteOrphanAccounts\<close> is assigned to \<open>err\<close> and then overwritten.\<close>

definition rotatePassword ::
  "'s ReconcileImageSecret \<Rightarrow> ImageSecret \<Rightarrow> targetRegistry \<Rightarrow> Secret
     \<Rightarrow> ('s, (go_error option \<times> ImageSecret) outcome) state" where
  "rotatePassword r cr registry secret = do {
     pw \<leftarrow> GeneratePassword (random r);
     case pw of
       Panicked p \<Rightarrow> ret (Panicked p)
     | Returned newPassword \<Rightarrow> do {
     h \<leftarrow> BcryptPassword r newPassword;
     case h of
       Inl err \<Rightarrow> ret (Returned (Some err, cr))
     | Inr newPasswordHash \<Rightarrow> do {
     _ \<leftarrow> (if RegistryNamespace (Status cr) \<noteq> [] \<and>
            RegistryNamespace (Status cr) \<noteq> tr_Namespace registry
          then deleteOrphanAccounts r (NN (Namespace cr) (Name cr)) (RegistryNamespace (Status cr))
          else ret None);
     now \<leftarrow> Now (lib r);
     u \<leftarrow> StatusUpdate (crs r) (next_rotation cr now (tr_Namespace registry));
     case fst u of
       Some err \<Rightarrow> ret (Returned (Some err, snd u))
     | None \<Rightarrow> do {
     a \<leftarrow> Create (accounts r) (new_account r (snd u) registry newPasswordHash);
     case fst a of
       Some err \<Rightarrow> ret (Returned (Some err, snd u))
     | None \<Rightarrow>
         (let filled = fill_secret r (snd u) registry (snd a) newPassword secret in
          case SetControllerReference (lib r) (kobject.truncate (snd u)) (kobject.truncate filled) of
            Inl err \<Rightarrow> ret (Returned (Some err, snd u))
          | Inr refs \<Rightarrow> do {
              w \<leftarrow> (if length (UID filled) = 0
                   then Create (secrets r) (filled\<lparr>OwnerReferences := refs\<rparr>)
                   else Update (secrets r) (filled\<lparr>OwnerReferences := refs\<rparr>));
              ret (Returned (fst w, snd u))
            })
     } } } }"

subsection \<open>Reconcile\<close>

text \<open>Why a rotation is due (the condition of the code; \<open>now\<close> is its second clock reading).\<close>

definition rotation_due ::
  "'s ReconcileImageSecret \<Rightarrow> ImageSecret \<Rightarrow> targetRegistry \<Rightarrow> bool \<Rightarrow> ImageRegistryAccount \<Rightarrow>
   bool \<Rightarrow> Secret \<Rightarrow> time \<Rightarrow> bool" where
  "rotation_due r cr registry accountExists account secretExists secret now \<longleftrightarrow>
     (let hostnameCaChanged = map_get (Data secret) SecretKeyRegistry \<noteq> tr_Hostname registry \<or>
            map_get (Data secret) ''ca.crt'' \<noteq> tr_CA registry;
          needsRenewal = time_Sub now (CreationTimestamp account) > rotationInterval r;
          secretOutOfSync = Annotations secret = None \<or>
            map_get (Annotations secret) annotationSecretRotation \<noteq> FormatInt (Rotation (Status cr))
      in \<not> accountExists \<or> \<not> secretExists \<or> secretOutOfSync \<or> needsRenewal \<or> hostnameCaChanged)"

definition finalize_secret ::
  "'s ReconcileImageSecret \<Rightarrow> NamespacedName \<Rightarrow> ImageSecret \<Rightarrow> ('s, reconciled) state" where
  "finalize_secret r request cr =
     (if HasFinalizer cr finalizer then do {
        d \<leftarrow> (if RegistryNamespace (Status cr) \<noteq> []
             then deleteOrphanAccounts r request (RegistryNamespace (Status cr)) else ret None);
        case d of
          Some err \<Rightarrow> ret (no_requeue, Some err)
        | None \<Rightarrow> do {
            u \<leftarrow> Update (crs r) (cr\<lparr>Finalizers := RemoveFinalizer (lib r) finalizer (Finalizers cr)\<rparr>);
            ret (no_requeue, fst u)
          }
      }
      else ret (no_requeue, None))"

definition add_finalizer ::
  "'s ReconcileImageSecret \<Rightarrow> ImageSecret \<Rightarrow> ('s, reconciled) state" where
  "add_finalizer r cr = do {
     u \<leftarrow> Update (crs r) (cr\<lparr>Finalizers := AddFinalizer (lib r) finalizer (Finalizers cr)\<rparr>);
     case fst u of
       Some err \<Rightarrow> do {
         _ \<leftarrow> setSyncStatus r (snd u) ConditionSynced ConditionFalse ReasonFailedUpdate (Error err);
         ret (no_requeue, Some err)
       }
     | None \<Rightarrow> ret (no_requeue, None)
   }"

definition sync_secret ::
  "'s ReconcileImageSecret \<Rightarrow> ImageSecret \<Rightarrow> ('s, reconciled outcome) state" where
  "sync_secret r cr0 =
     (let (registryKey, cr) = getRegistryKeyForCR r cr0 in do {
     g \<leftarrow> getRegistry r registryKey;
     case g of
       Inl err \<Rightarrow> do {
         e \<leftarrow> setSyncStatus r cr ConditionReady ConditionFalse ReasonRegistryUnavailable (Error err);
         ret (Returned (Result (30 * Second), fst e))
       }
     | Inr registry \<Rightarrow> do {
     a \<leftarrow> get_object (accounts r)
       (new_ImageRegistryAccount (tr_Namespace registry) (accountNameForCR (CRFactory (cfg r)) cr));
     case fst (snd a) of
       Some err \<Rightarrow> ret (Returned (no_requeue, Some err))
     | None \<Rightarrow> do {
     s \<leftarrow> get_object (secrets r) (new_secret (Namespace cr) (secretNameForCR (CRFactory (cfg r)) cr));
     case fst (snd s) of
       Some err \<Rightarrow> ret (Returned (no_requeue, Some err))
     | None \<Rightarrow> do {
     now \<leftarrow> Now (lib r);
     now2 \<leftarrow> Now (lib r);
     p \<leftarrow> (if rotation_due r cr registry (fst a) (snd (snd a)) (fst s) (snd (snd s)) now2
          then rotatePassword r cr registry (snd (snd s))
          else ret (Returned (None, cr)));
     case p of
       Panicked m \<Rightarrow> ret (Panicked m)
     | Returned q \<Rightarrow>
     (case fst q of
       Some err \<Rightarrow> do {
         e \<leftarrow> setSyncStatus r (snd q) ConditionReady ConditionFalse ReasonFailedSync (Error err);
         ret (Returned (no_requeue, fst e))
       }
     | None \<Rightarrow> do {
         e \<leftarrow> setSyncStatus r (snd q) ConditionReady ConditionTrue [] [];
         case fst e of
           Some err \<Rightarrow> ret (Returned (no_requeue, Some err))
         | None \<Rightarrow> ret (Returned (Result (wrap64
             (time_Sub (time_Add (CreationTimestamp (snd (snd a))) (rotationInterval r)) now
                + 30 * Second)), None))
       })
     } } } })"

definition Reconcile ::
  "'s ReconcileImageSecret \<Rightarrow> NamespacedName \<Rightarrow> ('s, reconciled outcome) state" where
  "Reconcile r request = do {
     g \<leftarrow> Get (crs r) request;
     case g of
       Inl err \<Rightarrow>
         if IsNotFound err then ret (Returned (no_requeue, None))
         else ret (Returned (no_requeue, Some err))
     | Inr cr \<Rightarrow>
         if \<not> IsZero (DeletionTimestamp cr)
         then do { x \<leftarrow> finalize_secret r request cr; ret (Returned x) }
         else if \<not> HasFinalizer cr finalizer
         then do { x \<leftarrow> add_finalizer r cr; ret (Returned x) }
         else sync_secret r cr
   }"

end
