(* ===== verification/Cluster.thy ===== *)
theory Cluster
  imports ApiTypes Merge Store PasswordGen
begin

text \<open>
  A whole API server in memory with a clock, and an implementation of the libraries: a
  concrete world that keeps every contract of \<open>Kube\<close> and on which the controllers can be
  run. Creating an object sets its UID and its creation time. Randomness is a part of the
  world, too: the throws that will be made, which a theorem about all worlds leaves open.
\<close>

record cluster =
  all_crs :: "NamespacedName \<rightharpoonup> ImageSecret"
  all_registries :: "NamespacedName \<rightharpoonup> ImageRegistry"
  all_accounts :: "NamespacedName \<rightharpoonup> ImageRegistryAccount"
  all_secrets :: "NamespacedName \<rightharpoonup> Secret"
  all_envs :: "NamespacedName \<rightharpoonup> ImageBuildEnv"
  clock :: time
  next_uid :: nat
  dice :: "nat \<Rightarrow> nat"

definition complete_object :: "cluster \<Rightarrow> 'a kobject_scheme \<Rightarrow> 'a kobject_scheme" where
  "complete_object s x = x\<lparr>UID := ''uid-'' @ format_nat (next_uid s), CreationTimestamp := clock s\<rparr>"

definition cluster_crs :: "(ImageSecret, cluster) client" where
  "cluster_crs = mem_client all_crs (\<lambda>m s. s\<lparr>all_crs := m, next_uid := Suc (next_uid s)\<rparr>) complete_object"

definition cluster_registries :: "(ImageRegistry, cluster) client" where
  "cluster_registries = mem_client all_registries
     (\<lambda>m s. s\<lparr>all_registries := m, next_uid := Suc (next_uid s)\<rparr>) complete_object"

definition cluster_accounts :: "(ImageRegistryAccount, cluster) client" where
  "cluster_accounts = mem_client all_accounts
     (\<lambda>m s. s\<lparr>all_accounts := m, next_uid := Suc (next_uid s)\<rparr>) complete_object"

definition cluster_secrets :: "(Secret, cluster) client" where
  "cluster_secrets = mem_client all_secrets
     (\<lambda>m s. s\<lparr>all_secrets := m, next_uid := Suc (next_uid s)\<rparr>) complete_object"

definition cluster_envs :: "(ImageBuildEnv, cluster) client" where
  "cluster_envs = mem_client all_envs
     (\<lambda>m s. s\<lparr>all_envs := m, next_uid := Suc (next_uid s)\<rparr>) complete_object"

lemmas cluster_clients = cluster_crs_def cluster_registries_def cluster_accounts_def
  cluster_secrets_def cluster_envs_def

definition controller_ref :: "kobject \<Rightarrow> OwnerReference" where
  "controller_ref owner = \<lparr>or_APIVersion = APIVersion owner, or_Kind = Kind owner,
     or_Name = Name owner, or_UID = UID owner, or_Controller = Some True,
     or_BlockOwnerDeletion = Some True\<rparr>"

definition cluster_lib :: "cluster kube_lib" where
  "cluster_lib = \<lparr>
     SetControllerReference = (\<lambda>owner obj.
       if list_ex (\<lambda>ref. or_Controller ref = Some True \<and> or_UID ref \<noteq> UID owner) (OwnerReferences obj)
       then Inl (ErrOther ''already owned by another controller'')
       else Inr (filter (\<lambda>ref. or_UID ref \<noteq> UID owner) (OwnerReferences obj) @ [controller_ref owner])),
     AddFinalizer = (\<lambda>f fs. if f \<in> set fs then fs else fs @ [f]),
     RemoveFinalizer = (\<lambda>f fs. filter (\<lambda>g. g \<noteq> f) fs),
     SetCondition = (\<lambda>c cs. State (\<lambda>s.
       ((case cs (CondType c) of
           None \<Rightarrow> (cs(CondType c \<mapsto> c\<lparr>LastTransitionTime := clock s\<rparr>), True)
         | Some d \<Rightarrow>
             if same_condition d c then (cs(CondType c \<mapsto> d), False)
             else (cs(CondType c \<mapsto> c\<lparr>LastTransitionTime := clock s\<rparr>), True)), s))),
     IsTrueFor = (\<lambda>t cs. case cs t of None \<Rightarrow> False | Some c \<Rightarrow> CondStatus c = ConditionTrue),
     NNString = (\<lambda>nn. nn_namespace nn @ ''/'' @ nn_name nn),
     SelectorFromSet = (\<lambda>ls. if list_all (\<lambda>(_, v). legal_label_value v) ls then ls else []),
     Now = State (\<lambda>s. (clock s, s))\<rparr>"

lemma cluster_lib_contracts:
  "finalizer_contract cluster_lib" "condition_contract cluster_lib"
  "IsTrueFor_contract cluster_lib" "NNString_contract cluster_lib"
  "selector_contract cluster_lib"
  by (auto simp: cluster_lib_def finalizer_contract_def condition_contract_def selector_contract_def
      IsTrueFor_contract_def NNString_contract_def same_condition_def split: option.split)

lemma cluster_controller_contract: "controller_contract cluster_lib"
  unfolding controller_contract_def
proof (intro allI impI)
  fix owner x y :: kobject and refs
  assume x: "SetControllerReference cluster_lib owner x = Inr refs" and y: "OwnerReferences y = refs"
  from x have "refs = filter (\<lambda>ref. or_UID ref \<noteq> UID owner) (OwnerReferences x) @ [controller_ref owner]"
    and "\<forall>ref \<in> set (OwnerReferences x). or_Controller ref = Some True \<longrightarrow> or_UID ref = UID owner"
    by (auto simp: cluster_lib_def list_ex_iff split: if_splits)
  then show "SetControllerReference cluster_lib owner y = Inr refs"
    by (auto simp: cluster_lib_def list_ex_iff y controller_ref_def)
qed

text \<open>Every kind of the cluster keeps the contract of an object store.\<close>

interpretation cluster_secret_store: object_store cluster_secrets all_secrets "\<lambda>s. keyed (all_secrets s)"
  unfolding cluster_secrets_def by (rule mem_client_store) simp

interpretation cluster_account_store: object_store cluster_accounts all_accounts "\<lambda>s. keyed (all_accounts s)"
  unfolding cluster_accounts_def by (rule mem_client_store) simp

interpretation cluster_cr_store: object_store cluster_crs all_crs "\<lambda>s. keyed (all_crs s)"
  unfolding cluster_crs_def by (rule mem_client_store) simp

interpretation cluster_env_store: object_store cluster_envs all_envs "\<lambda>s. keyed (all_envs s)"
  unfolding cluster_envs_def by (rule mem_client_store) simp

lemma complete_object_completed: "completed x (complete_object s x)"
  by (auto simp: completed_def complete_object_def)

interpretation cluster_secret_upserts: upsert_store "mem_upserter cluster_secrets" all_secrets
  unfolding cluster_secrets_def by (rule mem_upserter_store) (simp_all add: complete_object_completed)

text \<open>The kinds of object that the cluster does not store are accepted and forgotten.\<close>

definition accepting :: "('o, 's) upserter" where
  "accepting = \<lparr>up_fetch = (\<lambda>x. ret (None, x)), up_write = (\<lambda>x y. ret (OperationResultCreated, None, y))\<rparr>"

definition empty_cluster :: cluster where
  "empty_cluster = \<lparr>all_crs = Map.empty, all_registries = Map.empty, all_accounts = Map.empty,
     all_secrets = Map.empty, all_envs = Map.empty, clock = 0, next_uid = 0, dice = id\<rparr>"

text \<open>Random numbers: the throw that \<open>next_uid\<close> counts, for either source.\<close>

definition throw :: "nat \<Rightarrow> (cluster, nat) state" where
  "throw n = State (\<lambda>s. (dice s (next_uid s) mod n, s\<lparr>next_uid := Suc (next_uid s)\<rparr>))"

definition cluster_random :: "cluster random" where
  "cluster_random = \<lparr>crypto_Intn = (\<lambda>n. do { i \<leftarrow> throw n; ret (Returned i) }), global_Intn = throw\<rparr>"

lemma wp_throw [simp]: "wp (throw n) Q s = Q (dice s (next_uid s) mod n) (s\<lparr>next_uid := Suc (next_uid s)\<rparr>)"
  by (simp add: throw_def wp_State)

lemma cluster_random_ok:
  "random_contract cluster_random" "random_available cluster_random"
  "random_frame (\<lambda>s. s\<lparr>next_uid := 0\<rparr>) cluster_random"
  by (auto simp: cluster_random_def random_contract_def random_available_def random_frame_def throw_def
      reads_only_def wp_State)

lemma cluster_random_keeps: "random_frame all_secrets cluster_random"
  by (simp add: cluster_random_def random_frame_def reads_only_def throw_def)

lemma wp_cluster_password:
  assumes "\<And>pw n. password_ok pw \<Longrightarrow> Q (Returned pw) (s\<lparr>next_uid := n\<rparr>)"
  shows "wp (GeneratePassword cluster_random) Q s"
proof -
  have same: "s' = s\<lparr>next_uid := next_uid s'\<rparr>" if "s'\<lparr>next_uid := 0\<rparr> = s\<lparr>next_uid := 0\<rparr>" for s'
    using that by (cases s; cases s') simp
  have "wp (GeneratePassword cluster_random) (\<lambda>_ s'. s'\<lparr>next_uid := 0\<rparr> = s\<lparr>next_uid := 0\<rparr>) s"
    using spec [OF GeneratePassword_frame [OF cluster_random_ok(3), unfolded reads_only_def], of s]
    by (cases "run_state (GeneratePassword cluster_random) s") (simp add: wp_def)
  from wp_conj [OF GeneratePassword_ok [OF cluster_random_ok(1)] this] show ?thesis
    by (rule wp_mono) (use assms same cluster_random_ok(2) in \<open>auto split: outcome.splits, metis\<close>)
qed

text \<open>bcrypt by a salted text, with the comparison that goes with it.\<close>

definition cluster_bcrypt :: "string \<Rightarrow> ('s, string result) state" where
  "cluster_bcrypt pw = ret (Inr (''hash:'' @ pw))"

definition cluster_compare :: "string \<Rightarrow> string \<Rightarrow> bool" where
  "cluster_compare h pw \<longleftrightarrow> h = ''hash:'' @ pw"

end
