(* ===== verification/SecretProtocol.thy ===== *)
theory SecretProtocol
  imports SecretReconciler Cluster
begin

text \<open>
  The order of the writes of the image secret controller, against any API server: the
  reconciler runs with clients that record their calls (\<open>recorded_reconciler\<close>), and the
  recorded calls follow the protocol that keeps accounts immutable and credentials
  consistent, whatever the server, the clock and the random sources answer.
\<close>

subsection \<open>Recording\<close>

datatype secret_event =
    CRCall "ImageSecret call" "go_error option"
  | RegistryCall "ImageRegistry call" "go_error option"
  | AccountCall "ImageRegistryAccount call" "go_error option"
  | SecretCall "Secret call" "go_error option"

definition recorded_reconciler ::
  "'s ReconcileImageSecret \<Rightarrow> ('s \<times> secret_event list) ReconcileImageSecret" where
  "recorded_reconciler r = \<lparr>
     crs = recorded_client CRCall (crs r), registries = recorded_client RegistryCall (registries r),
     accounts = recorded_client AccountCall (accounts r),
     secrets = recorded_client SecretCall (secrets r),
     cacheGet = (\<lambda>k. unrecorded (cacheGet r k)), lib = recorded_lib (lib r),
     random = recorded_random (random r), BcryptPassword = (\<lambda>p. unrecorded (BcryptPassword r p)),
     cfg = cfg r, defaultRegistry = defaultRegistry r, rotationInterval = rotationInterval r,
     accountTTL = accountTTL r, dnsZone = dnsZone r\<rparr>"

lemma recorded_reconciler_simps [simp]:
  "crs (recorded_reconciler r) = recorded_client CRCall (crs r)"
  "registries (recorded_reconciler r) = recorded_client RegistryCall (registries r)"
  "accounts (recorded_reconciler r) = recorded_client AccountCall (accounts r)"
  "secrets (recorded_reconciler r) = recorded_client SecretCall (secrets r)"
  "cacheGet (recorded_reconciler r) k = unrecorded (cacheGet r k)"
  "lib (recorded_reconciler r) = recorded_lib (lib r)"
  "random (recorded_reconciler r) = recorded_random (random r)"
  "BcryptPassword (recorded_reconciler r) p = unrecorded (BcryptPassword r p)"
  "cfg (recorded_reconciler r) = cfg r" "defaultRegistry (recorded_reconciler r) = defaultRegistry r"
  "rotationInterval (recorded_reconciler r) = rotationInterval r"
  "accountTTL (recorded_reconciler r) = accountTTL r" "dnsZone (recorded_reconciler r) = dnsZone r"
  by (simp_all add: recorded_reconciler_def)

lemma recorded_pure [simp]:
  "new_account (recorded_reconciler r) = new_account r"
  "fill_secret (recorded_reconciler r) = fill_secret r"
  "rotation_due (recorded_reconciler r) = rotation_due r"
  "getRegistryKeyForCR (recorded_reconciler r) = getRegistryKeyForCR r"
  by (simp_all add: fun_eq_iff new_account_def fill_secret_def rotation_due_def
      getRegistryKeyForCR_def split: option.split)

subsection \<open>The protocol of a rotation\<close>

datatype rotation_phase = Pending | Cleaned | Counted | Issued | Stored | Stopped

text \<open>The accounts of a registry in another namespace are to be deleted first.\<close>

definition registry_moved :: "ImageSecret \<Rightarrow> targetRegistry \<Rightarrow> bool" where
  "registry_moved cr registry \<longleftrightarrow>
     RegistryNamespace (Status cr) \<noteq> [] \<and> RegistryNamespace (Status cr) \<noteq> tr_Namespace registry"

text \<open>The resource with its next rotation counted, and an account of a registry.\<close>

definition counts_rotation :: "ImageSecret \<Rightarrow> targetRegistry \<Rightarrow> ImageSecret \<Rightarrow> bool" where
  "counts_rotation cr registry cr' \<longleftrightarrow>
     object_key cr' = object_key cr \<and> Rotation (Status cr') = wrap64 (Rotation (Status cr) + 1) \<and>
     RotationDate (Status cr') \<noteq> None \<and> RegistryNamespace (Status cr') = tr_Namespace registry"

definition account_for :: "'s ReconcileImageSecret \<Rightarrow> targetRegistry \<Rightarrow> ImageRegistryAccount \<Rightarrow> bool" where
  "account_for r registry a \<longleftrightarrow> Namespace a = tr_Namespace registry \<and>
     acc_TTL a = Some (accountTTL r) \<and> UID a = [] \<and>
     map_get (Labels a) (AccountLabel (cfg r)) \<noteq> []"

lemma counts_next_rotation [simp]:
  "counts_rotation cr registry (next_rotation cr now (tr_Namespace registry))"
  by (simp add: counts_rotation_def next_rotation_def object_key_def)

lemma account_for_new [simp]: "account_for r registry (new_account r cr registry h)"
  by (simp add: account_for_def new_account_def new_ImageRegistryAccount_def
      ImageRegistryAccount.defs new_kobject_def kobject.defs)

text \<open>
  One event in one phase. The count of rotations is written first, then the account is
  created, then the secret is written; a phase is entered when its write has succeeded.
\<close>

fun rotation_step ::
  "'s ReconcileImageSecret \<Rightarrow> ImageSecret \<Rightarrow> targetRegistry \<Rightarrow> Secret \<Rightarrow> rotation_phase \<Rightarrow> secret_event
     \<Rightarrow> rotation_phase option" where
  "rotation_step r cr registry secret Pending (AccountCall (CDeleteAll ls ns) e) =
     (if registry_moved cr registry \<and> ns = RegistryNamespace (Status cr) \<and>
        ls = SelectorFromSet (lib r) [(AccountLabel (cfg r), NNString (lib r) (NN (Namespace cr) (Name cr)))]
      then Some Cleaned else None)"
| "rotation_step r cr registry secret p (CRCall (CStatus cr') e) =
     (if p = (if registry_moved cr registry then Cleaned else Pending) \<and>
        counts_rotation cr registry cr'
      then Some (if e = None then Counted else Stopped) else None)"
| "rotation_step r cr registry secret Counted (AccountCall (CCreate a) e) =
     (if account_for r registry a
      then Some (if e = None then Issued else Stopped) else None)"
| "rotation_step r cr registry secret Issued (SecretCall (CCreate x) e) =
     (if UID secret = [] \<and> UID x = [] then Some (if e = None then Stored else Stopped) else None)"
| "rotation_step r cr registry secret Issued (SecretCall (CUpdate x) e) =
     (if UID secret \<noteq> [] \<and> UID x = UID secret
      then Some (if e = None then Stored else Stopped) else None)"
| "rotation_step r cr registry secret _ _ = None"

fun rotation_run ::
  "'s ReconcileImageSecret \<Rightarrow> ImageSecret \<Rightarrow> targetRegistry \<Rightarrow> Secret \<Rightarrow> rotation_phase \<Rightarrow> secret_event list
     \<Rightarrow> rotation_phase option" where
  "rotation_run r cr registry secret p [] = Some p"
| "rotation_run r cr registry secret p (e # es) =
     Option.bind (rotation_step r cr registry secret p e) (\<lambda>q. rotation_run r cr registry secret q es)"

lemma UID_fill_secret [simp]: "UID (fill_secret r cr registry a pw x) = UID x"
  by (simp add: fill_secret_def)

text \<open>The events of a run are a run of the protocol, complete when the run succeeds.\<close>

definition follows_protocol ::
  "'s ReconcileImageSecret \<Rightarrow> ImageSecret \<Rightarrow> targetRegistry \<Rightarrow> Secret
     \<Rightarrow> (go_error option \<times> ImageSecret) outcome \<Rightarrow> secret_event list \<Rightarrow> bool" where
  "follows_protocol r cr registry secret res l \<longleftrightarrow>
     rotation_run r cr registry secret Pending l \<noteq> None \<and>
     ((\<exists>cr'. res = Returned (None, cr')) \<longleftrightarrow>
        rotation_run r cr registry secret Pending l = Some Stored)"

lemma rotatePassword_follows:
  assumes "\<And>res s' l1. follows_protocol r cr registry secret res l1 \<Longrightarrow> Q res (s', l @ l1)"
  shows "wp (rotatePassword (recorded_reconciler r) cr registry secret) Q (s, l)"
proof -
  note start = assms [of _ "[]", simplified]
  show ?thesis
    unfolding rotatePassword_def deleteOrphanAccounts_def Let_def
    by (auto intro!: wp_rules assms start simp: follows_protocol_def registry_moved_def
        split: outcome.split sum.split option.split)
qed

text \<open>
  C18. A rotation counts before it issues and issues before it stores. Against any server,
  \<open>rotatePassword\<close> first asks to delete the old accounts when the registry moved to another
  namespace, then increments the rotation in the resource's status, then creates an account
  of the next name with the configured life time, then creates the secret, or updates it
  when it existed. Each of the three writes only follows the success of the one before, and
  the function reports success if and only if the last one succeeded.
\<close>

theorem rotation_order:
  "wp (rotatePassword (recorded_reconciler r) cr registry secret)
     (\<lambda>res (s', l). follows_protocol r cr registry secret res l) (s, [])"
  by (rule rotatePassword_follows) simp

subsection \<open>What a rotation stores\<close>

text \<open>An operation that keeps what \<open>view\<close> shows of its argument when it succeeds.\<close>

definition echoes :: "('o \<Rightarrow> ('s, go_error option \<times> 'o) state) \<Rightarrow> ('o \<Rightarrow> 'v) \<Rightarrow> bool" where
  "echoes f view \<longleftrightarrow> (\<forall>x s. wp (f x) (\<lambda>r s'. fst r = None \<longrightarrow> view (snd r) = view x) s)"

lemma wp_recorded_echo:
  assumes "echoes f view"
    and "\<And>r s'. (fst r = None \<Longrightarrow> view (snd r) = view x) \<Longrightarrow> Q r (s', l @ [ev r])"
  shows "wp (recorded ev (f x)) Q (s, l)"
proof -
  obtain a s' where run: "run_state (f x) s = (a, s')" by (cases "run_state (f x) s")
  have "wp (f x) (\<lambda>r s'. fst r = None \<longrightarrow> view (snd r) = view x) s"
    using assms(1) by (simp add: echoes_def)
  then have "fst a = None \<longrightarrow> view (snd a) = view x" by (simp add: wp_run [OF run])
  with assms(2) [of a s'] show ?thesis by (simp add: wp_def run)
qed

definition bcrypt_contract ::
  "(string \<Rightarrow> ('s, string result) state) \<Rightarrow> (string \<Rightarrow> string \<Rightarrow> bool) \<Rightarrow> bool" where
  "bcrypt_contract hash matches \<longleftrightarrow>
     (\<forall>pw s. wp (hash pw) (\<lambda>r s'. case r of Inr h \<Rightarrow> matches h pw | Inl _ \<Rightarrow> True) s)"

lemma wp_recorded_bcrypt:
  assumes "bcrypt_contract hash matches"
    and "\<And>err s'. Q (Inl err) (s', l)" "\<And>h s'. matches h pw \<Longrightarrow> Q (Inr h) (s', l)"
  shows "wp (unrecorded (hash pw)) Q (s, l)"
proof -
  have "wp (hash pw) (\<lambda>r s'. case r of Inr h \<Rightarrow> matches h pw | Inl _ \<Rightarrow> True) s"
    using assms(1) by (simp add: bcrypt_contract_def)
  then show ?thesis using assms(2,3) by (auto simp: wp_def split: prod.splits sum.splits)
qed

text \<open>What the server and bcrypt are relied on for: a successful write answers with the
  object that was written, as far as its name and its rotation go.\<close>

definition rotation_contract :: "'s ReconcileImageSecret \<Rightarrow> (string \<Rightarrow> string \<Rightarrow> bool) \<Rightarrow> bool" where
  "rotation_contract r matches \<longleftrightarrow>
     echoes (StatusUpdate (crs r)) (\<lambda>x. (object_key x, Rotation (Status x))) \<and>
     echoes (Create (accounts r)) object_key \<and>
     bcrypt_contract (BcryptPassword r) matches \<and> random_contract (random r)"

text \<open>A secret with the credentials of an account.\<close>

definition credentials_of ::
  "targetRegistry \<Rightarrow> (string \<Rightarrow> string \<Rightarrow> bool) \<Rightarrow> ImageRegistryAccount \<Rightarrow> Secret \<Rightarrow> bool" where
  "credentials_of registry matches a x \<longleftrightarrow>
     (let pw = map_get (Data x) SecretKeyPassword in
        map_get (Data x) SecretKeyUsername = Name a \<and>
        matches (acc_Password a) pw \<and> password_ok pw \<and>
        map_get (Data x) SecretKeyRegistry = tr_Hostname registry \<and>
        map_get (Data x) SecretKeyCaCert = tr_CA registry \<and>
        map_get (Data x) DockerConfigJsonKey =
          JSON \<lparr>Auths = Some [(tr_Hostname registry, EncodeToString (Name a @ '':'' @ pw))]\<rparr>)"

definition standard_config :: "ReconcileImageSecretConfig \<Rightarrow> bool" where
  "standard_config c \<longleftrightarrow> c = pull_config \<or> c = push_config"

lemma standard_config_key: "standard_config c \<Longrightarrow> DockerConfigKey c = DockerConfigJsonKey"
  by (auto simp: standard_config_def pull_config_def push_config_def)

lemma AddAuth_nil:
  "AddAuth reg user pw \<lparr>Auths = None\<rparr> = \<lparr>Auths = Some [(reg, EncodeToString (user @ '':'' @ pw))]\<rparr>"
  by (simp add: AddAuth_def)

lemma fill_secret_credentials:
  assumes "standard_config (cfg r)" "matches h pw" "password_ok pw"
    and "Name a = accountNameForCR (CRFactory (cfg r)) cr"
  shows "credentials_of registry matches (new_account r cr registry h)
      ((fill_secret r cr registry a pw secret)\<lparr>OwnerReferences := refs\<rparr>)"
  using assms(2-) unfolding credentials_of_def fill_secret_def Let_def new_account_def
    standard_config_key [OF assms(1)] AddAuth_nil
  by (simp add: secret_keys map_get_def)

lemma wp_recorded_password:
  assumes "random_contract rnd"
    and "\<And>pw s'. password_ok pw \<Longrightarrow> Q (Returned pw) (s', l)" "\<And>p s'. Q (Panicked p) (s', l)"
  shows "wp (GeneratePassword (recorded_random rnd)) Q (s, l)"
proof -
  have "wp (GeneratePassword (recorded_random rnd)) (\<lambda>r (s', l'). l' = l) (s, l)"
    by (rule wp_recorded_GeneratePassword) simp
  from wp_conj [OF GeneratePassword_ok [OF random_contract_recorded [OF assms(1)]] this]
  show ?thesis by (rule wp_mono) (use assms(2,3) in \<open>auto split: outcome.splits\<close>)
qed

definition stored_secrets_fit ::
  "'s ReconcileImageSecret \<Rightarrow> targetRegistry \<Rightarrow> (string \<Rightarrow> string \<Rightarrow> bool) \<Rightarrow> secret_event list \<Rightarrow> bool" where
  "stored_secrets_fit r registry matches l \<longleftrightarrow>
     (\<forall>x e. SecretCall (CCreate x) e \<in> set l \<or> SecretCall (CUpdate x) e \<in> set l \<longrightarrow>
        (\<exists>a cr'. AccountCall (CCreate a) None \<in> set l \<and> CRCall (CStatus cr') None \<in> set l \<and>
           Name a = accountNameForCR (CRFactory (cfg r)) cr' \<and>
           map_get (Annotations x) annotationSecretRotation = FormatInt (Rotation (Status cr')) \<and>
           credentials_of registry matches a x))"

lemma accountName_cong:
  "object_key cr = object_key cr' \<Longrightarrow> Rotation (Status cr) = Rotation (Status cr') \<Longrightarrow>
   accountNameForCR kind cr = accountNameForCR kind cr'"
  by (simp add: accountNameForCR_def object_key_def)

lemma Name_new_account [simp]:
  "Name (new_account r cr registry h) = accountNameForCR (CRFactory (cfg r)) cr"
  "object_key (new_account r cr registry h) =
     NN (tr_Namespace registry) (accountNameForCR (CRFactory (cfg r)) cr)"
  by (simp_all add: new_account_def object_key_def)

lemma rotation_annotation [simp]:
  "map_get (Annotations (fill_secret r cr registry a pw secret))
     annotationSecretRotation = FormatInt (Rotation (Status cr))"
  by (simp add: fill_secret_def)

lemma stored_secrets_fitI:
  assumes "credentials_of registry matches a x0" "Name a = accountNameForCR (CRFactory (cfg r)) cr1"
    and "map_get (Annotations x0) annotationSecretRotation = FormatInt (Rotation (Status cr1))"
    and "ev = SecretCall (CCreate x0) e \<or> ev = SecretCall (CUpdate x0) e"
    and "\<forall>x' e'. SecretCall (CCreate x') e' \<notin> set pre \<and> SecretCall (CUpdate x') e' \<notin> set pre"
  shows "stored_secrets_fit r registry matches
    (pre @ [CRCall (CStatus cr1) None, AccountCall (CCreate a) None, ev])"
  unfolding stored_secrets_fit_def
proof (intro allI impI)
  fix x e'
  let ?l = "pre @ [CRCall (CStatus cr1) None, AccountCall (CCreate a) None, ev]"
  assume "SecretCall (CCreate x) e' \<in> set ?l \<or> SecretCall (CUpdate x) e' \<in> set ?l"
  then have "x = x0" using assms(4,5) by auto
  with assms(1-3) show "\<exists>a' cr'. AccountCall (CCreate a') None \<in> set ?l \<and>
      CRCall (CStatus cr') None \<in> set ?l \<and> Name a' = accountNameForCR (CRFactory (cfg r)) cr' \<and>
      map_get (Annotations x) annotationSecretRotation = FormatInt (Rotation (Status cr')) \<and>
      credentials_of registry matches a' x"
    by (intro exI [of _ a] exI [of _ cr1]) simp
qed

lemma stored_secret_fits:
  assumes "standard_config (cfg r)" "matches h pw" "password_ok pw"
    and "object_key b = NN (tr_Namespace registry) (accountNameForCR (CRFactory (cfg r)) cr')"
    and "object_key cr' = object_key cr1 \<and> Rotation (Status cr') = Rotation (Status cr1)"
    and "ev = SecretCall (CCreate ((fill_secret r cr' registry b pw secret)\<lparr>OwnerReferences := refs\<rparr>)) e \<or>
      ev = SecretCall (CUpdate ((fill_secret r cr' registry b pw secret)\<lparr>OwnerReferences := refs\<rparr>)) e"
    and "\<forall>x' e'. SecretCall (CCreate x') e' \<notin> set pre \<and> SecretCall (CUpdate x') e' \<notin> set pre"
  shows "stored_secrets_fit r registry matches
    (pre @ [CRCall (CStatus cr1) None, AccountCall (CCreate (new_account r cr' registry h)) None, ev])"
proof (rule stored_secrets_fitI [OF _ _ _ assms(6,7)])
  have b: "Name b = accountNameForCR (CRFactory (cfg r)) cr'"
    using assms(4) by (simp only: object_key_def NamespacedName.inject)
  show "credentials_of registry matches (new_account r cr' registry h)
      ((fill_secret r cr' registry b pw secret)\<lparr>OwnerReferences := refs\<rparr>)"
    by (rule fill_secret_credentials [of r matches h pw b cr', OF assms(1-3) b])
  show "Name (new_account r cr' registry h) = accountNameForCR (CRFactory (cfg r)) cr1"
    using accountName_cong [of cr' cr1 "CRFactory (cfg r)"] assms(5) by (simp only: Name_new_account)
  show "map_get (Annotations ((fill_secret r cr' registry b pw secret)\<lparr>OwnerReferences := refs\<rparr>))
      annotationSecretRotation = FormatInt (Rotation (Status cr1))"
    using assms(5) by simp
qed

lemmas stored_secret_fits_created =
  stored_secret_fits [where ev = "SecretCall (CCreate x) e" for x e, OF _ _ _ _ _ disjI1 [OF refl]]

lemmas stored_secret_fits_updated =
  stored_secret_fits [where ev = "SecretCall (CUpdate x) e" for x e, OF _ _ _ _ _ disjI2 [OF refl]]

lemmas stored_secret_fits_rules =
  stored_secret_fits_created [where pre = "[]", unfolded append.simps]
  stored_secret_fits_created [where pre = "[d]" for d, unfolded append.simps]
  stored_secret_fits_updated [where pre = "[]", unfolded append.simps]
  stored_secret_fits_updated [where pre = "[d]" for d, unfolded append.simps]

lemma no_secret_stored:
  "\<forall>e \<in> set l. \<forall>c e'. e \<noteq> SecretCall c e' \<Longrightarrow> stored_secrets_fit r registry matches l"
  unfolding stored_secrets_fit_def by blast

lemma rotatePassword_fits:
  assumes "standard_config (cfg r)" "rotation_contract r matches"
  shows "wp (rotatePassword (recorded_reconciler r) cr registry secret)
     (\<lambda>res (s', l). stored_secrets_fit r registry matches l) (s, [])"
proof -
  have c: "echoes (StatusUpdate (crs r)) (\<lambda>x. (object_key x, Rotation (Status x)))"
    "echoes (Create (accounts r)) object_key" "bcrypt_contract (BcryptPassword r) matches"
    "random_contract (random r)"
    using assms(2) by (simp_all add: rotation_contract_def)
  note rules = wp_recorded_password [OF c(4)] wp_recorded_bcrypt [OF c(3)]
    wp_recorded_echo [OF c(1)] wp_recorded_echo [OF c(2)]
  note others = wp_unrecordedI [where m = "Now k" for k] wp_recordedI [where m = "DeleteAllOf k x y" for k x y]
    wp_recordedI [where m = "Create (secrets r) x" for x] wp_recordedI [where m = "Update (secrets r) x" for x]
  show ?thesis
    unfolding rotatePassword_def deleteOrphanAccounts_def Let_def
    by (auto intro!: rules others stored_secret_fits_rules [OF assms(1)]
        simp: no_secret_stored split: outcome.split sum.split option.split)
qed

subsection \<open>The controller on a cluster in memory\<close>

definition cluster_reconciler :: "ReconcileImageSecretConfig \<Rightarrow> cluster ReconcileImageSecret" where
  "cluster_reconciler c = \<lparr>crs = cluster_crs, registries = cluster_registries,
     accounts = cluster_accounts, secrets = cluster_secrets, cacheGet = Get cluster_secrets,
     lib = cluster_lib, random = cluster_random, BcryptPassword = cluster_bcrypt, cfg = c,
     defaultRegistry = \<lparr>ref_Name = ''registry'', ref_Namespace = ''operator''\<rparr>,
     rotationInterval = 12 * Hour, accountTTL = 24 * Hour, dnsZone = ''svc.cluster.local''\<rparr>"

lemma cluster_rotation_contract: "rotation_contract (cluster_reconciler c) cluster_compare"
  by (auto simp: rotation_contract_def cluster_reconciler_def echoes_def wp_def cluster_clients
      mem_client_def complete_object_def object_key_def bcrypt_contract_def cluster_bcrypt_def
      cluster_compare_def cluster_random_ok Let_def split: prod.splits option.splits)

text \<open>
  C17. A stored secret has the credentials of an account that was created before. Whenever
  \<open>rotatePassword\<close> of the pull or the push controller writes a secret, it has created, in the
  same run and with success, an account whose bcrypt hash matches the secret's password and
  whose name is the secret's user and ends with the rotation that the secret's annotation and
  the resource's status have; and the docker configuration in the secret holds exactly these
  credentials for the registry's host name.
\<close>

theorem secret_matches_account:
  assumes "standard_config (cfg r)" "rotation_contract r matches"
  shows "wp (rotatePassword (recorded_reconciler r) cr registry secret)
     (\<lambda>res (s', l). stored_secrets_fit r registry matches l) (s, [])"
  using assms by (rule rotatePassword_fits)

theorem secret_matches_account_witness:
  "wp (rotatePassword (recorded_reconciler (cluster_reconciler pull_config))
       (new_ImageSecret ''ns'' ''x'')
       \<lparr>tr_Namespace = ''reg'', tr_Hostname = ''registry.reg.zone'', tr_CA = ''ca''\<rparr>
       (new_secret ''ns'' ''imagepullsecret-x''))
     (\<lambda>res (s', l). stored_secrets_fit (cluster_reconciler pull_config)
       \<lparr>tr_Namespace = ''reg'', tr_Hostname = ''registry.reg.zone'', tr_CA = ''ca''\<rparr> cluster_compare l)
     (empty_cluster, [])"
  by (rule secret_matches_account [OF _ cluster_rotation_contract])
    (simp add: standard_config_def cluster_reconciler_def)

subsection \<open>Names and labels of accounts\<close>

text \<open>
  C29. An account name belongs to one rotation of one resource: accounts of different
  resources, of a pull and a push secret, or of different rotations have different names,
  whatever dots the resources' names have. (Namespaces have none.)
\<close>

theorem account_names_unique:
  assumes "CHR ''.'' \<notin> set (Namespace cr)" "CHR ''.'' \<notin> set (Namespace cr')"
  shows "accountNameForCR k cr = accountNameForCR k' cr' \<longleftrightarrow>
    k = k' \<and> object_key cr = object_key cr' \<and> Rotation (Status cr) = Rotation (Status cr')"
  using assms by (auto simp: accountNameForCR_def join_inj join_inj_right object_key_def)

theorem account_names_unique_witness:
  "accountNameForCR ImagePullSecret (new_ImageSecret ''ns'' ''a.1'') \<noteq>
   accountNameForCR ImagePullSecret (new_ImageSecret ''ns'' ''a'')"
  by (subst account_names_unique)
    (simp_all add: new_ImageSecret_def new_kobject_def kobject.defs object_key_def)

text \<open>
  C36. The deletion of a resource's accounts cannot tell them from those of other resources.
  \<open>deleteOrphanAccounts\<close> asks for the label value \<open>namespace/name\<close>, which is not a legal one, and
  \<open>rotatePassword\<close> labels the accounts with \<open>name.namespace\<close>. So, however \<open>SelectorFromSet\<close> treats
  the illegal value, the one call that is made is for every account in the namespace of the
  registry, those of all other resources included, or for none of the accounts that the
  controller ever creates, for whatever resource.
\<close>

theorem orphan_cleanup_indiscriminate:
  assumes "NNString_contract (lib r)" "selector_contract (lib r)"
  shows "wp (deleteOrphanAccounts (recorded_reconciler r) nn registryNs)
     (\<lambda>res (s', l). \<exists>sel. l = [AccountCall (CDeleteAll sel registryNs) res] \<and>
        ((\<forall>ls. selects sel ls) \<or>
         (\<forall>cr registry h. CHR ''/'' \<notin> set (Namespace cr) \<and> CHR ''/'' \<notin> set (Name cr) \<longrightarrow>
            \<not> selects sel (Labels (new_account r cr registry h)))) \<and>
        \<not> legal_label_value (NNString (lib r) nn)) (s, [])"
proof -
  let ?v = "NNString (lib r) nn" and ?k = "AccountLabel (cfg r)"
  let ?sel = "SelectorFromSet (lib r) [(?k, ?v)]"
  have slash: "CHR ''/'' \<in> set ?v"
    using assms(1) by (cases nn) (simp add: NNString_contract_def)
  have "\<not> selects ?sel (Labels (new_account r cr registry h))"
    if "?sel \<noteq> []" "CHR ''/'' \<notin> set (Namespace cr)" "CHR ''/'' \<notin> set (Name cr)" for cr registry h
  proof -
    have "set ?sel \<subseteq> {(?k, ?v)}"
      using assms(2) unfolding selector_contract_def by (metis empty_set list.simps(15))
    with that(1) have "(?k, ?v) \<in> set ?sel" by (cases ?sel) auto
    moreover have "CHR ''/'' \<notin> set (ToMapValue (NN (Namespace cr) (Name cr)))"
      using that(2,3) by (simp add: ToMapValue_def separator_def)
    with slash have "ToMapValue (NN (Namespace cr) (Name cr)) \<noteq> ?v" by metis
    ultimately show ?thesis
      by (auto simp: selects_def new_account_def list_all_iff intro!: bexI [of _ "(?k, ?v)"])
  qed
  then have "(\<forall>ls. selects ?sel ls) \<or> (\<forall>cr registry h. CHR ''/'' \<notin> set (Namespace cr) \<and>
      CHR ''/'' \<notin> set (Name cr) \<longrightarrow> \<not> selects ?sel (Labels (new_account r cr registry h)))"
    by (cases "?sel = []") auto
  with legal_no_slash slash show ?thesis
    by (auto simp: deleteOrphanAccounts_def intro!: wp_rules)
qed

text \<open>Both happen: a selector without requirements, and one with the illegal value.\<close>

lemma cleanup_takes_all:
  assumes "all_accounts s k = Some a" "nn_namespace k = registryNs"
  shows "wp (deleteOrphanAccounts (cluster_reconciler c) nn registryNs) (\<lambda>_ s'. all_accounts s' k = None) s"
proof -
  have "\<not> legal_label_value (NNString cluster_lib nn)"
    using legal_no_slash [of "NNString cluster_lib nn"] by (auto simp: cluster_lib_def)
  then have "SelectorFromSet cluster_lib [(AccountLabel c, NNString cluster_lib nn)] = []"
    by (simp add: cluster_lib_def)
  with assms show ?thesis
    by (simp add: deleteOrphanAccounts_def cluster_reconciler_def cluster_accounts_def mem_client_def wp_State)
qed

theorem orphan_cleanup_indiscriminate_witness:
  "wp (deleteOrphanAccounts (recorded_reconciler (cluster_reconciler pull_config)) (NN ''ns'' ''x'') ''reg'')
     (\<lambda>res (s', l). \<exists>sel. l = [AccountCall (CDeleteAll sel ''reg'') res] \<and>
        ((\<forall>ls. selects sel ls) \<or>
         \<not> selects sel (Labels (new_account (cluster_reconciler pull_config) (new_ImageSecret ''ns'' ''x'')
            \<lparr>tr_Namespace = ''reg'', tr_Hostname = [], tr_CA = []\<rparr> [])))) (empty_cluster, [])"
proof -
  have "NNString_contract (lib (cluster_reconciler pull_config))" "selector_contract (lib (cluster_reconciler pull_config))"
    by (simp_all add: cluster_reconciler_def cluster_lib_contracts)
  from orphan_cleanup_indiscriminate [OF this, of "NN ''ns'' ''x''" "''reg''" empty_cluster]
  show ?thesis
    by (rule wp_mono)
      (force simp: new_ImageSecret_def new_kobject_def kobject.defs)
qed

end
