(* ===== verification/SecretSync.thy ===== *)
theory SecretSync
  imports SecretProtocol
begin

text \<open>
  Whole reconciliations of image secrets: which calls a run makes for a resource that is
  deleted, new or live; when the credentials are rotated and when the next check is; and
  how a configuration from the environment relates the rotation interval to the life time
  of accounts.
\<close>

subsection \<open>The calls of the helpers\<close>

lemma wp_recorded_setSyncStatus [wp_rules]:
  assumes "\<And>res s'. Q res (s', l)" "\<And>res c e s'. Q res (s', l @ [CRCall (CStatus c) e])"
  shows "wp (setSyncStatus (recorded_reconciler r) cr ct st reason msg) Q (s, l)"
  unfolding setSyncStatus_def
  by (auto intro!: wp_rules assms)

lemma wp_recorded_get_account [wp_rules]:
  assumes "\<And>res e s'. Q res (s', l @ [AccountCall (CGet (object_key obj)) e])"
  shows "wp (get_object (recorded_client AccountCall c) obj) Q (s, l)"
  unfolding get_object_def
  by (auto intro!: wp_rules assms split: sum.split)

lemma wp_recorded_get_secret [wp_rules]:
  assumes "\<And>res e s'. Q res (s', l @ [SecretCall (CGet (object_key obj)) e])"
  shows "wp (get_object (recorded_client SecretCall c) obj) Q (s, l)"
  unfolding get_object_def
  by (auto intro!: wp_rules assms split: sum.split)

lemma wp_recorded_getRegistry [wp_rules]:
  assumes "\<And>res e s'. Q res (s', l @ [RegistryCall (CGet k) e])"
  shows "wp (getRegistry (recorded_reconciler r) k) Q (s, l)"
  unfolding getRegistry_def
  by (auto intro!: wp_rules assms split: sum.split)

subsection \<open>What a reconciliation may do\<close>

definition status_calls :: "secret_event list \<Rightarrow> bool" where
  "status_calls l \<longleftrightarrow> l = [] \<or> (\<exists>c e. l = [CRCall (CStatus c) e])"

text \<open>A deleted resource: its accounts go first, and only then its finalizer.\<close>

definition finalizing :: "'s ReconcileImageSecret \<Rightarrow> NamespacedName \<Rightarrow> ImageSecret \<Rightarrow> secret_event list \<Rightarrow> bool" where
  "finalizing r request cr l \<longleftrightarrow>
     (let ns = RegistryNamespace (Status cr);
          released = cr\<lparr>Finalizers := RemoveFinalizer (lib r) finalizer (Finalizers cr)\<rparr>;
          delete = CDeleteAll (SelectorFromSet (lib r) [(AccountLabel (cfg r), NNString (lib r) request)]) ns in
      if \<not> HasFinalizer cr finalizer then l = []
      else if ns = [] then (\<exists>e. l = [CRCall (CUpdate released) e])
      else (\<exists>e. l = [AccountCall delete None, CRCall (CUpdate released) e]) \<or>
           (\<exists>e. e \<noteq> None \<and> l = [AccountCall delete e]))"

text \<open>A new resource: it gets the finalizer, before anything is created for it.\<close>

definition adopting :: "'s ReconcileImageSecret \<Rightarrow> ImageSecret \<Rightarrow> secret_event list \<Rightarrow> bool" where
  "adopting r cr l \<longleftrightarrow> (\<exists>e st.
     l = CRCall (CUpdate (cr\<lparr>Finalizers := AddFinalizer (lib r) finalizer (Finalizers cr)\<rparr>)) e # st \<and>
     status_calls st \<and> (e = None \<longrightarrow> st = []))"

text \<open>A live resource: reads, then possibly a rotation, then possibly a status update.\<close>

definition is_read :: "secret_event \<Rightarrow> bool" where
  "is_read ev \<longleftrightarrow> (case ev of
     CRCall c _ \<Rightarrow> \<not> is_write c | RegistryCall c _ \<Rightarrow> \<not> is_write c
   | AccountCall c _ \<Rightarrow> \<not> is_write c | SecretCall c _ \<Rightarrow> \<not> is_write c)"

definition syncing :: "'s ReconcileImageSecret \<Rightarrow> ImageSecret \<Rightarrow> secret_event list \<Rightarrow> bool" where
  "syncing r cr l \<longleftrightarrow> (\<exists>reads rot st registry secret. l = reads @ rot @ st \<and> list_all is_read reads \<and>
     (rot = [] \<or> (\<exists>p. rotation_run r (snd (getRegistryKeyForCR r cr)) registry secret Pending rot = Some p)) \<and>
     status_calls st)"

definition reconcile_calls ::
  "'s ReconcileImageSecret \<Rightarrow> NamespacedName \<Rightarrow> ImageSecret \<Rightarrow> secret_event list \<Rightarrow> bool" where
  "reconcile_calls r request cr l \<longleftrightarrow>
     (if \<not> IsZero (DeletionTimestamp cr) then finalizing r request cr l
      else if \<not> HasFinalizer cr finalizer then adopting r cr l
      else syncing r cr l)"

lemma finalize_calls:
  "wp (finalize_secret (recorded_reconciler r) request cr)
     (\<lambda>res (s', l'). \<exists>l1. l' = l @ l1 \<and> finalizing r request cr l1) (s, l)"
  unfolding finalize_secret_def deleteOrphanAccounts_def
  by (auto intro!: wp_rules simp: finalizing_def Let_def split: option.split)

lemma add_finalizer_calls:
  "wp (add_finalizer (recorded_reconciler r) cr)
     (\<lambda>res (s', l'). \<exists>l1. l' = l @ l1 \<and> adopting r cr l1) (s, l)"
  unfolding add_finalizer_def
  by (auto intro!: wp_rules simp: adopting_def status_calls_def split: option.split)

lemma syncingI:
  assumes "list_all is_read reads" "status_calls st"
    and "rot = [] \<or> rotation_run r (snd (getRegistryKeyForCR r cr)) registry secret Pending rot \<noteq> None"
  shows "syncing r cr (reads @ rot @ st)"
  using assms unfolding syncing_def by blast

lemma sync_calls:
  "wp (sync_secret (recorded_reconciler r) cr)
     (\<lambda>res (s', l'). \<exists>l1. l' = l @ l1 \<and> syncing r cr l1) (s, l)"
proof -
  obtain k cr' where key: "getRegistryKeyForCR r cr = (k, cr')" by fastforce
  have reads: "syncing r cr (reads @ st)" if "list_all is_read reads" "status_calls st" for reads st
    using syncingI [of reads st "[]"] that by simp
  have rot: "syncing r cr (reads @ rot @ st)"
    if "follows_protocol r cr' registry secret res rot" "list_all is_read reads" "status_calls st"
    for registry secret res rot reads st
    using syncingI [of reads st rot r cr registry secret] that by (simp add: key follows_protocol_def)
  let ?reads = "\<lambda>k1 e1 k2 e2 k3 e3. [RegistryCall (CGet k1) e1, AccountCall (CGet k2) e2, SecretCall (CGet k3) e3]"
  have ends: "syncing r cr [RegistryCall (CGet k1) e1]"
    "syncing r cr [RegistryCall (CGet k1) e1, CRCall (CStatus c) e]"
    "syncing r cr [RegistryCall (CGet k1) e1, AccountCall (CGet k2) e2]"
    "syncing r cr (?reads k1 e1 k2 e2 k3 e3)"
    "syncing r cr (?reads k1 e1 k2 e2 k3 e3 @ [CRCall (CStatus c) e])" for k1 e1 k2 e2 k3 e3 c e
    using reads [of "[RegistryCall (CGet k1) e1]" "[]"]
      reads [of "[RegistryCall (CGet k1) e1]" "[CRCall (CStatus c) e]"]
      reads [of "[RegistryCall (CGet k1) e1, AccountCall (CGet k2) e2]" "[]"]
      reads [of "?reads k1 e1 k2 e2 k3 e3" "[]"]
      reads [of "?reads k1 e1 k2 e2 k3 e3" "[CRCall (CStatus c) e]"]
    by (simp_all add: is_read_def status_calls_def)
  have rots: "syncing r cr (?reads k1 e1 k2 e2 k3 e3 @ rot)"
    "syncing r cr (?reads k1 e1 k2 e2 k3 e3 @ rot @ [CRCall (CStatus c) e])"
    if "follows_protocol r cr' registry secret res rot"
    for registry secret res rot k1 e1 k2 e2 k3 e3 c e
    using rot [OF that, of "?reads k1 e1 k2 e2 k3 e3" "[]"]
      rot [OF that, of "?reads k1 e1 k2 e2 k3 e3" "[CRCall (CStatus c) e]"]
    by (simp_all add: is_read_def status_calls_def)
  show ?thesis
    unfolding sync_secret_def Let_def recorded_pure key prod.case
    by (auto intro!: wp_rules rotatePassword_follows simp: ends [simplified]
        split: sum.split option.split outcome.split) (erule rots [simplified])+
qed

text \<open>
  C15. What a reconciliation does is fixed by the resource it finds. Against any server: for
  a deleted resource with the finalizer it deletes the accounts in the last registry
  namespace and removes the finalizer only after that succeeded; for a resource without the
  finalizer it only adds it (and reports a failure in the status); for a live resource it
  reads the registry, the account and the secret, then makes at most one rotation, which
  follows the protocol, then at most one status update. So no account and no secret is
  ever written for a resource that has no finalizer or is being deleted.
\<close>

theorem reconcile_protocol:
  assumes "run_state (Get (crs r) request) s = (Inr cr, s0)"
  shows "wp (SecretReconciler.Reconcile (recorded_reconciler r) request)
     (\<lambda>res (s', l). \<exists>l1. l = CRCall (CGet request) None # l1 \<and> reconcile_calls r request cr l1) (s, [])"
proof -
  have get: "wp (recorded (\<lambda>x. CRCall (CGet request) (err_of x)) (Get (crs r) request)) Q (s, []) =
      Q (Inr cr) (s0, [CRCall (CGet request) None])" for Q
    by (simp add: wp_def assms)
  have fin: "wp (finalize_secret (recorded_reconciler r) request cr) Q (s0, [ev])"
    if "\<And>res s' l1. finalizing r request cr l1 \<Longrightarrow> Q res (s', ev # l1)" for Q ev
    by (rule wp_mono [OF finalize_calls]) (use that in auto)
  have add: "wp (add_finalizer (recorded_reconciler r) cr) Q (s0, [ev])"
    if "\<And>res s' l1. adopting r cr l1 \<Longrightarrow> Q res (s', ev # l1)" for Q ev
    by (rule wp_mono [OF add_finalizer_calls]) (use that in auto)
  have sync: "wp (sync_secret (recorded_reconciler r) cr) Q (s0, [ev])"
    if "\<And>res s' l1. syncing r cr l1 \<Longrightarrow> Q res (s', ev # l1)" for Q ev
    by (rule wp_mono [OF sync_calls]) (use that in auto)
  show ?thesis
    unfolding SecretReconciler.Reconcile_def
    by (auto simp: get reconcile_calls_def intro!: fin add sync)
qed

subsection \<open>Rest and renewal\<close>

text \<open>What a reconciliation of a live resource with its finalizer reads, when all of it exists.\<close>

definition sees ::
  "'s ReconcileImageSecret \<Rightarrow> NamespacedName \<Rightarrow> ImageSecret \<Rightarrow> targetRegistry \<Rightarrow>
   ImageRegistryAccount \<Rightarrow> Secret \<Rightarrow> time \<Rightarrow> 's \<Rightarrow> bool" where
  "sees r request cr registry account secret now s \<longleftrightarrow>
     run_state (Get (crs r) request) s = (Inr cr, s) \<and>
     IsZero (DeletionTimestamp cr) \<and> HasFinalizer cr finalizer \<and>
     (let (k, cr') = getRegistryKeyForCR r cr; kind = CRFactory (cfg r) in
        run_state (getRegistry r k) s = (Inr registry, s) \<and>
        run_state (Get (accounts r) (NN (tr_Namespace registry) (accountNameForCR kind cr'))) s =
          (Inr account, s) \<and>
        run_state (Get (secrets r) (NN (Namespace cr') (secretNameForCR kind cr'))) s = (Inr secret, s) \<and>
        run_state (Now (lib r)) s = (now, s))"

text \<open>
  A resource at rest: the controller sees a live resource with its finalizer, a ready
  registry, the account and the secret, no reason to rotate, and a status that says so.
\<close>

definition settled ::
  "'s ReconcileImageSecret \<Rightarrow> NamespacedName \<Rightarrow> ImageSecret \<Rightarrow> targetRegistry \<Rightarrow>
   ImageRegistryAccount \<Rightarrow> Secret \<Rightarrow> time \<Rightarrow> 's \<Rightarrow> bool" where
  "settled r request cr registry account secret now s \<longleftrightarrow>
     sees r request cr registry account secret now s \<and>
     (let cr' = snd (getRegistryKeyForCR r cr) in
        \<not> rotation_due r cr' registry True account True secret now \<and>
        (\<exists>c. run_state (SetCondition (lib r) (mk_condition ConditionReady ConditionTrue [] [])
           (st_Conditions (Status cr'))) s = ((c, False), s)) \<and>
        st_ObservedGeneration (Status cr') = Generation cr')"

lemma object_key_new_secret [simp]: "object_key (new_secret ns n) = NN ns n"
  by (simp add: object_key_def)

lemma settled_run:
  assumes "settled r request cr registry account secret now s"
  shows "run_state (SecretReconciler.Reconcile r request) s =
     (Returned (Result (wrap64 (time_Sub (time_Add (CreationTimestamp account) (rotationInterval r)) now
        + 30 * Second)), None), s)"
proof -
  obtain k cr' where key: "getRegistryKeyForCR r cr = (k, cr')" by fastforce
  from assms obtain c where h: "run_state (Get (crs r) request) s = (Inr cr, s)"
    "IsZero (DeletionTimestamp cr)" "HasFinalizer cr finalizer"
    "run_state (getRegistry r k) s = (Inr registry, s)"
    "run_state (Get (accounts r) (NN (tr_Namespace registry) (accountNameForCR (CRFactory (cfg r)) cr'))) s =
      (Inr account, s)"
    "run_state (Get (secrets r) (NN (Namespace cr') (secretNameForCR (CRFactory (cfg r)) cr'))) s = (Inr secret, s)"
    "run_state (Now (lib r)) s = (now, s)"
    "\<not> rotation_due r cr' registry True account True secret now"
    "run_state (SetCondition (lib r) (mk_condition ConditionReady ConditionTrue [] [])
       (st_Conditions (Status cr'))) s = ((c, False), s)"
    "st_ObservedGeneration (Status cr') = Generation cr'"
    by (auto simp: settled_def sees_def key Let_def)
  show ?thesis
    unfolding run_iff_wp [of "SecretReconciler.Reconcile r request"] using h(2,3,8,10)
    by (simp add: SecretReconciler.Reconcile_def sync_secret_def key get_object_def
        setSyncStatus_def wp_run [OF h(1)] wp_run [OF h(4)] wp_run [OF h(5)] wp_run [OF h(6)]
        wp_run [OF h(7)] wp_run [OF h(9)])
qed

lemma renewal_delay:
  assumes "\<not> rotation_due r cr registry True account True secret now"
    and "CreationTimestamp account \<le> now" "0 \<le> rotationInterval r" "rotationInterval r \<le> maxDuration - 30 * Second"
  shows "wrap64 (time_Sub (time_Add (CreationTimestamp account) (rotationInterval r)) now + 30 * Second) =
      CreationTimestamp account + rotationInterval r - now + 30 * Second"
    and "now - CreationTimestamp account \<le> rotationInterval r"
proof -
  have "\<not> time_Sub now (CreationTimestamp account) > rotationInterval r"
    using assms(1) by (simp add: rotation_due_def Let_def)
  then show a: "now - CreationTimestamp account \<le> rotationInterval r"
    using assms(2-) by (auto simp: time_defs)
  have "time_Sub (time_Add (CreationTimestamp account) (rotationInterval r)) now =
      CreationTimestamp account + rotationInterval r - now"
    using a assms(2-) by (auto simp: time_defs)
  moreover have "minDuration \<le> CreationTimestamp account + rotationInterval r - now + 30 * Second"
    "CreationTimestamp account + rotationInterval r - now + 30 * Second \<le> maxDuration"
    using a assms(2-) by (auto simp: time_defs)
  ultimately show "wrap64 (time_Sub (time_Add (CreationTimestamp account) (rotationInterval r)) now + 30 * Second) =
      CreationTimestamp account + rotationInterval r - now + 30 * Second"
    by simp
qed

text \<open>
  C25. A resource at rest stays at rest until its renewal. When the account and the secret
  are there and fit each other, the registry and the rotation, a reconciliation changes
  nothing and succeeds, and it asks to be called again 30 seconds after the moment at which
  the account's age exceeds the rotation interval: never earlier than in 30 seconds and
  never later than the interval and 30 seconds.
\<close>

theorem at_rest_until_renewal:
  assumes "settled r request cr registry account secret now s"
    and "CreationTimestamp account \<le> now" "0 \<le> rotationInterval r"
    and "rotationInterval r \<le> maxDuration - 30 * Second"
  shows "\<exists>d. run_state (SecretReconciler.Reconcile r request) s = (Returned (Result d, None), s) \<and>
     now + d = CreationTimestamp account + rotationInterval r + 30 * Second \<and>
     30 * Second \<le> d \<and> d \<le> rotationInterval r + 30 * Second"
proof -
  have "\<not> rotation_due r (snd (getRegistryKeyForCR r cr)) registry True account True secret now"
    using assms(1) by (auto simp: settled_def split: prod.splits)
  from renewal_delay [OF this assms(2-4)] settled_run [OF assms(1)] assms(2) show ?thesis
    by simp
qed

subsection \<open>A failed rotation\<close>

text \<open>The reads of a run that comes to a rotation.\<close>

definition comes_to_rotation ::
  "'s ReconcileImageSecret \<Rightarrow> NamespacedName \<Rightarrow> ImageSecret \<Rightarrow> targetRegistry \<Rightarrow> Secret \<Rightarrow> 's \<Rightarrow> bool" where
  "comes_to_rotation r request cr registry secret s \<longleftrightarrow>
     (\<exists>cr0 k b account b' now. run_state (Get (crs r) request) s = (Inr cr0, s) \<and>
        IsZero (DeletionTimestamp cr0) \<and> HasFinalizer cr0 finalizer \<and>
        getRegistryKeyForCR r cr0 = (k, cr) \<and> run_state (getRegistry r k) s = (Inr registry, s) \<and>
        run_state (get_object (accounts r) (new_ImageRegistryAccount (tr_Namespace registry)
          (accountNameForCR (CRFactory (cfg r)) cr))) s = ((b, None, account), s) \<and>
        run_state (get_object (secrets r) (new_secret (Namespace cr)
          (secretNameForCR (CRFactory (cfg r)) cr))) s = ((b', None, secret), s) \<and>
        run_state (Now (lib r)) s = (now, s) \<and>
        rotation_due r cr registry b account b' secret now)"

text \<open>
  C37. A failed rotation is reported in the status only. When \<open>rotatePassword\<close> fails and the
  status update that says so succeeds, the reconciliation returns no error and no delay: the
  controller runtime sees a success, so it does not back off and does not call again. (The
  error of the rotation is overwritten by the result of \<open>setSyncStatus\<close>.)
\<close>

theorem rotation_failure_not_returned:
  assumes "comes_to_rotation r request cr registry secret s"
    and "run_state (rotatePassword r cr registry secret) s = (Returned (Some err, cr1), s1)"
    and "run_state (setSyncStatus r cr1 ConditionReady ConditionFalse ReasonFailedSync (Error err)) s1 =
      ((None, cr2), s2)"
  shows "run_state (SecretReconciler.Reconcile r request) s = (Returned (no_requeue, None), s2)"
proof -
  from assms(1) obtain cr0 k b account b' now where h:
    "run_state (Get (crs r) request) s = (Inr cr0, s)"
    "IsZero (DeletionTimestamp cr0)" "HasFinalizer cr0 finalizer"
    "getRegistryKeyForCR r cr0 = (k, cr)" "run_state (getRegistry r k) s = (Inr registry, s)"
    "run_state (get_object (accounts r) (new_ImageRegistryAccount (tr_Namespace registry)
          (accountNameForCR (CRFactory (cfg r)) cr))) s = ((b, None, account), s)"
    "run_state (get_object (secrets r) (new_secret (Namespace cr)
          (secretNameForCR (CRFactory (cfg r)) cr))) s = ((b', None, secret), s)"
    "run_state (Now (lib r)) s = (now, s)"
    "rotation_due r cr registry b account b' secret now"
    unfolding comes_to_rotation_def by blast
  show ?thesis
    unfolding run_iff_wp [of "SecretReconciler.Reconcile r request"] using h(2,3,9)
    by (simp add: SecretReconciler.Reconcile_def sync_secret_def h(4) wp_run [OF h(1)] wp_run [OF h(5)]
        wp_run [OF h(6)] wp_run [OF h(7)] wp_run [OF h(8)] wp_run [OF assms(2)] wp_run [OF assms(3)])
qed

text \<open>A run that comes to a rotation is the rotation, followed by the report of its result.\<close>

definition rotate_and_report ::
  "'s ReconcileImageSecret \<Rightarrow> ImageSecret \<Rightarrow> targetRegistry \<Rightarrow> Secret \<Rightarrow> ('s, unit) state" where
  "rotate_and_report r cr registry secret = do {
     p \<leftarrow> rotatePassword r cr registry secret;
     case p of
       Panicked _ \<Rightarrow> ret ()
     | Returned q \<Rightarrow> do {
         _ \<leftarrow> (case fst q of
           None \<Rightarrow> setSyncStatus r (snd q) ConditionReady ConditionTrue [] []
         | Some err \<Rightarrow> setSyncStatus r (snd q) ConditionReady ConditionFalse ReasonFailedSync (Error err));
         ret ()
       }
   }"

lemma comes_to_rotation_rotates:
  assumes "comes_to_rotation r request cr registry secret s"
  shows "snd (run_state (SecretReconciler.Reconcile r request) s) = snd (run_state (rotate_and_report r cr registry secret) s)"
proof -
  from assms obtain cr0 k b account b' now where h:
    "run_state (Get (crs r) request) s = (Inr cr0, s)"
    "IsZero (DeletionTimestamp cr0)" "HasFinalizer cr0 finalizer"
    "getRegistryKeyForCR r cr0 = (k, cr)" "run_state (getRegistry r k) s = (Inr registry, s)"
    "run_state (get_object (accounts r) (new_ImageRegistryAccount (tr_Namespace registry)
          (accountNameForCR (CRFactory (cfg r)) cr))) s = ((b, None, account), s)"
    "run_state (get_object (secrets r) (new_secret (Namespace cr)
          (secretNameForCR (CRFactory (cfg r)) cr))) s = ((b', None, secret), s)"
    "run_state (Now (lib r)) s = (now, s)"
    "rotation_due r cr registry b account b' secret now"
    unfolding comes_to_rotation_def by blast
  have "wp (SecretReconciler.Reconcile r request) (\<lambda>_ s'. s' = snd (run_state (rotate_and_report r cr registry secret) s)) s"
    using h(2,3,9)
    by (simp add: SecretReconciler.Reconcile_def sync_secret_def h(4) wp_run [OF h(1)] wp_run [OF h(5)]
        wp_run [OF h(6)] wp_run [OF h(7)] wp_run [OF h(8)])
      (auto intro!: wp_runI simp: rotate_and_report_def split: outcome.split option.splits prod.splits)
  then show ?thesis by (simp add: wp_def split: prod.splits)
qed

subsection \<open>Rotation before expiry\<close>

text \<open>
  The durations of a configured reconciler: an account lives at least a nanosecond and the
  rotation interval is half of its life time, rounded down; without \<open>OPERATOR_SECRET_TTL\<close>
  they are 24 and 12 hours.
\<close>

lemma configured_durations:
  assumes "NewReconciler Getenv ns ParseDuration c base = Returned r"
  shows "1 \<le> accountTTL r" "rotationInterval r = accountTTL r div 2"
    and "Getenv EnvSecretTTL = [] \<Longrightarrow> accountTTL r = 24 * Hour"
proof -
  from assms obtain ref ttl where ttl: "accountTTLFromEnv Getenv ParseDuration = Returned ttl"
    and r: "r = base\<lparr>cfg := c, defaultRegistry := ref, accountTTL := ttl,
       rotationInterval := quot ttl 2, dnsZone := DNSZone Getenv\<rparr>"
    by (auto simp: NewReconciler_def split: outcome.splits)
  have "1 \<le> ttl" "Getenv EnvSecretTTL = [] \<Longrightarrow> ttl = 24 * Hour"
    using ttl by (auto simp: accountTTLFromEnv_def defaultAccountTTL_def Let_def time_defs
        split: if_splits sum.splits)
  then show "1 \<le> accountTTL r" "rotationInterval r = accountTTL r div 2"
    "Getenv EnvSecretTTL = [] \<Longrightarrow> accountTTL r = 24 * Hour"
    by (simp_all add: r quot_def)
qed

lemma get_object_exists:
  assumes "run_state (Get c (object_key obj)) s = (Inr x, s)"
  shows "run_state (get_object c obj) s = ((True, None, x), s)"
  unfolding run_iff_wp get_object_def wp_bind wp_run [OF assms] by simp

lemma comes_to_rotation_sees:
  assumes "sees r request cr registry account secret t s"
    and "rotation_due r (snd (getRegistryKeyForCR r cr)) registry True account True secret t"
  shows "comes_to_rotation r request (snd (getRegistryKeyForCR r cr)) registry secret s"
proof -
  obtain k cr' where key: "getRegistryKeyForCR r cr = (k, cr')" by fastforce
  have request_cr: "snd (getRegistryKeyForCR r cr) = cr'" by (simp add: key)
  from assms(1) have h: "run_state (Get (crs r) request) s = (Inr cr, s)"
    "IsZero (DeletionTimestamp cr)" "HasFinalizer cr finalizer" "run_state (getRegistry r k) s = (Inr registry, s)"
    "run_state (Get (accounts r) (object_key (new_ImageRegistryAccount (tr_Namespace registry)
       (accountNameForCR (CRFactory (cfg r)) cr')))) s = (Inr account, s)"
    "run_state (Get (secrets r) (object_key (new_secret (Namespace cr') (secretNameForCR (CRFactory (cfg r)) cr')))) s =
       (Inr secret, s)" "run_state (Now (lib r)) s = (t, s)"
    by (auto simp: sees_def key Let_def)
  show ?thesis
    using key h(1-4,7) assms(2) get_object_exists [OF h(5)] get_object_exists [OF h(6)]
    unfolding comes_to_rotation_def request_cr by blast
qed

text \<open>
  C33. Credentials are rotated before their account expires. A reconciler that
  \<open>NewReconciler\<close> configures and that finds a resource at rest asks to be called again in such a time that,
  whenever it is called then or later and finds the same objects, it rotates; and at that
  time the account has not expired, unless its life time is below one minute: the interval is
  half of the life time, and the delay has 30 seconds more.
\<close>

theorem rotation_before_expiry:
  assumes "NewReconciler Getenv ns ParseDuration c base = Returned r" and "accountTTL r \<le> maxDuration"
    and "settled r request cr registry account secret now s"
    and "CreationTimestamp account \<le> now" and "acc_TTL account = Some (accountTTL r)"
  shows "\<exists>d. run_state (SecretReconciler.Reconcile r request) s = (Returned (Result d, None), s) \<and>
    (\<forall>t s'. now + d \<le> t \<longrightarrow> sees r request cr registry account secret t s' \<longrightarrow>
       snd (run_state (SecretReconciler.Reconcile r request) s') =
       snd (run_state (rotate_and_report r (snd (getRegistryKeyForCR r cr)) registry secret) s')) \<and>
    (ExpiredAt (now + d) account \<longleftrightarrow> accountTTL r < Minute - 1)"
proof -
  note durations = configured_durations [OF assms(1)]
  have i: "0 \<le> rotationInterval r" "rotationInterval r \<le> maxDuration - 30 * Second"
    using durations(1,2) assms(2) by (simp_all add: time_defs)
  have "\<not> rotation_due r (snd (getRegistryKeyForCR r cr)) registry True account True secret now"
    using assms(3) by (simp add: settled_def Let_def)
  note delay = renewal_delay [OF this assms(4) i]
  let ?d = "CreationTimestamp account + rotationInterval r - now + 30 * Second"
  have run: "run_state (SecretReconciler.Reconcile r request) s = (Returned (Result ?d, None), s)"
    using settled_run [OF assms(3)] by (simp add: delay(1))
  have due: "rotation_due r (snd (getRegistryKeyForCR r cr)) registry True account True secret t" if "now + ?d \<le> t" for t
    using that i by (auto simp: rotation_due_def Let_def time_defs)
  have rotates: "\<forall>t s'. now + ?d \<le> t \<longrightarrow> sees r request cr registry account secret t s' \<longrightarrow>
       snd (run_state (SecretReconciler.Reconcile r request) s') =
       snd (run_state (rotate_and_report r (snd (getRegistryKeyForCR r cr)) registry secret) s')"
    by (intro allI impI comes_to_rotation_rotates comes_to_rotation_sees, assumption) (erule due)
  have expiry: "ExpiredAt (now + ?d) account \<longleftrightarrow> accountTTL r < Minute - 1"
  proof -
    have "2 * (accountTTL r div 2) \<le> accountTTL r" "accountTTL r \<le> 2 * (accountTTL r div 2) + 1"
      by simp_all
    then show ?thesis
      by (auto simp: ExpiredAt_def assms(5) durations(2) time_defs)
  qed
  show ?thesis by (intro exI [of _ ?d] conjI run rotates expiry)
qed

end
