(* ===== verification/SecretConvergence.thy ===== *)
theory SecretConvergence
  imports SecretSync
begin

text \<open>
  The image secret controller run on the API server in memory (\<open>cluster_reconciler\<close>): one
  reconciliation of a resource whose registry is ready, and whose next rotation nothing is in
  the way of, ends with the resource at rest, with an account and a secret that fit each
  other. A rotation that fails is counted, and changes no secret.
\<close>

subsection \<open>A rotation on the cluster\<close>

lemma cluster_reconciler_simps [simp]:
  "crs (cluster_reconciler c) = cluster_crs" "registries (cluster_reconciler c) = cluster_registries"
  "accounts (cluster_reconciler c) = cluster_accounts" "secrets (cluster_reconciler c) = cluster_secrets"
  "cacheGet (cluster_reconciler c) = Get cluster_secrets" "lib (cluster_reconciler c) = cluster_lib"
  "random (cluster_reconciler c) = cluster_random" "BcryptPassword (cluster_reconciler c) = cluster_bcrypt"
  "cfg (cluster_reconciler c) = c" "rotationInterval (cluster_reconciler c) = 12 * Hour"
  "accountTTL (cluster_reconciler c) = 24 * Hour" "dnsZone (cluster_reconciler c) = ''svc.cluster.local''"
  by (simp_all add: cluster_reconciler_def)

lemma run_cluster_status [simp]:
  "run_state (StatusUpdate cluster_crs x) s =
     (case all_crs s (object_key x) of
        None \<Rightarrow> ((Some (ErrNotFound ''not found''), x), s)
      | Some _ \<Rightarrow> ((None, x), s\<lparr>all_crs := (all_crs s)(object_key x \<mapsto> x), next_uid := Suc (next_uid s)\<rparr>))"
  by (simp add: cluster_crs_def mem_client_def)

lemma run_cluster_create_account [simp]:
  "run_state (Create cluster_accounts x) s =
     (case all_accounts s (object_key x) of
        Some _ \<Rightarrow> ((Some (ErrOther ''already exists''), x), s)
      | None \<Rightarrow> ((None, complete_object s x),
          s\<lparr>all_accounts := (all_accounts s)(object_key x \<mapsto> complete_object s x), next_uid := Suc (next_uid s)\<rparr>))"
  by (simp add: cluster_accounts_def mem_client_def Let_def split: option.split)

lemma run_cluster_create_secret [simp]:
  "run_state (Create cluster_secrets x) s =
     (case all_secrets s (object_key x) of
        Some _ \<Rightarrow> ((Some (ErrOther ''already exists''), x), s)
      | None \<Rightarrow> ((None, complete_object s x),
          s\<lparr>all_secrets := (all_secrets s)(object_key x \<mapsto> complete_object s x), next_uid := Suc (next_uid s)\<rparr>))"
  by (simp add: cluster_secrets_def mem_client_def Let_def split: option.split)

lemma run_cluster_update_secret [simp]:
  "run_state (Update cluster_secrets x) s =
     (case all_secrets s (object_key x) of
        None \<Rightarrow> ((Some (ErrNotFound ''not found''), x), s)
      | Some _ \<Rightarrow> ((None, x), s\<lparr>all_secrets := (all_secrets s)(object_key x \<mapsto> x), next_uid := Suc (next_uid s)\<rparr>))"
  by (simp add: cluster_secrets_def mem_client_def)

lemma run_cluster_get [simp]:
  "run_state (Get cluster_crs k) s =
     (case all_crs s k of None \<Rightarrow> Inl (ErrNotFound ''not found'') | Some x \<Rightarrow> Inr x, s)"
  "run_state (Get cluster_registries k) s =
     (case all_registries s k of None \<Rightarrow> Inl (ErrNotFound ''not found'') | Some x' \<Rightarrow> Inr x', s)"
  "run_state (Get cluster_accounts k) s =
     (case all_accounts s k of None \<Rightarrow> Inl (ErrNotFound ''not found'') | Some y \<Rightarrow> Inr y, s)"
  "run_state (Get cluster_secrets k) s =
     (case all_secrets s k of None \<Rightarrow> Inl (ErrNotFound ''not found'') | Some z \<Rightarrow> Inr z, s)"
  by (simp_all add: cluster_clients mem_client_def)

lemma run_cluster_now [simp]: "run_state (Now cluster_lib) s = (clock s, s)"
  by (simp add: cluster_lib_def)

lemma wp_cluster:
  "wp (Now cluster_lib) Q1 s = Q1 (clock s) s"
  "wp (cluster_bcrypt pw) Q2 s = Q2 (Inr (''hash:'' @ pw)) s"
  "wp (StatusUpdate cluster_crs x) Q3 s = (case all_crs s (object_key x) of
     None \<Rightarrow> Q3 (Some (ErrNotFound ''not found''), x) s
   | Some _ \<Rightarrow> Q3 (None, x) (s\<lparr>all_crs := (all_crs s)(object_key x \<mapsto> x), next_uid := Suc (next_uid s)\<rparr>))"
  "wp (Create cluster_accounts y) Q4 s = (case all_accounts s (object_key y) of
     Some _ \<Rightarrow> Q4 (Some (ErrOther ''already exists''), y) s
   | None \<Rightarrow> Q4 (None, complete_object s y)
       (s\<lparr>all_accounts := (all_accounts s)(object_key y \<mapsto> complete_object s y), next_uid := Suc (next_uid s)\<rparr>))"
  "wp (Create cluster_secrets z) Q5 s = (case all_secrets s (object_key z) of
     Some _ \<Rightarrow> Q5 (Some (ErrOther ''already exists''), z) s
   | None \<Rightarrow> Q5 (None, complete_object s z)
       (s\<lparr>all_secrets := (all_secrets s)(object_key z \<mapsto> complete_object s z), next_uid := Suc (next_uid s)\<rparr>))"
  "wp (Update cluster_secrets z) Q5 s = (case all_secrets s (object_key z) of
     None \<Rightarrow> Q5 (Some (ErrNotFound ''not found''), z) s
   | Some _ \<Rightarrow> Q5 (None, z) (s\<lparr>all_secrets := (all_secrets s)(object_key z \<mapsto> z), next_uid := Suc (next_uid s)\<rparr>))"
  by (simp_all add: wp_def cluster_bcrypt_def split: option.split)

lemma complete_object_simps [simp]:
  "object_key (complete_object s x) = object_key x" "CreationTimestamp (complete_object s x) = clock s"
  "Name (complete_object s x) = Name x"
  "Annotations (complete_object s x) = Annotations x"
  by (simp_all add: complete_object_def object_key_def)

lemma Data_complete [simp]: "Data (complete_object s x) = Data x"
  by (simp add: complete_object_def)

lemma wp_orphans:
  assumes "\<And>s' e. s' = s\<lparr>all_accounts := all_accounts s', next_uid := next_uid s'\<rparr> \<Longrightarrow>
      \<forall>n. all_accounts s' (NN ns' n) = all_accounts s (NN ns' n) \<Longrightarrow> Q e s'"
    and "ns' \<noteq> ns"
  shows "wp (deleteOrphanAccounts (cluster_reconciler c) nn ns) Q s"
  using assms(2) by (auto simp: deleteOrphanAccounts_def cluster_accounts_def mem_client_def wp_def
      intro!: assms(1) split: option.split)

text \<open>
  What a rotation leaves behind: the counted resource, an account of its name, and a secret
  with the annotation and the data for the registry.
\<close>

definition rotated ::
  "ReconcileImageSecretConfig \<Rightarrow> ImageSecret \<Rightarrow> targetRegistry \<Rightarrow> NamespacedName \<Rightarrow> cluster \<Rightarrow> ImageSecret \<Rightarrow> cluster \<Rightarrow> bool" where
  "rotated c cr registry own s cr1 s' \<longleftrightarrow>
     cr1 = next_rotation cr (clock s) (tr_Namespace registry) \<and>
     clock s' = clock s \<and> all_registries s' = all_registries s \<and>
     all_crs s' = (all_crs s)(object_key cr \<mapsto> cr1) \<and>
     (\<exists>a. all_accounts s' (NN (tr_Namespace registry) (accountNameForCR (CRFactory c) cr1)) = Some a \<and>
        CreationTimestamp a = clock s) \<and>
     (\<exists>x. all_secrets s' = (all_secrets s)(own \<mapsto> x) \<and>
        map_get (Annotations x) annotationSecretRotation = FormatInt (Rotation (Status cr1)) \<and>
        Annotations x \<noteq> None \<and>
        map_get (Data x) SecretKeyRegistry = tr_Hostname registry \<and>
        map_get (Data x) SecretKeyCaCert = tr_CA registry)"

definition ready_to_rotate ::
  "ReconcileImageSecretConfig \<Rightarrow> ImageSecret \<Rightarrow> targetRegistry \<Rightarrow> NamespacedName \<Rightarrow> Secret \<Rightarrow> cluster \<Rightarrow> bool" where
  "ready_to_rotate c cr registry own secret s \<longleftrightarrow>
     standard_config c \<and> all_crs s (object_key cr) \<noteq> None \<and> object_key secret = own \<and>
     (UID secret = [] \<longleftrightarrow> all_secrets s own = None) \<and>
     (\<forall>ref \<in> set (OwnerReferences secret). or_Controller ref = Some True \<longrightarrow> or_UID ref = UID cr) \<and>
     all_accounts s (NN (tr_Namespace registry)
       (accountNameForCR (CRFactory c) (next_rotation cr (clock s) (tr_Namespace registry)))) = None"

lemma next_rotation_simps [simp]:
  "object_key (next_rotation cr now ns) = object_key cr" "UID (next_rotation cr now ns) = UID cr"
  "Finalizers (next_rotation cr now ns) = Finalizers cr"
  "DeletionTimestamp (next_rotation cr now ns) = DeletionTimestamp cr"
  "Namespace (next_rotation cr now ns) = Namespace cr" "Name (next_rotation cr now ns) = Name cr"
  "Generation (next_rotation cr now ns) = Generation cr"
  "RegistryRef (next_rotation cr now ns) = RegistryRef cr"
  by (simp_all add: next_rotation_def object_key_def)

lemma fill_secret_simps [simp]:
  "object_key (fill_secret r cr registry a pw x) = object_key x"
  "OwnerReferences (fill_secret r cr registry a pw x) = OwnerReferences x"
  "\<exists>m. Annotations (fill_secret r cr registry a pw x) = Some m"
  by (simp_all add: fill_secret_def object_key_def)

lemma fill_secret_Data:
  assumes "standard_config (cfg r)"
  shows "map_get (Data (fill_secret r cr registry a pw x)) SecretKeyRegistry = tr_Hostname registry"
    "map_get (Data (fill_secret r cr registry a pw x)) SecretKeyCaCert = tr_CA registry"
  unfolding fill_secret_def standard_config_key [OF assms]
  by (simp_all add: secret_keys map_get_def)

lemma cluster_SetControllerReference:
  assumes "\<forall>ref \<in> set (OwnerReferences x). or_Controller ref = Some True \<longrightarrow> or_UID ref = UID owner"
  shows "\<exists>refs. SetControllerReference cluster_lib (kobject.truncate owner) (kobject.truncate x) = Inr refs"
  using assms by (auto simp: cluster_lib_def kobject.truncate_def list_ex_iff)

text \<open>The writes of a rotation, once it has a password and the old accounts are cleaned up.\<close>

definition rotation_writes ::
  "ReconcileImageSecretConfig \<Rightarrow> ImageSecret \<Rightarrow> targetRegistry \<Rightarrow> Secret \<Rightarrow> string \<Rightarrow> string \<Rightarrow>
   (cluster, (go_error option \<times> ImageSecret) outcome) state" where
  "rotation_writes c cr registry secret pw h = do {
     now \<leftarrow> Now cluster_lib;
     u \<leftarrow> StatusUpdate cluster_crs (next_rotation cr now (tr_Namespace registry));
     case fst u of
       Some err \<Rightarrow> ret (Returned (Some err, snd u))
     | None \<Rightarrow> do {
     a \<leftarrow> Create cluster_accounts (new_account (cluster_reconciler c) (snd u) registry h);
     case fst a of
       Some err \<Rightarrow> ret (Returned (Some err, snd u))
     | None \<Rightarrow>
        (let filled = fill_secret (cluster_reconciler c) (snd u) registry (snd a) pw secret in
         case SetControllerReference cluster_lib (kobject.truncate (snd u)) (kobject.truncate filled) of
           Inl err \<Rightarrow> ret (Returned (Some err, snd u))
         | Inr refs \<Rightarrow> do {
             w \<leftarrow> (if length (UID filled) = 0
                  then Create cluster_secrets (filled\<lparr>OwnerReferences := refs\<rparr>)
                  else Update cluster_secrets (filled\<lparr>OwnerReferences := refs\<rparr>));
             ret (Returned (fst w, snd u))
           }) } }"

text \<open>The clean-up is in another namespace than the one of the registry.\<close>

definition cleaned_up :: "string \<Rightarrow> cluster \<Rightarrow> cluster \<Rightarrow> bool" where
  "cleaned_up ns s s0 \<longleftrightarrow> s0 = s\<lparr>all_accounts := all_accounts s0, next_uid := next_uid s0\<rparr> \<and>
     (\<forall>n. all_accounts s0 (NN ns n) = all_accounts s (NN ns n))"

lemma cleaned_up_same:
  assumes "cleaned_up ns s s0"
  shows "all_crs s0 = all_crs s" "clock s0 = clock s" "all_secrets s0 = all_secrets s"
    "all_registries s0 = all_registries s" "all_accounts s0 (NN ns n) = all_accounts s (NN ns n)"
proof -
  have s0: "s0 = s\<lparr>all_accounts := all_accounts s0, next_uid := next_uid s0\<rparr>"
    using assms unfolding cleaned_up_def by (rule conjunct1)
  show "all_crs s0 = all_crs s" "clock s0 = clock s" "all_secrets s0 = all_secrets s"
    "all_registries s0 = all_registries s"
    by (subst s0, simp)+
  show "all_accounts s0 (NN ns n) = all_accounts s (NN ns n)"
    using assms unfolding cleaned_up_def by blast
qed

lemma cluster_rotation_starts:
  assumes "\<And>s0 pw h. cleaned_up (tr_Namespace registry) s s0 \<Longrightarrow> wp (rotation_writes c cr registry secret pw h) Q s0"
  shows "wp (rotatePassword (cluster_reconciler c) cr registry secret) Q s"
proof -
  have clean: "wp (if RegistryNamespace (Status cr) \<noteq> [] \<and> RegistryNamespace (Status cr) \<noteq> tr_Namespace registry
      then deleteOrphanAccounts (cluster_reconciler c) nn (RegistryNamespace (Status cr)) else ret None) (\<lambda>_. R) (s\<lparr>next_uid := n\<rparr>)"
    if "\<And>s0. cleaned_up (tr_Namespace registry) s s0 \<Longrightarrow> R s0" for R nn n
    using that by (auto simp: cleaned_up_def intro!: wp_orphans [where ns' = "tr_Namespace registry"])
  show ?thesis
    unfolding rotatePassword_def cluster_reconciler_simps wp_bind
  proof (rule wp_cluster_password, goal_cases)
    case (1 pw n)
    show ?case
      unfolding wp_case_outcome outcome.case wp_bind wp_cluster(2) wp_case_sum sum.case
      by (rule clean) (rule assms [unfolded rotation_writes_def wp_bind])
  qed
qed

lemma cluster_rotation:
  assumes "ready_to_rotate c cr registry own secret s"
  shows "wp (rotatePassword (cluster_reconciler c) cr registry secret)
     (\<lambda>res s'. \<exists>cr1. res = Returned (None, cr1) \<and> rotated c cr registry own s cr1 s') s"
proof (rule cluster_rotation_starts)
  fix s0 pw h
  assume s0: "cleaned_up (tr_Namespace registry) s s0"
  let ?r = "cluster_reconciler c"
  let ?cr1 = "next_rotation cr (clock s) (tr_Namespace registry)"
  let ?new = "new_account ?r ?cr1 registry h"
  have std: "standard_config (cfg ?r)" using assms by (simp add: ready_to_rotate_def)
  have new: "all_accounts s0 (object_key ?new) = None"
    using assms by (simp add: ready_to_rotate_def cleaned_up_same [OF s0])
  have cr: "\<exists>x. all_crs s (object_key cr) = Some x" and own: "object_key secret = own"
    and uid: "UID secret = [] \<longleftrightarrow> all_secrets s own = None"
    and owners: "\<forall>ref \<in> set (OwnerReferences secret). or_Controller ref = Some True \<longrightarrow> or_UID ref = UID ?cr1"
    using assms by (auto simp: ready_to_rotate_def)
  have "\<exists>refs. SetControllerReference cluster_lib (kobject.truncate ?cr1)
      (kobject.truncate (fill_secret ?r ?cr1 registry a pw secret)) = Inr refs" for a
    by (rule cluster_SetControllerReference) (use owners in simp)
  then obtain refs where refs: "SetControllerReference cluster_lib (kobject.truncate ?cr1)
      (kobject.truncate (fill_secret ?r ?cr1 registry a pw secret)) = Inr (refs a)" for a
    by metis
  show "wp (rotation_writes c cr registry secret pw h)
      (\<lambda>res s'. \<exists>cr1. res = Returned (None, cr1) \<and> rotated c cr registry own s cr1 s') s0"
    using cr new uid
    by (auto simp: rotation_writes_def wp_cluster cleaned_up_same(1-4) [OF s0] refs own Let_def rotated_def
        fill_secret_Data [OF std] split: option.split)
qed

text \<open>
  A rotation that fails: the next account's name is taken, or the secret is controlled by
  another object. The rotation is counted nevertheless, and the secrets stay as they are.
\<close>

definition only_counted :: "ImageSecret \<Rightarrow> targetRegistry \<Rightarrow> cluster \<Rightarrow> cluster \<Rightarrow> bool" where
  "only_counted cr registry s s' \<longleftrightarrow> clock s' = clock s \<and> all_registries s' = all_registries s \<and> all_secrets s' = all_secrets s \<and>
     all_crs s' = (all_crs s)(object_key cr \<mapsto> next_rotation cr (clock s) (tr_Namespace registry))"

definition next_account_key :: "ReconcileImageSecretConfig \<Rightarrow> ImageSecret \<Rightarrow> string \<Rightarrow> time \<Rightarrow> NamespacedName" where
  "next_account_key c cr ns now = NN ns (accountNameForCR (CRFactory c) (next_rotation cr now ns))"

lemma cluster_rotation_fails:
  assumes "all_crs s (object_key cr) \<noteq> None"
    and "all_accounts s (next_account_key c cr (tr_Namespace registry) (clock s)) \<noteq> None \<or>
      (\<exists>ref \<in> set (OwnerReferences secret). or_Controller ref = Some True \<and> or_UID ref \<noteq> UID cr)"
  shows "wp (rotatePassword (cluster_reconciler c) cr registry secret) (\<lambda>res s'. \<exists>err.
      res = Returned (Some err, next_rotation cr (clock s) (tr_Namespace registry)) \<and> only_counted cr registry s s' \<and>
      (all_accounts s (next_account_key c cr (tr_Namespace registry) (clock s)) \<noteq> None \<longrightarrow>
        (\<forall>n. all_accounts s' (NN (tr_Namespace registry) n) = all_accounts s (NN (tr_Namespace registry) n)))) s"
proof (rule cluster_rotation_starts)
  fix s0 pw h
  assume s0: "cleaned_up (tr_Namespace registry) s s0"
  let ?r = "cluster_reconciler c"
  let ?cr1 = "next_rotation cr (clock s) (tr_Namespace registry)"
  have key: "object_key (new_account ?r ?cr1 registry h) = next_account_key c cr (tr_Namespace registry) (clock s)"
    by (simp add: next_account_key_def)
  show "wp (rotation_writes c cr registry secret pw h) (\<lambda>res s'. \<exists>err.
      res = Returned (Some err, ?cr1) \<and> only_counted cr registry s s' \<and>
      (all_accounts s (next_account_key c cr (tr_Namespace registry) (clock s)) \<noteq> None \<longrightarrow>
        (\<forall>n. all_accounts s' (NN (tr_Namespace registry) n) = all_accounts s (NN (tr_Namespace registry) n)))) s0"
  proof (cases "all_accounts s (next_account_key c cr (tr_Namespace registry) (clock s))")
    case None
    with assms(2) have "\<exists>e. SetControllerReference cluster_lib (kobject.truncate ?cr1)
        (kobject.truncate (fill_secret ?r ?cr1 registry a pw secret)) = Inl e" for a
      by (auto simp: cluster_lib_def list_ex_iff kobject.defs fill_secret_def)
    then obtain e where "SetControllerReference cluster_lib (kobject.truncate ?cr1)
        (kobject.truncate (fill_secret ?r ?cr1 registry a pw secret)) = Inl (e a)" for a by metis
    with None assms(1) show ?thesis
      by (auto simp: rotation_writes_def wp_cluster cleaned_up_same [OF s0] key only_counted_def Let_def next_account_key_def)
  next
    case (Some y)
    with assms(1) show ?thesis
      by (auto simp: rotation_writes_def wp_cluster cleaned_up_same [OF s0] key only_counted_def Let_def next_account_key_def)
  qed
qed

subsection \<open>A reconciliation on the cluster\<close>

lemma registry_key_again:
  assumes "getRegistryKeyForCR r cr = (k, cr')"
  shows "getRegistryKeyForCR r (cr'\<lparr>Status := st\<rparr>) = (k, cr'\<lparr>Status := st\<rparr>)"
    and "object_key cr' = object_key cr" "Finalizers cr' = Finalizers cr"
    "DeletionTimestamp cr' = DeletionTimestamp cr" "Status cr' = Status cr"
    "Generation cr' = Generation cr" "Namespace cr' = Namespace cr" "Name cr' = Name cr"
    "OwnerReferences cr' = OwnerReferences cr" "UID cr' = UID cr"
  using assms by (auto simp: getRegistryKeyForCR_def Let_def object_key_def split: option.splits if_splits)

definition found_registry :: "ImageRegistry \<Rightarrow> Secret \<Rightarrow> targetRegistry" where
  "found_registry regcr tls = \<lparr>tr_Namespace = Namespace regcr,
     tr_Hostname = RegistryHostname regcr ''svc.cluster.local'', tr_CA = map_get (Data tls) SecretKeyCaCert\<rparr>"

lemma run_getRegistry:
  assumes "all_registries s k = Some regcr" "IsTrueFor cluster_lib ConditionReady (reg_Conditions regcr)"
    and "all_secrets s (NN (nn_namespace k) (TLSSecretName regcr)) = Some tls"
  shows "run_state (getRegistry (cluster_reconciler c) k) s = (Inr (found_registry regcr tls), s)"
  using assms by (simp add: getRegistry_def found_registry_def)

lemma run_SetCondition:
  obtains cs b where "run_state (SetCondition cluster_lib (mk_condition t st re m) cs0) s = ((cs, b), s)"
    and "\<And>s. run_state (SetCondition cluster_lib (mk_condition t st re m) cs) s = ((cs, False), s)"
    and "\<not> b \<Longrightarrow> cs = cs0"
proof (cases "\<exists>d. cs0 t = Some d \<and> same_condition d (mk_condition t st re m)")
  case True
  then obtain d where "cs0 t = Some d" "same_condition d (mk_condition t st re m)" by blast
  then have "\<And>s. run_state (SetCondition cluster_lib (mk_condition t st re m) cs0) s = ((cs0, False), s)"
    by (simp add: cluster_lib_def fun_upd_idem)
  then show ?thesis using that by blast
next
  case False
  let ?c = "(mk_condition t st re m)\<lparr>LastTransitionTime := clock s\<rparr>"
  have "run_state (SetCondition cluster_lib (mk_condition t st re m) cs0) s = ((cs0(t \<mapsto> ?c), True), s)"
    using False by (cases "cs0 t") (simp_all add: cluster_lib_def)
  moreover have "same_condition ?c (mk_condition t st re m)" by (simp add: same_condition_def)
  then have "run_state (SetCondition cluster_lib (mk_condition t st re m) (cs0(t \<mapsto> ?c))) s' =
      ((cs0(t \<mapsto> ?c), False), s')" for s'
    by (simp add: cluster_lib_def)
  ultimately show ?thesis using that [of "cs0(t \<mapsto> ?c)" True] by simp
qed

text \<open>What the controller sees and needs in the world when it sets the final status.\<close>

definition in_sync ::
  "ReconcileImageSecretConfig \<Rightarrow> NamespacedName \<Rightarrow> ImageSecret \<Rightarrow> targetRegistry \<Rightarrow>
   ImageRegistryAccount \<Rightarrow> Secret \<Rightarrow> cluster \<Rightarrow> bool" where
  "in_sync c k cr registry a x s \<longleftrightarrow>
     run_state (getRegistry (cluster_reconciler c) k) s = (Inr registry, s) \<and>
     all_accounts s (NN (tr_Namespace registry) (accountNameForCR (CRFactory c) cr)) = Some a \<and>
     all_secrets s (NN (Namespace cr) (secretNameForCR (CRFactory c) cr)) = Some x \<and>
     \<not> rotation_due (cluster_reconciler c) cr registry True a True x (clock s)"

lemma in_sync_cong:
  assumes "in_sync c k cr registry a x s"
    and "s' = s\<lparr>all_crs := m, next_uid := n\<rparr>"
    and "Rotation (Status cr') = Rotation (Status cr)" "Namespace cr' = Namespace cr" "Name cr' = Name cr"
  shows "in_sync c k cr' registry a x s'"
  using assms(1,3-) unfolding assms(2)
  by (auto simp: in_sync_def accountNameForCR_def secretNameForCR_def rotation_due_def Let_def
      getRegistry_def split: sum.splits option.splits if_splits)

lemma settledI:
  assumes "in_sync c k cr' registry a x s" "all_crs s request = Some cr"
    and "getRegistryKeyForCR (cluster_reconciler c) cr = (k, cr')"
    and "IsZero (DeletionTimestamp cr)" "finalizer \<in> set (Finalizers cr)"
    and "run_state (SetCondition cluster_lib (mk_condition ConditionReady ConditionTrue [] [])
        (st_Conditions (Status cr'))) s = ((cs, False), s)"
    and "st_ObservedGeneration (Status cr') = Generation cr'"
  shows "settled (cluster_reconciler c) request cr registry a x (clock s) s"
  using assms by (auto simp: settled_def sees_def in_sync_def)

lemma cluster_sync_status:
  assumes "in_sync c k cr' registry a x s" "all_crs s request = Some cr"
    and "getRegistryKeyForCR (cluster_reconciler c) cr = (k, cr')"
    and "IsZero (DeletionTimestamp cr)" "finalizer \<in> set (Finalizers cr)" "object_key cr = request"
  shows "wp (setSyncStatus (cluster_reconciler c) cr' ConditionReady ConditionTrue [] [])
     (\<lambda>e s'. fst e = None \<and> (\<exists>cr1. settled (cluster_reconciler c) request cr1 registry a x (clock s') s')) s"
proof -
  note again = registry_key_again [OF assms(3)]
  obtain cs b where set: "run_state (SetCondition cluster_lib (mk_condition ConditionReady ConditionTrue [] [])
        (st_Conditions (Status cr'))) s = ((cs, b), s)"
    and set2: "\<And>s. run_state (SetCondition cluster_lib (mk_condition ConditionReady ConditionTrue [] []) cs) s =
        ((cs, False), s)"
    and same: "\<not> b \<Longrightarrow> cs = st_Conditions (Status cr')"
    using run_SetCondition [of ConditionReady ConditionTrue "[]" "[]" "st_Conditions (Status cr')" s]
    by blast
  show ?thesis
  proof (cases "b \<or> st_ObservedGeneration (Status cr') \<noteq> Generation cr'")
    case True
    let ?cr2 = "cr'\<lparr>Status := (Status cr')\<lparr>st_Conditions := cs, st_ObservedGeneration := Generation cr'\<rparr>\<rparr>"
    let ?s2 = "s\<lparr>all_crs := (all_crs s)(request \<mapsto> ?cr2), next_uid := Suc (next_uid s)\<rparr>"
    have sync: "in_sync c k ?cr2 registry a x ?s2"
      by (rule in_sync_cong [OF assms(1)]) simp_all
    have "settled (cluster_reconciler c) request ?cr2 registry a x (clock ?s2) ?s2"
      by (rule settledI [OF sync _ again(1)]) (use assms(4,5) again set2 in simp_all)
    moreover have "object_key ?cr2 = request" using again(2) assms(6) by (simp add: object_key_def)
    ultimately show ?thesis
      using True assms(2,6) again(2)
      by (auto simp: setSyncStatus_def wp_run [OF set] wp_cluster)
  next
    case False
    then have "settled (cluster_reconciler c) request cr registry a x (clock s) s"
      by (intro settledI [OF assms(1-5)]) (use set in auto)
    with False show ?thesis by (auto simp: setSyncStatus_def wp_run [OF set])
  qed
qed

text \<open>
  A resource that can be served: it is live, with its finalizer, its registry is ready and has
  its TLS secret, and what is stored under the key of its own secret, if anything, came from
  the server.
\<close>

abbreviation own_secret_key :: "ReconcileImageSecretConfig \<Rightarrow> ImageSecret \<Rightarrow> NamespacedName" where
  "own_secret_key c cr \<equiv> NN (Namespace cr) (secretNameForCR (CRFactory c) cr)"

definition servable ::
  "ReconcileImageSecretConfig \<Rightarrow> NamespacedName \<Rightarrow> ImageSecret \<Rightarrow> ImageRegistry \<Rightarrow> Secret \<Rightarrow> cluster \<Rightarrow> bool" where
  "servable c request cr regcr tls s \<longleftrightarrow>
     standard_config c \<and> all_crs s request = Some cr \<and> object_key cr = request \<and>
     IsZero (DeletionTimestamp cr) \<and> finalizer \<in> set (Finalizers cr) \<and>
     (let k = fst (getRegistryKeyForCR (cluster_reconciler c) cr) in
        all_registries s k = Some regcr \<and>
        IsTrueFor cluster_lib ConditionReady (reg_Conditions regcr) \<and>
        all_secrets s (NN (nn_namespace k) (TLSSecretName regcr)) = Some tls \<and>
        NN (nn_namespace k) (TLSSecretName regcr) \<noteq> own_secret_key c cr) \<and>
     (\<forall>x. all_secrets s (own_secret_key c cr) = Some x \<longrightarrow> object_key x = own_secret_key c cr \<and> UID x \<noteq> [])"

text \<open>Its secret is not controlled by another object.\<close>

definition foreign_secret :: "ImageSecret \<Rightarrow> Secret \<Rightarrow> bool" where
  "foreign_secret cr x \<longleftrightarrow> (\<exists>ref \<in> set (OwnerReferences x). or_Controller ref = Some True \<and> or_UID ref \<noteq> UID cr)"

definition uncontrolled :: "ReconcileImageSecretConfig \<Rightarrow> ImageSecret \<Rightarrow> cluster \<Rightarrow> bool" where
  "uncontrolled c cr s \<longleftrightarrow> (\<forall>x. all_secrets s (own_secret_key c cr) = Some x \<longrightarrow> \<not> foreign_secret cr x)"

text \<open>Nothing is in the way of the next rotation: no account has its name, either.\<close>

definition live_resource ::
  "ReconcileImageSecretConfig \<Rightarrow> NamespacedName \<Rightarrow> ImageSecret \<Rightarrow> ImageRegistry \<Rightarrow> Secret \<Rightarrow> cluster \<Rightarrow> bool" where
  "live_resource c request cr regcr tls s \<longleftrightarrow> servable c request cr regcr tls s \<and> uncontrolled c cr s \<and>
     all_accounts s (next_account_key c cr (Namespace regcr) (clock s)) = None"

lemmas live_resource_defs = live_resource_def servable_def uncontrolled_def foreign_secret_def next_account_key_def

lemma next_rotation_key:
  "getRegistryKeyForCR r cr = (k, cr') \<Longrightarrow>
   getRegistryKeyForCR r (next_rotation cr' now ns) = (k, next_rotation cr' now ns)"
  unfolding next_rotation_def by (rule registry_key_again)

lemma rotated_in_sync:
  assumes "rotated c cr' registry own s cr1 s'"
    and "own = NN (Namespace cr') (secretNameForCR (CRFactory c) cr')"
    and "\<And>t. all_registries t = all_registries s \<Longrightarrow> (\<forall>key. key \<noteq> own \<longrightarrow> all_secrets t key = all_secrets s key) \<Longrightarrow>
      run_state (getRegistry (cluster_reconciler c) k) t = (Inr registry, t)"
  obtains a x where "in_sync c k cr1 registry a x s'"
proof -
  from assms(1) obtain a x where r: "cr1 = next_rotation cr' (clock s) (tr_Namespace registry)"
    "clock s' = clock s" "all_registries s' = all_registries s"
    "all_accounts s' (NN (tr_Namespace registry) (accountNameForCR (CRFactory c) cr1)) = Some a"
    "CreationTimestamp a = clock s" "all_secrets s' = (all_secrets s)(own \<mapsto> x)"
    "map_get (Annotations x) annotationSecretRotation = FormatInt (Rotation (Status cr1))"
    "Annotations x \<noteq> None" "map_get (Data x) SecretKeyRegistry = tr_Hostname registry"
    "map_get (Data x) SecretKeyCaCert = tr_CA registry"
    by (auto simp: rotated_def)
  have "run_state (getRegistry (cluster_reconciler c) k) s' = (Inr registry, s')"
    by (rule assms(3)) (simp_all add: r)
  moreover have "\<not> rotation_due (cluster_reconciler c) cr1 registry True a True x (clock s')"
    using r by (simp add: rotation_due_def SecretKeyCaCert_def time_defs)
  ultimately have "in_sync c k cr1 registry a x s'"
    using r(1,4,6) assms(2) by (simp add: in_sync_def secretNameForCR_def)
  then show ?thesis by (rule that)
qed

text \<open>What the controller finds of a resource that can be served.\<close>

lemma servableD:
  assumes "servable c request cr regcr tls s" "getRegistryKeyForCR (cluster_reconciler c) cr = (k, cr')"
  shows "standard_config c" "all_crs s request = Some cr" "object_key cr' = request"
    "IsZero (DeletionTimestamp cr)" "finalizer \<in> set (Finalizers cr)" "own_secret_key c cr' = own_secret_key c cr"
    "\<And>x. all_secrets s (own_secret_key c cr) = Some x \<Longrightarrow> object_key x = own_secret_key c cr \<and> UID x \<noteq> []"
    "\<And>t. all_registries t = all_registries s \<Longrightarrow>
       (\<forall>key. key \<noteq> own_secret_key c cr \<longrightarrow> all_secrets t key = all_secrets s key) \<Longrightarrow>
       run_state (getRegistry (cluster_reconciler c) k) t = (Inr (found_registry regcr tls), t)"
  using assms(1) registry_key_again [OF assms(2)]
  by (auto simp: servable_def assms(2) Let_def secretNameForCR_def intro!: run_getRegistry)

text \<open>The secret that a rotation fills: the stored one, or a new one.\<close>

definition secret_to_fill :: "ReconcileImageSecretConfig \<Rightarrow> ImageSecret \<Rightarrow> cluster \<Rightarrow> Secret" where
  "secret_to_fill c cr s = (case all_secrets s (own_secret_key c cr) of
     None \<Rightarrow> new_secret (Namespace cr) (secretNameForCR (CRFactory c) cr) | Some x \<Rightarrow> x)"

text \<open>How a reconciliation ends after a rotation.\<close>

definition after_rotation ::
  "ReconcileImageSecretConfig \<Rightarrow> duration \<Rightarrow> (go_error option \<times> ImageSecret) outcome \<Rightarrow> (cluster, reconciled outcome) state" where
  "after_rotation c d p = (case p of
     Panicked m \<Rightarrow> ret (Panicked m)
   | Returned q \<Rightarrow>
     (case fst q of
       Some err \<Rightarrow> do {
         e \<leftarrow> setSyncStatus (cluster_reconciler c) (snd q) ConditionReady ConditionFalse ReasonFailedSync (Error err);
         ret (Returned (no_requeue, fst e))
       }
     | None \<Rightarrow> do {
         e \<leftarrow> setSyncStatus (cluster_reconciler c) (snd q) ConditionReady ConditionTrue [] [];
         case fst e of
           Some err \<Rightarrow> ret (Returned (no_requeue, Some err))
         | None \<Rightarrow> ret (Returned (Result d, None))
       }))"

definition at_rest ::
  "ReconcileImageSecretConfig \<Rightarrow> NamespacedName \<Rightarrow> ImageRegistry \<Rightarrow> Secret \<Rightarrow> cluster \<Rightarrow> bool" where
  "at_rest c request regcr tls s \<longleftrightarrow>
     (\<exists>cr a x. settled (cluster_reconciler c) request cr (found_registry regcr tls) a x (clock s) s)"

lemma at_restI:
  "settled (cluster_reconciler c) request cr (found_registry regcr tls) a x (clock s) s \<Longrightarrow> at_rest c request regcr tls s"
  unfolding at_rest_def by blast

text \<open>
  A reconciliation of a resource that can be served comes to a rotation, or finds the
  credentials in sync and reports it.
\<close>

lemma cluster_reconciles:
  assumes m: "servable c request cr regcr tls s" and key: "getRegistryKeyForCR (cluster_reconciler c) cr = (k, cr')"
    and rotates: "\<And>d. wp (rotatePassword (cluster_reconciler c) cr' (found_registry regcr tls) (secret_to_fill c cr s))
      (\<lambda>p. wp (after_rotation c d p) Q) s"
    and rests: "\<And>d s' a x. all_secrets s (own_secret_key c cr) = Some x \<Longrightarrow>
      \<not> rotation_due (cluster_reconciler c) cr' (found_registry regcr tls) True a True x (clock s) \<Longrightarrow>
      at_rest c request regcr tls s' \<Longrightarrow> Q (Returned (Result d, None)) s'"
  shows "wp (SecretReconciler.Reconcile (cluster_reconciler c) request) Q s"
proof -
  let ?r = "cluster_reconciler c" and ?reg = "found_registry regcr tls" and ?own = "own_secret_key c cr"
  note l = servableD [OF m key] and again = registry_key_again [OF key]
  have fill: "secret_to_fill c cr s = x" if "all_secrets s ?own = Some x" for x
    using that by (simp add: secret_to_fill_def)
  have new: "secret_to_fill c cr s = new_secret (Namespace cr') (secretNameForCR (CRFactory c) cr')"
    if "all_secrets s ?own = None"
    using that again by (simp add: secret_to_fill_def secretNameForCR_def)
  have request: "object_key cr = request" using l(3) again(2) by simp
  have rest: "wp (setSyncStatus ?r cr' ConditionReady ConditionTrue [] []) (\<lambda>e. wp (case fst e of
        Some err \<Rightarrow> ret (Returned (no_requeue, Some err))
      | None \<Rightarrow> ret (Returned (Result d, None))) Q) s"
    if "all_accounts s (NN (tr_Namespace ?reg) (accountNameForCR (CRFactory c) cr')) = Some a" "all_secrets s ?own = Some x"
      "\<not> rotation_due ?r cr' ?reg True a True x (clock s)" for a x d
    by (rule wp_mono [OF cluster_sync_status [OF _ l(2) key l(4,5) request]])
      (use that l(6,8) in \<open>auto simp: in_sync_def intro!: rests [OF that(2,3)] at_restI\<close>)
  have due: "rotation_due ?r cr' ?reg b a b' x (clock s)" if "\<not> b \<or> \<not> b'" for a b b' x
    using that by (auto simp: rotation_due_def)
  show ?thesis
    using l(4,5) rotates [unfolded after_rotation_def]
    by (auto simp: SecretReconciler.Reconcile_def sync_secret_def key get_object_def l(2)
        wp_def [of "Get cluster_crs k" for k] wp_def [of "Get cluster_accounts k" for k]
        wp_def [of "Get cluster_secrets k" for k] wp_run [OF l(8) [of s]] l(6) [symmetric] wp_cluster due fill new
        split: option.split intro!: rest)
qed

lemma cluster_converges:
  assumes "live_resource c request cr regcr tls s"
  shows "wp (SecretReconciler.Reconcile (cluster_reconciler c) request) (\<lambda>res s'.
      (\<exists>d. res = Returned (Result d, None)) \<and> at_rest c request regcr tls s') s"
proof -
  let ?r = "cluster_reconciler c" and ?reg = "found_registry regcr tls" and ?own = "own_secret_key c cr"
  obtain k cr' where key: "getRegistryKeyForCR ?r cr = (k, cr')" by fastforce
  note again = registry_key_again [OF key]
  have m: "servable c request cr regcr tls s" "uncontrolled c cr s"
    "all_accounts s (next_account_key c cr (Namespace regcr) (clock s)) = None"
    using assms by (simp_all add: live_resource_def)
  note l = servableD [OF m(1) key]
  have "accountNameForCR (CRFactory c) (next_rotation cr' (clock s) (Namespace regcr)) =
      accountNameForCR (CRFactory c) (next_rotation cr (clock s) (Namespace regcr))"
    by (rule accountName_cong) (simp_all add: again next_rotation_def object_key_def)
  then have ready: "ready_to_rotate c cr' ?reg ?own (secret_to_fill c cr s) s"
    using l(1-3,7) m(2,3) again
    by (auto simp: ready_to_rotate_def found_registry_def secret_to_fill_def next_account_key_def uncontrolled_def
        foreign_secret_def split: option.splits)
  show ?thesis
  proof (rule cluster_reconciles [OF m(1) key])
    fix d
    show "wp (rotatePassword ?r cr' ?reg (secret_to_fill c cr s)) (\<lambda>p. wp (after_rotation c d p)
      (\<lambda>res s'. (\<exists>d. res = Returned (Result d, None)) \<and> at_rest c request regcr tls s')) s"
    proof (rule wp_mono [OF cluster_rotation [OF ready]], elim exE conjE)
      fix q :: "(go_error option \<times> ImageSecret) outcome" and s1 cr1
      assume q: "q = Returned (None, cr1)" and rot: "rotated c cr' ?reg ?own s cr1 s1"
      obtain a x where sync: "in_sync c k cr1 ?reg a x s1"
        by (rule rotated_in_sync [OF rot l(6) [symmetric] l(8)])
      have cr1: "cr1 = next_rotation cr' (clock s) (tr_Namespace ?reg)" "all_crs s1 request = Some cr1"
        using rot l(3) by (simp_all add: rotated_def)
      have "wp (setSyncStatus ?r cr1 ConditionReady ConditionTrue [] []) (\<lambda>e s'. fst e = None \<and>
        (\<exists>cr2. settled ?r request cr2 ?reg a x (clock s') s')) s1"
        by (rule cluster_sync_status [OF sync cr1(2)])
          (use again l(3-5) next_rotation_key [OF key] in \<open>simp_all add: cr1(1)\<close>)
      then show "wp (after_rotation c d q) (\<lambda>res s'. (\<exists>d. res = Returned (Result d, None)) \<and> at_rest c request regcr tls s') s1"
        by (auto simp: q after_rotation_def intro!: at_restI elim!: wp_mono)
    qed
  qed auto
qed

text \<open>
  C3. The controller converges when nothing is in its way. On an API server that answers, one
  reconciliation of a resource that is not being deleted and has the finalizer ends without
  error in a world where the resource is at rest: the account and the secret exist, fit the
  registry and the rotation, and the status says Ready. The conditions of
  \<open>live_resource\<close> are that the registry is ready and has its TLS secret, that no account has the name that
  the next rotation would give it, and that no other object controls the resource's secret.
  Under them it does not matter which credentials were there before: nothing, an account or a
  secret only, a secret of an old rotation or of another registry, or credentials past their
  renewal.
\<close>

theorem converges:
  assumes "live_resource c request cr regcr tls s"
  shows "\<exists>d s' cr1 a x. run_state (SecretReconciler.Reconcile (cluster_reconciler c) request) s =
      (Returned (Result d, None), s') \<and>
    settled (cluster_reconciler c) request cr1 (found_registry regcr tls) a x (clock s') s'"
  using cluster_converges [OF assms] unfolding at_rest_def
  by (cases "run_state (SecretReconciler.Reconcile (cluster_reconciler c) request) s") (auto simp: wp_def)

subsection \<open>Sample worlds\<close>

definition demo_cr :: ImageSecret where
  "demo_cr = (new_ImageSecret ''ns'' ''x'')\<lparr>Kind := ''ImagePullSecret'',
     APIVersion := ''registry.mgoltzsche.github.com/v1alpha1'', Finalizers := [finalizer], Generation := 1\<rparr>"

definition demo_registry :: ImageRegistry where
  "demo_registry = (new_ImageRegistry ''operator'' ''registry'')\<lparr>
     reg_Conditions := [ConditionReady \<mapsto> mk_condition ConditionReady ConditionTrue [] []],
     TLSSecretName := ''tls''\<rparr>"

definition demo_tls :: Secret where
  "demo_tls = (new_secret ''operator'' ''tls'')\<lparr>Data := Some [SecretKeyCaCert \<mapsto> ''CA'']\<rparr>"

definition demo_cluster :: cluster where
  "demo_cluster = empty_cluster\<lparr>all_crs := [NN ''ns'' ''x'' \<mapsto> demo_cr],
     all_registries := [NN ''operator'' ''registry'' \<mapsto> demo_registry],
     all_secrets := [NN ''operator'' ''tls'' \<mapsto> demo_tls]\<rparr>"

definition rest_cr :: ImageSecret where
  "rest_cr = demo_cr\<lparr>Status := \<lparr>st_Conditions = [ConditionReady \<mapsto> mk_condition ConditionReady ConditionTrue [] []],
     st_ObservedGeneration = 1, RotationDate = Some 0, Rotation = 1, RegistryNamespace = ''operator''\<rparr>\<rparr>"

definition rest_account :: ImageRegistryAccount where
  "rest_account = (new_ImageRegistryAccount ''operator'' ''pull.ns.x.1'')\<lparr>CreationTimestamp := 0, acc_TTL := Some (24 * Hour)\<rparr>"

definition rest_secret :: Secret where
  "rest_secret = (new_secret ''ns'' ''imagepullsecret-x'')\<lparr>
     Annotations := Some [annotationSecretRotation \<mapsto> ''1''],
     Data := Some [SecretKeyRegistry \<mapsto> ''registry.operator.svc.cluster.local'', SecretKeyCaCert \<mapsto> ''CA'']\<rparr>"

definition rest_cluster :: cluster where
  "rest_cluster = demo_cluster\<lparr>all_crs := [NN ''ns'' ''x'' \<mapsto> rest_cr],
     all_accounts := [NN ''operator'' ''pull.ns.x.1'' \<mapsto> rest_account],
     all_secrets := [NN ''operator'' ''tls'' \<mapsto> demo_tls, NN ''ns'' ''imagepullsecret-x'' \<mapsto> rest_secret],
     clock := Hour\<rparr>"

lemma new_resource_simps [simp]:
  "Name (new_ImageSecret ns n) = n" "Namespace (new_ImageSecret ns n) = ns"
  "DeletionTimestamp (new_ImageSecret ns n) = None" "RegistryRef (new_ImageSecret ns n) = None"
  "Status (new_ImageSecret ns n) = new_ImageSecretStatus" "UID (new_ImageSecret ns n) = []"
  "Name (new_ImageRegistry ns n) = n" "Namespace (new_ImageRegistry ns n) = ns"
  by (simp_all add: new_ImageSecret_def new_ImageRegistry_def new_kobject_def kobject.defs
      ImageSecret.defs ImageRegistry.defs)

lemma demo_live: "live_resource pull_config (NN ''ns'' ''x'') demo_cr demo_registry demo_tls demo_cluster"
  by (simp add: live_resource_defs demo_cluster_def demo_cr_def demo_registry_def demo_tls_def
      empty_cluster_def standard_config_def getRegistryKeyForCR_def cluster_reconciler_def
      pull_config_def secretNameForCR_def TypePull_def object_key_def cluster_lib_def)

theorem converges_witness:
  "\<exists>d s'. run_state (SecretReconciler.Reconcile (cluster_reconciler pull_config) (NN ''ns'' ''x'')) demo_cluster =
     (Returned (Result d, None), s')"
  using converges [OF demo_live] by blast

lemma FormatInt_one: "FormatInt 1 = ''1''"
proof -
  have "char_of (49 :: nat) = CHR ''1''"
    by (rule of_char_eq_iff [where 'a = nat, THEN iffD1]) simp
  then show ?thesis by (simp add: FormatInt_def format_nat.simps digit_char_def)
qed

lemma rest_settled:
  "settled (cluster_reconciler pull_config) (NN ''ns'' ''x'') rest_cr (found_registry demo_registry demo_tls)
     rest_account rest_secret Hour rest_cluster"
  by (simp add: settled_def sees_def rest_cluster_def demo_cluster_def rest_cr_def demo_cr_def
        demo_registry_def demo_tls_def rest_account_def rest_secret_def
        empty_cluster_def getRegistryKeyForCR_def cluster_reconciler_def
        pull_config_def secretNameForCR_def accountNameForCR_def TypePull_def object_key_def cluster_lib_def
        getRegistry_def found_registry_def RegistryHostname_def serviceNameForCR_def
        rotation_due_def FormatInt_one time_defs secret_keys map_get_def)

theorem at_rest_until_renewal_witness:
  "\<exists>d. run_state (SecretReconciler.Reconcile (cluster_reconciler pull_config) (NN ''ns'' ''x'')) rest_cluster =
     (Returned (Result d, None), rest_cluster) \<and> Hour + d = 12 * Hour + 30 * Second"
  using at_rest_until_renewal [OF rest_settled]
  by (force simp: rest_account_def cluster_reconciler_def time_defs)

theorem rotation_before_expiry_witness:
  "\<exists>d. run_state (SecretReconciler.Reconcile (cluster_reconciler pull_config) (NN ''ns'' ''x'')) rest_cluster =
     (Returned (Result d, None), rest_cluster) \<and> \<not> ExpiredAt (Hour + d) rest_account"
proof -
  have new: "NewReconciler (\<lambda>_. []) (Inr ''operator'') (\<lambda>_. Inl (ErrOther [])) pull_config (cluster_reconciler pull_config) =
      Returned (cluster_reconciler pull_config)"
    by (simp add: NewReconciler_def defaultRegistryRef_def accountTTLFromEnv_def defaultAccountTTL_def DNSZone_def
        cluster_reconciler_def Let_def quot_def Hour_def Minute_def Second_def)
  show ?thesis
    using rotation_before_expiry [OF new _ rest_settled] by (force simp: rest_account_def time_defs)
qed

theorem reconcile_protocol_witness:
  "wp (SecretReconciler.Reconcile (recorded_reconciler (cluster_reconciler pull_config)) (NN ''ns'' ''x''))
     (\<lambda>res (s', l). \<exists>l1. l = CRCall (CGet (NN ''ns'' ''x'')) None # l1 \<and>
        syncing (cluster_reconciler pull_config) demo_cr l1) (demo_cluster, [])"
proof -
  have "run_state (Get (crs (cluster_reconciler pull_config)) (NN ''ns'' ''x'')) demo_cluster =
      (Inr demo_cr, demo_cluster)"
    by (simp add: demo_cluster_def)
  from reconcile_protocol [OF this] show ?thesis
    by (rule wp_mono) (auto simp: reconcile_calls_def demo_cr_def)
qed

text \<open>An account of the next rotation that exists already: its creation fails.\<close>

definition taken_cluster :: cluster where
  "taken_cluster = demo_cluster\<lparr>all_accounts := [NN ''operator'' ''pull.ns.x.1'' \<mapsto> rest_account]\<rparr>"

lemma taken_rotation:
  "\<exists>s1. run_state (rotatePassword (cluster_reconciler pull_config) demo_cr (found_registry demo_registry demo_tls)
      (new_secret ''ns'' ''imagepullsecret-x'')) taken_cluster =
     (Returned (Some (ErrOther ''already exists''), next_rotation demo_cr 0 ''operator''), s1) \<and>
     all_crs s1 (NN ''ns'' ''x'') \<noteq> None \<and> all_secrets s1 = all_secrets taken_cluster"
proof -
  have demo: "object_key demo_cr = NN ''ns'' ''x''" "RegistryNamespace (Status demo_cr) = []"
    "tr_Namespace (found_registry demo_registry demo_tls) = ''operator''"
    "accountNameForCR (CRFactory pull_config) (next_rotation demo_cr 0 ''operator'') = ''pull.ns.x.1''"
    by (simp_all add: demo_cr_def object_key_def new_ImageSecretStatus_def found_registry_def
        demo_registry_def accountNameForCR_def pull_config_def TypePull_def next_rotation_def
        FormatInt_one wrap64_def)
  have "wp (rotatePassword (cluster_reconciler pull_config) demo_cr (found_registry demo_registry demo_tls)
      (new_secret ''ns'' ''imagepullsecret-x'')) (\<lambda>q s1. q = Returned (Some (ErrOther ''already exists''),
        next_rotation demo_cr 0 ''operator'') \<and> all_crs s1 (NN ''ns'' ''x'') \<noteq> None \<and> all_secrets s1 = all_secrets taken_cluster) taken_cluster"
    unfolding rotatePassword_def cluster_reconciler_simps wp_bind
    by (rule wp_cluster_password)
      (simp add: wp_cluster demo taken_cluster_def demo_cluster_def empty_cluster_def)
  then show ?thesis by (auto simp: wp_def split: prod.splits)
qed

lemma demo_getRegistry:
  "getRegistryKeyForCR (cluster_reconciler pull_config) demo_cr = (NN ''operator'' ''registry'', demo_cr)"
  "run_state (getRegistry (cluster_reconciler pull_config) (NN ''operator'' ''registry'')) taken_cluster =
     (Inr (found_registry demo_registry demo_tls), taken_cluster)"
  by (simp add: getRegistryKeyForCR_def demo_cr_def cluster_reconciler_def,
      rule run_getRegistry)
    (simp_all add: taken_cluster_def demo_cluster_def demo_registry_def cluster_lib_def)

lemma FormatInt_zero: "FormatInt 0 = ''0''"
proof -
  have "char_of (48 :: nat) = CHR ''0''"
    by (rule of_char_eq_iff [where 'a = nat, THEN iffD1]) simp
  then show ?thesis by (simp add: FormatInt_def format_nat.simps digit_char_def)
qed

theorem rotation_failure_not_returned_witness:
  "\<exists>s2. run_state (SecretReconciler.Reconcile (cluster_reconciler pull_config) (NN ''ns'' ''x'')) taken_cluster =
     (Returned (no_requeue, None), s2) \<and> all_secrets s2 (NN ''ns'' ''imagepullsecret-x'') = None"
proof -
  let ?r = "cluster_reconciler pull_config" and ?err = "ErrOther ''already exists''"
  obtain s1 where s1: "run_state (rotatePassword ?r demo_cr (found_registry demo_registry demo_tls)
      (new_secret ''ns'' ''imagepullsecret-x'')) taken_cluster =
     (Returned (Some ?err, next_rotation demo_cr 0 ''operator''), s1)" "all_crs s1 (NN ''ns'' ''x'') \<noteq> None \<and> all_secrets s1 = all_secrets taken_cluster"
    using taken_rotation by blast
  have comes: "comes_to_rotation ?r (NN ''ns'' ''x'') demo_cr (found_registry demo_registry demo_tls)
      (new_secret ''ns'' ''imagepullsecret-x'') taken_cluster"
    unfolding comes_to_rotation_def
    by (rule exI [of _ demo_cr], rule exI [of _ "NN ''operator'' ''registry''"], rule exI [of _ False],
        rule exI [of _ "new_ImageRegistryAccount ''operator'' ''pull.ns.x.0''"], rule exI [of _ False], rule exI [of _ 0])
      (simp add: demo_getRegistry get_object_def accountNameForCR_def secretNameForCR_def rotation_due_def,
        simp add: taken_cluster_def demo_cluster_def empty_cluster_def demo_cr_def found_registry_def
          demo_registry_def new_ImageSecretStatus_def pull_config_def TypePull_def FormatInt_zero)
  have "wp (setSyncStatus ?r (next_rotation demo_cr 0 ''operator'') ConditionReady ConditionFalse ReasonFailedSync
      (Error ?err)) (\<lambda>e s2. fst e = None \<and> all_secrets s2 = all_secrets s1) s1"
    using s1(2) by (cases "all_crs s1 (NN ''ns'' ''x'')")
      (auto simp: setSyncStatus_def cluster_lib_def wp_cluster wp_def [of "State f" for f] demo_cr_def
        object_key_def next_rotation_def split: prod.split)
  then obtain cr2 s2 where s2: "run_state (setSyncStatus ?r (next_rotation demo_cr 0 ''operator'') ConditionReady
      ConditionFalse ReasonFailedSync (Error ?err)) s1 = ((None, cr2), s2)" "all_secrets s2 = all_secrets s1"
    by (auto simp: wp_def split: prod.splits)
  from rotation_failure_not_returned [OF comes s1(1) s2(1)] s2(2) s1(2) show ?thesis
    by (simp add: taken_cluster_def demo_cluster_def)
qed

end
