(* ===== verification/AccountController.thy ===== *)
theory AccountController
  imports ApiTypes Store Cluster
begin

text \<open>
  \<open>pkg/controller/imageregistryaccount/imageregistryaccount_controller.go\<close>: the controller
  that deletes accounts at the end of their life time.
\<close>

record 's ReconcileImageRegistryAccount =
  acc_client :: "(ImageRegistryAccount, 's) client"
  acc_lib :: "'s kube_lib"

definition Reconcile :: "'s ReconcileImageRegistryAccount \<Rightarrow> NamespacedName \<Rightarrow> ('s, reconciled) state" where
  "Reconcile r request = do {
     g \<leftarrow> Get (acc_client r) request;
     case g of
       Inl err \<Rightarrow> if IsNotFound err then ret (no_requeue, None) else ret (no_requeue, Some err)
     | Inr account \<Rightarrow>
         (case acc_TTL account of
            None \<Rightarrow> ret (no_requeue, None)
          | Some ttl \<Rightarrow> do {
              x \<leftarrow> Expired (acc_lib r) account;
              if x then do {
                err \<leftarrow> Delete (acc_client r) account;
                ret (no_requeue, err)
              }
              else do {
                now \<leftarrow> Now (acc_lib r);
                ret (Result (wrap64 (time_Sub (time_Add (CreationTimestamp account) ttl) now + 10 * Second)), None)
              }
            })
   }"

subsection \<open>Deletion at the end of the life time\<close>

definition recorded_account_reconciler ::
  "'s ReconcileImageRegistryAccount \<Rightarrow> ('s \<times> (ImageRegistryAccount call \<times> go_error option) list) ReconcileImageRegistryAccount" where
  "recorded_account_reconciler r = \<lparr>
     acc_client = recorded_client Pair (acc_client r), acc_lib = recorded_lib (acc_lib r)\<rparr>"

text \<open>
  The account controller deletes an account exactly when it has a life time and the
  clock is past its end, makes no other change, and returns the error of the deletion;
  otherwise it only reads. An account that is gone is no error.
\<close>

theorem account_deleted_when_expired:
  assumes "run_state (Get (acc_client r) request) s = (Inr account, s1)"
    and "run_state (Now (acc_lib r)) s1 = (now, s2)"
  shows "wp (AccountController.Reconcile (recorded_account_reconciler r) request) (\<lambda>(res, err) (s', l).
    l = (CGet request, None) # (if ExpiredAt now account then [(CDelete account, err)] else []) \<and>
    (ExpiredAt now account \<longrightarrow> res = no_requeue) \<and> (\<not> ExpiredAt now account \<longrightarrow> err = None)) (s, [])"
proof -
  have get: "wp (recorded (\<lambda>x. (CGet request, err_of x)) (Get (acc_client r) request)) Q (s, []) =
      Q (Inr account) (s1, [(CGet request, None)])" for Q
    by (simp add: wp_def assms(1))
  have now: "wp (unrecorded (Now (acc_lib r))) Q (s1, l) = Q now (s2, l)" for Q l
    by (simp add: wp_def assms(2))
  show ?thesis
    by (auto simp: AccountController.Reconcile_def recorded_account_reconciler_def Expired_def get now
        ExpiredAt_def intro!: wp_rules split: option.split)
qed

text \<open>
  C38. No account outlives its life time unnoticed. When the controller finds an account
  that is not expired it asks to be called after a delay of at least ten seconds, and a
  reconciliation of the same account at that time, or any later time, deletes it.
\<close>

theorem account_expiry_scheduled:
  assumes "run_state (Get (acc_client r) request) s = (Inr account, s)"
    and "run_state (Now (acc_lib r)) s = (now, s)"
    and "acc_TTL account = Some ttl" "0 \<le> ttl" "ttl \<le> maxDuration - 10 * Second"
    and "CreationTimestamp account \<le> now" "\<not> ExpiredAt now account"
  shows "\<exists>d. run_state (AccountController.Reconcile r request) s = ((Result d, None), s) \<and> 10 * Second \<le> d \<and>
    (\<forall>later s'. now + d \<le> later \<longrightarrow> run_state (Get (acc_client r) request) s' = (Inr account, s') \<longrightarrow>
       run_state (Now (acc_lib r)) s' = (later, s') \<longrightarrow>
       run_state (AccountController.Reconcile r request) s' =
         (case run_state (Delete (acc_client r) account) s' of (err, s'') \<Rightarrow> ((no_requeue, err), s'')))"
proof -
  let ?d = "CreationTimestamp account + ttl - now + 10 * Second"
  have le: "now \<le> CreationTimestamp account + ttl"
    using assms(3,7) by (simp add: ExpiredAt_def time_Add_def)
  have "time_Sub (time_Add (CreationTimestamp account) ttl) now = CreationTimestamp account + ttl - now"
    using le assms(4-6) by (auto simp: time_defs)
  moreover have "minDuration \<le> ?d" "?d \<le> maxDuration"
    using le assms(4-6) by (auto simp: time_defs)
  ultimately have d: "wrap64 (time_Sub (time_Add (CreationTimestamp account) ttl) now + 10 * Second) = ?d"
    by simp
  have "run_state (AccountController.Reconcile r request) s = ((Result ?d, None), s)"
    using assms(3,7) unfolding run_iff_wp
    by (simp add: AccountController.Reconcile_def Expired_def wp_run [OF assms(1)] wp_run [OF assms(2)] d)
  moreover have "10 * Second \<le> ?d" using le by simp
  moreover have "ExpiredAt later account" if "now + ?d \<le> later" for later
    using that assms(3) by (simp add: ExpiredAt_def time_defs)
  ultimately show ?thesis
    using assms(3)
    by (intro exI [of _ ?d]) (auto simp: AccountController.Reconcile_def Expired_def split: prod.split)
qed

definition cluster_account_reconciler :: "cluster ReconcileImageRegistryAccount" where
  "cluster_account_reconciler = \<lparr>acc_client = cluster_accounts, acc_lib = cluster_lib\<rparr>"

definition demo_ttl_account :: ImageRegistryAccount where
  "demo_ttl_account = (new_ImageRegistryAccount ''reg'' ''u'')\<lparr>CreationTimestamp := 0, acc_TTL := Some Hour\<rparr>"

definition demo_ttl_cluster :: "time \<Rightarrow> cluster" where
  "demo_ttl_cluster now = empty_cluster\<lparr>all_accounts := [NN ''reg'' ''u'' \<mapsto> demo_ttl_account], clock := now\<rparr>"

lemma demo_ttl_run:
  "run_state (Get (acc_client cluster_account_reconciler) (NN ''reg'' ''u'')) (demo_ttl_cluster now) =
     (Inr demo_ttl_account, demo_ttl_cluster now)"
  "run_state (Now (acc_lib cluster_account_reconciler)) (demo_ttl_cluster now) = (now, demo_ttl_cluster now)"
  by (simp_all add: cluster_account_reconciler_def cluster_accounts_def mem_client_def demo_ttl_cluster_def
      cluster_lib_def)

theorem account_deleted_when_expired_witness:
  "wp (AccountController.Reconcile (recorded_account_reconciler cluster_account_reconciler) (NN ''reg'' ''u''))
     (\<lambda>(res, err) (s', l). l = [(CGet (NN ''reg'' ''u''), None), (CDelete demo_ttl_account, err)])
     (demo_ttl_cluster (2 * Hour), [])"
  using account_deleted_when_expired [OF demo_ttl_run]
  by (rule wp_mono) (auto simp: ExpiredAt_def demo_ttl_account_def time_defs)

theorem account_expiry_scheduled_witness:
  "\<exists>d. run_state (AccountController.Reconcile cluster_account_reconciler (NN ''reg'' ''u'')) (demo_ttl_cluster 0) =
     ((Result d, None), demo_ttl_cluster 0) \<and> 10 * Second \<le> d"
  using account_expiry_scheduled [OF demo_ttl_run [of 0], of Hour]
  by (auto simp: demo_ttl_account_def ExpiredAt_def time_defs)

end
