(* ===== verification/Auth.thy ===== *)
theory Auth
  imports ApiTypes
begin

text \<open>
  \<open>pkg/auth/auth.go\<close> and what its two users, the docker_auth plugin
  (\<open>docker-authn-plugin/kdauthnplugin.go\<close>) and the command line client
  (\<open>cmd/authn-client/main.go\<close>), make of its answers; how they start is in \<open>AuthFrontends\<close>.
  A run here is a sequence of logins; \<open>AuthConcurrency\<close> interleaves them. An account is looked up in the registry's namespace and
  kept in a cache for ten minutes. The cache is a Go map, given as the list of its entries
  in the order of a visit. bcrypt's comparison is a parameter.
\<close>

subsection \<open>The code\<close>

type_synonym labels = "string \<rightharpoonup> string list"

definition Origin :: string where "Origin = ''cr''"
definition originCR :: "string list" where "originCR = [Origin]"

record cachedAccount =
  HashedPassword :: string
  ca_Labels :: labels
  LastSeen :: time

record 's Authenticator =
  au_Get :: "NamespacedName \<Rightarrow> ('s, ImageRegistryAccount result) state"
  au_Now :: "('s, time) state"
  CompareHashAndPassword :: "string \<Rightarrow> string \<Rightarrow> bool"
  au_namespace :: string

type_synonym cache = "(string \<times> cachedAccount) list"

definition cache_lifetime :: duration where "cache_lifetime = 10 * Minute"

definition expired_at :: "time \<Rightarrow> cachedAccount \<Rightarrow> bool" where
  "expired_at now a \<longleftrightarrow> now > time_Add (LastSeen a) cache_lifetime"

definition CacheExpired :: "'s Authenticator \<Rightarrow> cachedAccount \<Rightarrow> ('s, bool) state" where
  "CacheExpired au a = do { now \<leftarrow> au_Now au; ret (expired_at now a) }"

definition MatchPassword :: "'s Authenticator \<Rightarrow> cachedAccount \<Rightarrow> string \<Rightarrow> bool" where
  "MatchPassword au a pw = (if CompareHashAndPassword au (HashedPassword a) pw then True else False)"

text \<open>The loop of \<open>addToCache\<close>: it reads the clock for every entry.\<close>

fun keep_fresh :: "'s Authenticator \<Rightarrow> cache \<Rightarrow> ('s, cache) state" where
  "keep_fresh au [] = ret []"
| "keep_fresh au ((usr, cached) # rest) = do {
     x \<leftarrow> CacheExpired au cached;
     more \<leftarrow> keep_fresh au rest;
     ret (if x then more else (usr, cached) # more)
   }"

definition addToCache :: "'s Authenticator \<Rightarrow> cache \<Rightarrow> string \<Rightarrow> cachedAccount \<Rightarrow> ('s, cache) state" where
  "addToCache au c username account = do {
     kept \<leftarrow> keep_fresh au c;
     ret ((username, account) # filter (\<lambda>e. fst e \<noteq> username) kept)
   }"

definition labels_of :: "ImageRegistryAccount \<Rightarrow> labels" where
  "labels_of acc =
     (case acc_Labels acc of None \<Rightarrow> Map.empty | Some m \<Rightarrow> m)
       (''origin'' \<mapsto> originCR, ''account'' \<mapsto> [Name acc])"

definition cached_of :: "ImageRegistryAccount \<Rightarrow> time \<Rightarrow> cachedAccount" where
  "cached_of acc now = \<lparr>HashedPassword = acc_Password acc, ca_Labels = labels_of acc, LastSeen = now\<rparr>"

definition fetchAccount ::
  "'s Authenticator \<Rightarrow> cache \<Rightarrow> string \<Rightarrow> ('s, (cachedAccount option \<times> go_error option) \<times> cache) state" where
  "fetchAccount au c username = do {
     g \<leftarrow> au_Get au (NN (au_namespace au) username);
     case g of
       Inl err \<Rightarrow> if \<not> IsNotFound err then ret ((None, Some err), c) else ret ((None, None), c)
     | Inr acc \<Rightarrow> do {
         now \<leftarrow> au_Now au;
         c' \<leftarrow> addToCache au c username (cached_of acc now);
         ret ((Some (cached_of acc now), None), c')
       }
   }"

definition findAccount ::
  "'s Authenticator \<Rightarrow> cache \<Rightarrow> string \<Rightarrow> ('s, (cachedAccount option \<times> go_error option) \<times> cache) state" where
  "findAccount au c username =
     (case map_of c username of
        None \<Rightarrow> fetchAccount au c username
      | Some account \<Rightarrow> do {
          x \<leftarrow> CacheExpired au account;
          if \<not> x then ret ((Some account, None), c) else fetchAccount au c username
        })"

definition Authenticate ::
  "'s Authenticator \<Rightarrow> cache \<Rightarrow> string \<Rightarrow> string \<Rightarrow> ('s, (labels option \<times> go_error option) \<times> cache) state" where
  "Authenticate au c user passwd =
     (if user \<noteq> [] \<and> passwd \<noteq> [] then do {
        (r, c') \<leftarrow> findAccount au c user;
        case r of
          (Some account, None) \<Rightarrow>
            if MatchPassword au account passwd then ret ((Some (ca_Labels account), None), c')
            else ret ((None, None), c')
        | (_, err) \<Rightarrow> ret ((None, err), c')
      }
      else ret ((None, None), c))"

text \<open>The plugin answers \<open>true\<close> whatever happened; every access rule of
  \<open>build/auth_config.yml.tpl\<close> asks for a label that only an authenticated user has. The client
  prints the labels and exits with 0, or exits with 1 (usage), 2 (error) or 3 (rejected).\<close>

definition plugin_Authenticate ::
  "'s Authenticator \<Rightarrow> cache \<Rightarrow> string \<Rightarrow> string
     \<Rightarrow> ('s, (bool \<times> labels option \<times> go_error option) \<times> cache) state" where
  "plugin_Authenticate au c user passwd = do {
     (r, c') \<leftarrow> Authenticate au c user passwd;
     ret ((True, fst r, snd r), c')
   }"

definition client_main ::
  "'s Authenticator \<Rightarrow> bool \<Rightarrow> string \<Rightarrow> string option \<Rightarrow> ('s, nat) state" where
  "client_main au flagsOk user pw =
     (if \<not> flagsOk then ret 1
      else case pw of
        None \<Rightarrow> ret 1
      | Some p \<Rightarrow> do {
          (r, _) \<leftarrow> Authenticate au [] user p;
          ret (case snd r of Some _ \<Rightarrow> 2 | None \<Rightarrow> (case fst r of None \<Rightarrow> 3 | Some _ \<Rightarrow> 0))
        })"

subsection \<open>What the authenticator has seen\<close>

text \<open>
  The history of an authenticator: what the server answered and the times it read. A
  sequence of authentications, between which the world may change in any way, reaches a
  cache and a history.
\<close>

datatype auth_event = Fetched NamespacedName "ImageRegistryAccount result" | Clock time

definition recorded_authenticator :: "'s Authenticator \<Rightarrow> ('s \<times> auth_event list) Authenticator" where
  "recorded_authenticator au = \<lparr>
     au_Get = (\<lambda>k. recorded (Fetched k) (au_Get au k)), au_Now = recorded Clock (au_Now au),
     CompareHashAndPassword = CompareHashAndPassword au, au_namespace = au_namespace au\<rparr>"

lemma recorded_authenticator_simps [simp]:
  "au_Get (recorded_authenticator au) k = recorded (Fetched k) (au_Get au k)"
  "au_Now (recorded_authenticator au) = recorded Clock (au_Now au)"
  "CompareHashAndPassword (recorded_authenticator au) = CompareHashAndPassword au"
  "au_namespace (recorded_authenticator au) = au_namespace au"
  by (simp_all add: recorded_authenticator_def)

inductive reached :: "'s Authenticator \<Rightarrow> cache \<Rightarrow> auth_event list \<Rightarrow> bool" for au where
  start: "reached au [] []"
| step: "reached au c l \<Longrightarrow>
    run_state (Authenticate (recorded_authenticator au) c user passwd) (s, l) = ((r, c'), (s', l')) \<Longrightarrow>
    reached au c' l'"

text \<open>An entry of the cache is an account that the server gave, with the time read next.\<close>

definition answers :: "'s Authenticator \<Rightarrow> NamespacedName \<Rightarrow> ImageRegistryAccount \<Rightarrow> bool" where
  "answers au k acc \<longleftrightarrow> (\<exists>s s'. run_state (au_Get au k) s = (Inr acc, s'))"

definition seen ::
  "'s Authenticator \<Rightarrow> auth_event list \<Rightarrow> NamespacedName \<Rightarrow> ImageRegistryAccount \<Rightarrow> time \<Rightarrow> bool" where
  "seen au l k acc t \<longleftrightarrow> answers au k acc \<and> (\<exists>l1 l2. l = l1 @ Fetched k (Inr acc) # Clock t # l2)"

definition entry_ok :: "'s Authenticator \<Rightarrow> auth_event list \<Rightarrow> string \<times> cachedAccount \<Rightarrow> bool" where
  "entry_ok au l e \<longleftrightarrow> (\<exists>acc. seen au l (NN (au_namespace au) (fst e)) acc (LastSeen (snd e)) \<and>
     snd e = cached_of acc (LastSeen (snd e)))"

definition cache_ok :: "'s Authenticator \<Rightarrow> cache \<Rightarrow> auth_event list \<Rightarrow> bool" where
  "cache_ok au c l \<longleftrightarrow> entries_ok c \<and> (\<forall>e \<in> set c. entry_ok au l e)"

lemma seen_append: "seen au l k acc t \<Longrightarrow> seen au (l @ l') k acc t"
  unfolding seen_def by (metis append.assoc append_Cons)

lemma cache_ok_append: "cache_ok au c l \<Longrightarrow> cache_ok au c (l @ l')"
  unfolding cache_ok_def entry_ok_def using seen_append by fast

lemma cache_ok_subset: "cache_ok au c l \<Longrightarrow> set c' \<subseteq> set c \<Longrightarrow> entries_ok c' \<Longrightarrow> cache_ok au c' l"
  by (auto simp: cache_ok_def)

lemma keep_fresh_wp:
  assumes "\<And>kept s' ts. set kept \<subseteq> set c \<Longrightarrow> (entries_ok c \<Longrightarrow> entries_ok kept) \<Longrightarrow>
      (\<forall>(u, a) \<in> set kept. \<exists>t \<in> set ts. \<not> expired_at t a) \<Longrightarrow> Q kept (s', l @ map Clock ts)"
  shows "wp (keep_fresh (recorded_authenticator au) c) Q (s, l)"
  using assms
proof (induction c arbitrary: s l Q)
  case Nil
  from Nil [of "[]" "[]"] show ?case by simp
next
  case (Cons e c)
  obtain usr a where e: "e = (usr, a)" by (cases e)
  show ?case
    unfolding e keep_fresh.simps CacheExpired_def
    unfolding wp_bind recorded_authenticator_simps wp_return
  proof (rule wp_recordedI, rule Cons.IH)
    fix t s' kept s'' ts
    assume sub: "set kept \<subseteq> set c" and ok: "entries_ok c \<Longrightarrow> entries_ok kept"
      and fresh: "\<forall>(u, a) \<in> set kept. \<exists>t \<in> set ts. \<not> expired_at t a"
    have "Q kept (s'', l @ map Clock (t # ts))" if "expired_at t a"
      by (rule Cons.prems) (use sub ok fresh in \<open>auto simp: entries_ok_def\<close>)
    moreover have "Q ((usr, a) # kept) (s'', l @ map Clock (t # ts))" if "\<not> expired_at t a"
      by (rule Cons.prems) (use sub ok fresh that in \<open>auto simp: e entries_ok_def image_iff\<close>)
    ultimately show "Q (if expired_at t a then kept else (usr, a) # kept) (s'', (l @ [Clock t]) @ map Clock ts)"
      by simp
  qed
qed

lemma addToCache_wp:
  assumes "entries_ok c"
    and "\<And>c' s' ts. entries_ok c' \<Longrightarrow> set c' \<subseteq> insert (username, account) (set c) \<Longrightarrow>
      (\<forall>(u, a) \<in> set c'. u = username \<and> a = account \<or> (\<exists>t \<in> set ts. \<not> expired_at t a)) \<Longrightarrow>
      map_of c' username = Some account \<Longrightarrow> Q c' (s', l @ map Clock ts)"
  shows "wp (addToCache (recorded_authenticator au) c username account) Q (s, l)"
  unfolding addToCache_def wp_bind wp_return
proof (rule keep_fresh_wp)
  fix kept s' ts
  assume "set kept \<subseteq> set c" "entries_ok c \<Longrightarrow> entries_ok kept"
    "\<forall>(u, a) \<in> set kept. \<exists>t \<in> set ts. \<not> expired_at t a"
  then show "Q ((username, account) # filter (\<lambda>e. fst e \<noteq> username) kept) (s', l @ map Clock ts)"
    using assms(1) by (intro assms(2)) (auto simp: entries_ok_def distinct_map inj_on_def)
qed

text \<open>What a lookup gives: an account that was fetched for this name, either just now or
  by an earlier call and cached since, and then its time was checked.\<close>

definition granted ::
  "'s Authenticator \<Rightarrow> string \<Rightarrow> cachedAccount \<Rightarrow> auth_event list \<Rightarrow> auth_event list \<Rightarrow> bool" where
  "granted au u a l l1 \<longleftrightarrow> (\<exists>acc. a = cached_of acc (LastSeen a) \<and>
     answers au (NN (au_namespace au) u) acc \<and>
     (Fetched (NN (au_namespace au) u) (Inr acc) \<in> set l1 \<or>
      (seen au l (NN (au_namespace au) u) acc (LastSeen a) \<and> (\<exists>t. l1 = [Clock t] \<and> \<not> expired_at t a))))"

lemma fetchAccount_wp:
  assumes "cache_ok au c l"
    and "\<And>r c' s' l1. cache_ok au c' (l @ l0 @ l1) \<Longrightarrow>
      (\<forall>a. r = (Some a, None) \<longrightarrow> granted au username a l (l0 @ l1)) \<Longrightarrow>
      (\<forall>a e. r = (Some a, e) \<longrightarrow> e = None) \<Longrightarrow> Q (r, c') (s', l @ l0 @ l1)"
  shows "wp (fetchAccount (recorded_authenticator au) c username) Q (s, l @ l0)"
  unfolding fetchAccount_def wp_bind recorded_authenticator_simps
proof (rule wp_recorded_answerI)
  fix g s'
  assume ans: "run_state (au_Get au (NN (au_namespace au) username)) s = (g, s')"
  let ?k = "NN (au_namespace au) username"
  have none: "Q ((None, e), c) (s', l @ l0 @ [Fetched ?k g])" for e
    by (rule assms(2)) (use cache_ok_append [OF assms(1)] in auto)
  show "wp (case g of
      Inl err \<Rightarrow> if \<not> IsNotFound err then ret ((None, Some err), c) else ret ((None, None), c)
    | Inr acc \<Rightarrow> recorded Clock (au_Now au) \<bind> (\<lambda>now.
        addToCache (recorded_authenticator au) c username (cached_of acc now) \<bind> (\<lambda>c'.
        ret ((Some (cached_of acc now), None), c')))) Q (s', (l @ l0) @ [Fetched ?k g])"
  proof (cases g)
    case (Inl err)
    then show ?thesis using none by simp
  next
    case (Inr acc)
    have stored: "Q ((Some (cached_of acc now), None), c')
        (s'', l @ l0 @ [Fetched ?k (Inr acc), Clock now] @ map Clock ts)"
      if "entries_ok c'" "set c' \<subseteq> insert (username, cached_of acc now) (set c)" for now c' s'' ts
    proof (rule assms(2))
      let ?l = "l @ l0 @ [Fetched ?k (Inr acc), Clock now] @ map Clock ts"
      have new: "seen au ?l ?k acc now"
        unfolding seen_def answers_def
      proof (rule conjI)
        show "\<exists>s s'. run_state (au_Get au ?k) s = (Inr acc, s')" using ans Inr by blast
        show "\<exists>l1 l2. l @ l0 @ [Fetched ?k (Inr acc), Clock now] @ map Clock ts =
            l1 @ Fetched ?k (Inr acc) # Clock now # l2"
          by (rule exI [of _ "l @ l0"]) simp
      qed
      have "cache_ok au c ?l" using cache_ok_append [OF assms(1)] by simp
      moreover have "entry_ok au ?l (username, cached_of acc now)"
        using new by (auto simp: entry_ok_def cached_of_def)
      ultimately show "cache_ok au c' ?l"
        using that by (auto simp only: cache_ok_def)
      show "\<forall>a. (Some (cached_of acc now), None) = (Some a, None) \<longrightarrow>
          granted au username a l (l0 @ [Fetched ?k (Inr acc), Clock now] @ map Clock ts)"
        using new by (auto simp: granted_def cached_of_def seen_def)
    qed auto
    show ?thesis
      unfolding Inr sum.case wp_bind wp_return
      by (rule wp_recordedI, rule addToCache_wp) (use assms(1) stored in \<open>auto simp: cache_ok_def\<close>)
  qed
qed

lemma findAccount_wp:
  assumes "cache_ok au c l"
    and "\<And>r c' s' l1. cache_ok au c' (l @ l1) \<Longrightarrow>
      (\<forall>a. r = (Some a, None) \<longrightarrow> granted au username a l l1) \<Longrightarrow>
      (\<forall>a e. r = (Some a, e) \<longrightarrow> e = None) \<Longrightarrow> Q (r, c') (s', l @ l1)"
  shows "wp (findAccount (recorded_authenticator au) c username) Q (s, l)"
proof (cases "map_of c username")
  case None
  have "wp (fetchAccount (recorded_authenticator au) c username) Q (s, l @ [])"
    by (rule fetchAccount_wp [OF assms(1)]) (use assms(2) in auto)
  then show ?thesis by (simp add: findAccount_def None)
next
  case (Some a)
  then have "(username, a) \<in> set c" by (rule map_of_SomeD)
  then obtain acc where acc: "seen au l (NN (au_namespace au) username) acc (LastSeen a)"
    "a = cached_of acc (LastSeen a)" using assms(1) by (force simp: cache_ok_def entry_ok_def)
  show ?thesis
    unfolding findAccount_def Some option.case CacheExpired_def wp_bind recorded_authenticator_simps wp_return wp_if
  proof (rule wp_recordedI)
    fix t s'
    have "Q ((Some a, None), c) (s', l @ [Clock t])" if "\<not> expired_at t a"
    proof (rule assms(2) [OF cache_ok_append [OF assms(1)]])
      show "\<forall>a'. (Some a, None) = (Some a', None) \<longrightarrow> granted au username a' l [Clock t]"
        using acc that unfolding granted_def seen_def by blast
    qed auto
    moreover have "wp (fetchAccount (recorded_authenticator au) c username) Q (s', l @ [Clock t])"
      by (rule fetchAccount_wp [OF assms(1)]) (use assms(2) in auto)
    ultimately show "if \<not> expired_at t a then Q ((Some a, None), c) (s', l @ [Clock t])
        else wp (fetchAccount (recorded_authenticator au) c username) Q (s', l @ [Clock t])"
      by simp
  qed
qed

lemma Authenticate_wp:
  assumes "cache_ok au c l"
  shows "wp (Authenticate (recorded_authenticator au) c user passwd)
     (\<lambda>((lbls, e), c') (s', l'). \<exists>l1. l' = l @ l1 \<and> cache_ok au c' l' \<and>
        (\<forall>m. lbls = Some m \<longrightarrow> user \<noteq> [] \<and> passwd \<noteq> [] \<and> e = None \<and>
          (\<exists>a. granted au user a l l1 \<and> m = ca_Labels a \<and> MatchPassword au a passwd))) (s, l)"
proof (cases "user \<noteq> [] \<and> passwd \<noteq> []")
  case False
  then show ?thesis using assms by (auto simp: Authenticate_def)
next
  case True
  then show ?thesis
    unfolding Authenticate_def if_P [OF True] wp_bind
    by (intro findAccount_wp [OF assms]) (auto simp: MatchPassword_def split: option.split)
qed

lemma reached_cache_ok: "reached au c l \<Longrightarrow> cache_ok au c l"
proof (induction rule: reached.induct)
  case start
  show ?case by (simp add: cache_ok_def entries_ok_def)
next
  case (step c l user passwd s r c' s' l')
  from Authenticate_wp [OF step.IH, of user passwd s] step.hyps(2) show ?case
    by (auto simp: wp_def split: prod.splits)
qed

lemma authenticated:
  assumes "reached au c l"
    and "run_state (Authenticate (recorded_authenticator au) c user passwd) (s, l) =
      (((Some m, e), c'), (s', l'))"
  obtains acc t l1 where "l' = l @ l1" "answers au (NN (au_namespace au) user) acc"
    "m = labels_of acc" "CompareHashAndPassword au (acc_Password acc) passwd"
    "user \<noteq> []" "passwd \<noteq> []" "e = None"
    "Fetched (NN (au_namespace au) user) (Inr acc) \<in> set l1 \<or>
      (seen au l (NN (au_namespace au) user) acc t \<and> (\<exists>now. l1 = [Clock now] \<and> now \<le> t + 10 * Minute))"
proof -
  from Authenticate_wp [OF reached_cache_ok [OF assms(1)], of user passwd s] assms(2)
  obtain l1 a where l1: "l' = l @ l1" "user \<noteq> []" "passwd \<noteq> []" "e = None" "granted au user a l l1"
    "m = ca_Labels a" "MatchPassword au a passwd"
    by (auto simp: wp_def)
  then obtain acc where acc: "a = cached_of acc (LastSeen a)" "answers au (NN (au_namespace au) user) acc"
    "Fetched (NN (au_namespace au) user) (Inr acc) \<in> set l1 \<or>
     (seen au l (NN (au_namespace au) user) acc (LastSeen a) \<and> (\<exists>t. l1 = [Clock t] \<and> \<not> expired_at t a))"
    by (auto simp: granted_def)
  have "ca_Labels a = labels_of acc" "HashedPassword a = acc_Password acc"
    by (subst acc(1), simp add: cached_of_def)+
  with l1 acc(2,3) show ?thesis
    by (intro that [of l1 acc "LastSeen a"])
      (auto simp: MatchPassword_def expired_at_def time_Add_def cache_lifetime_def split: if_splits)
qed

text \<open>
  C10. Only someone with an account's password is authenticated, and an account that the
  server no longer has is accepted for at most ten minutes. In every history of an
  authenticator, against any server and clock, labels are only returned for a user and
  password that are not empty when the server answered, for this user name in the
  authenticator's namespace, with an account whose bcrypt hash matches the password; the
  labels are this account's; and the answer is from this call, or an earlier call got it
  and the time now read is no later than ten minutes after the time read then.
\<close>

theorem authentication_sound:
  assumes "reached au c l"
    and "run_state (Authenticate (recorded_authenticator au) c user passwd) (s, l) =
      (((Some m, e), c'), (s', l'))"
  shows "\<exists>acc t l1. l' = l @ l1 \<and> answers au (NN (au_namespace au) user) acc \<and> m = labels_of acc \<and>
    CompareHashAndPassword au (acc_Password acc) passwd \<and> user \<noteq> [] \<and> passwd \<noteq> [] \<and> e = None \<and>
    (Fetched (NN (au_namespace au) user) (Inr acc) \<in> set l1 \<or>
     seen au l (NN (au_namespace au) user) acc t \<and> (\<exists>now. l1 = [Clock now] \<and> now \<le> t + 10 * Minute))"
  using authenticated [OF assms] by metis

text \<open>
  C28. Authorization labels cannot be chosen by an account's author where it matters: when
  the server gives the account that was asked for, the label \<open>account\<close> of an authenticated
  user is the user's name and the label \<open>origin\<close> is \<open>cr\<close>, whatever the account's spec says;
  all other labels are those of the spec.
\<close>

theorem labels_not_spoofed:
  assumes "reached au c l"
    and "run_state (Authenticate (recorded_authenticator au) c user passwd) (s, l) =
      (((Some m, e), c'), (s', l'))"
    and "\<And>k acc. answers au k acc \<Longrightarrow> object_key acc = k"
  shows "m ''account'' = Some [user] \<and> m ''origin'' = Some [''cr''] \<and>
    (\<exists>acc. answers au (NN (au_namespace au) user) acc \<and>
      m |` (- {''account'', ''origin''}) =
        (case acc_Labels acc of None \<Rightarrow> Map.empty | Some n \<Rightarrow> n) |` (- {''account'', ''origin''}))"
proof -
  obtain acc where acc: "answers au (NN (au_namespace au) user) acc" "m = labels_of acc"
    by (rule authenticated [OF assms(1,2)])
  have "Name acc = user" using assms(3) [OF acc(1)] by (simp add: object_key_def)
  with acc show ?thesis
    by (auto simp: labels_of_def originCR_def Origin_def fun_eq_iff restrict_map_def)
qed

text \<open>
  Denying access takes up to ten minutes. A user with an entry in the cache that is not
  older than ten minutes is authenticated from it without asking the server, so it does not
  matter whether the account still exists, has another password or has expired.
\<close>

theorem cached_access_survives:
  assumes "map_of c user = Some a" "user \<noteq> []" "passwd \<noteq> []"
    and "CompareHashAndPassword au (HashedPassword a) passwd"
    and "run_state (au_Now au) s = (now, s1)" "now \<le> LastSeen a + 10 * Minute"
  shows "run_state (Authenticate (au\<lparr>au_Get := server\<rparr>) c user passwd) s =
    (((Some (ca_Labels a), None), c), s1)"
  using assms(1-4,6)
  by (simp add: run_iff_wp Authenticate_def findAccount_def CacheExpired_def MatchPassword_def
      expired_at_def time_Add_def cache_lifetime_def wp_run [OF assms(5)] del: run_state_bind)

text \<open>
  Refusals. Without a user or a password nothing is asked and nothing is cached; an
  account that is not found, a wrong password and an error of the server all give no labels;
  an error is returned only when the server failed with another error than ``not found''.
\<close>

theorem authentication_refused:
  assumes "map_of c user = None"
    and "run_state (au_Get au (NN (au_namespace au) user)) s = (answer, s1)"
  shows "wp (Authenticate au c user passwd) (\<lambda>((lbls, e), c') s'.
    (lbls = None \<longleftrightarrow> user = [] \<or> passwd = [] \<or>
       (case answer of Inl _ \<Rightarrow> True | Inr acc \<Rightarrow> \<not> CompareHashAndPassword au (acc_Password acc) passwd)) \<and>
    (e \<noteq> None \<longrightarrow> user \<noteq> [] \<and> passwd \<noteq> [] \<and> e = err_of answer \<and> lbls = None) \<and>
    ((user = [] \<or> passwd = []) \<longrightarrow> s' = s \<and> c' = c)) s"
proof (cases "user \<noteq> [] \<and> passwd \<noteq> []")
  case False
  then show ?thesis by (auto simp: Authenticate_def split: sum.split)
next
  case True
  then show ?thesis
    using assms(1) by (cases answer)
      (auto simp: Authenticate_def findAccount_def fetchAccount_def wp_run [OF assms(2)] MatchPassword_def
        cached_of_def intro!: wp_any [where m = "au_Now au"]
        wp_any [where m = "addToCache au c user a" for a])
qed

subsection \<open>A sample authenticator\<close>

text \<open>Its world: the accounts by their keys, and the time.\<close>

definition demo_authenticator :: "((NamespacedName \<rightharpoonup> ImageRegistryAccount) \<times> time) Authenticator" where
  "demo_authenticator = \<lparr>
     au_Get = (\<lambda>k. State (\<lambda>s. (case fst s k of
        Some a \<Rightarrow> if object_key a = k then Inr a else Inl (ErrNotFound [])
      | None \<Rightarrow> Inl (ErrNotFound []), s))),
     au_Now = State (\<lambda>s. (snd s, s)),
     CompareHashAndPassword = (\<lambda>h p. h = ''hash:'' @ p), au_namespace = ''reg''\<rparr>"

definition demo_account :: ImageRegistryAccount where
  "demo_account = (new_ImageRegistryAccount ''reg'' ''u'')\<lparr>acc_Password := ''hash:p'',
     acc_Labels := Some [''account'' \<mapsto> [''admin''], ''accessMode'' \<mapsto> [''pull'']]\<rparr>"

lemma demo_login:
  "\<exists>c'. run_state (Authenticate (recorded_authenticator demo_authenticator) [] ''u'' ''p'')
       (([NN ''reg'' ''u'' \<mapsto> demo_account], 0), []) =
     (((Some (labels_of demo_account), None), c'),
      (([NN ''reg'' ''u'' \<mapsto> demo_account], 0), [Fetched (NN ''reg'' ''u'') (Inr demo_account), Clock 0]))"
  by (simp add: Authenticate_def findAccount_def fetchAccount_def addToCache_def MatchPassword_def
      cached_of_def demo_authenticator_def) (simp add: demo_account_def object_key_def)

theorem authentication_sound_witness:
  "\<exists>acc. answers demo_authenticator (NN ''reg'' ''u'') acc \<and> acc_Password acc = ''hash:p''"
proof -
  obtain c' where run: "run_state (Authenticate (recorded_authenticator demo_authenticator) [] ''u'' ''p'')
       (([NN ''reg'' ''u'' \<mapsto> demo_account], 0), []) =
     (((Some (labels_of demo_account), None), c'),
      (([NN ''reg'' ''u'' \<mapsto> demo_account], 0), [Fetched (NN ''reg'' ''u'') (Inr demo_account), Clock 0]))"
    using demo_login by blast
  from authentication_sound [OF reached.start run] show ?thesis
    by (auto simp: demo_authenticator_def)
qed

theorem labels_not_spoofed_witness:
  "labels_of demo_account ''account'' = Some [''u'']"
proof -
  obtain c' where run: "run_state (Authenticate (recorded_authenticator demo_authenticator) [] ''u'' ''p'')
       (([NN ''reg'' ''u'' \<mapsto> demo_account], 0), []) =
     (((Some (labels_of demo_account), None), c'),
      (([NN ''reg'' ''u'' \<mapsto> demo_account], 0), [Fetched (NN ''reg'' ''u'') (Inr demo_account), Clock 0]))"
    using demo_login by blast
  have "object_key acc = k" if "answers demo_authenticator k acc" for k acc
    using that by (auto simp: answers_def demo_authenticator_def split: option.splits if_splits)
  from labels_not_spoofed [OF reached.start run this] show ?thesis by simp
qed

theorem cached_access_survives_witness:
  "run_state (Authenticate (demo_authenticator\<lparr>au_Get := \<lambda>_. ret (Inl (ErrNotFound []))\<rparr>)
      [(''u'', cached_of demo_account 0)] ''u'' ''p'') (Map.empty, 9 * Minute) =
    (((Some (labels_of demo_account), None), [(''u'', cached_of demo_account 0)]), (Map.empty, 9 * Minute))"
  using cached_access_survives [of "[(''u'', cached_of demo_account 0)]" "''u''" "cached_of demo_account 0" "''p''"
      demo_authenticator "(Map.empty, 9 * Minute)" "9 * Minute" "(Map.empty, 9 * Minute)" "\<lambda>_. ret (Inl (ErrNotFound []))"]
  by (simp add: cached_of_def demo_authenticator_def demo_account_def time_defs)

theorem authentication_refused_witness:
  "wp (Authenticate demo_authenticator [] ''u'' ''wrong'') (\<lambda>((lbls, e), c') s'. lbls = None \<and> e = None)
     ([NN ''reg'' ''u'' \<mapsto> demo_account], 0)"
proof -
  have "run_state (au_Get demo_authenticator (NN (au_namespace demo_authenticator) ''u''))
      ([NN ''reg'' ''u'' \<mapsto> demo_account], 0) = (Inr demo_account, ([NN ''reg'' ''u'' \<mapsto> demo_account], 0))"
    by (simp add: demo_authenticator_def demo_account_def object_key_def)
  from authentication_refused [OF _ this, of "[]" "''wrong''"] show ?thesis
    by (rule wp_mono [OF _]) (auto simp: demo_authenticator_def demo_account_def split: prod.splits)
qed

end
