(* ===== verification/Faults.thy ===== *)
theory Faults
  imports Kube
begin

text \<open>
  An API server whose calls fail. A fault is a function of the call and the state, so a
  theorem about all faults is one about every pattern of failures: a call may be refused
  with any error, or it may be carried out and its answer be lost.
\<close>

datatype fault = Works | Refused go_error | Lost go_error

type_synonym 's faults = "string \<Rightarrow> 's \<Rightarrow> fault"

definition faulty :: "('s \<Rightarrow> fault) \<Rightarrow> (go_error \<Rightarrow> 'a) \<Rightarrow> ('s, 'a) state \<Rightarrow> ('s, 'a) state" where
  "faulty f failed m = State (\<lambda>s. case f s of
     Works \<Rightarrow> run_state m s
   | Refused e \<Rightarrow> (failed e, s)
   | Lost e \<Rightarrow> (failed e, snd (run_state m s)))"

definition flaky_client :: "'s faults \<Rightarrow> ('o, 's) client \<Rightarrow> ('o, 's) client" where
  "flaky_client f c = \<lparr>
     Get = (\<lambda>k. faulty (f ''get'') Inl (Get c k)),
     Create = (\<lambda>x. faulty (f ''create'') (\<lambda>e. (Some e, x)) (Create c x)),
     Update = (\<lambda>x. faulty (f ''update'') (\<lambda>e. (Some e, x)) (Update c x)),
     StatusUpdate = (\<lambda>x. faulty (f ''status'') (\<lambda>e. (Some e, x)) (StatusUpdate c x)),
     Delete = (\<lambda>x. faulty (f ''delete'') Some (Delete c x)),
     DeleteAllOf = (\<lambda>ls ns. faulty (f ''deletecollection'') Some (DeleteAllOf c ls ns))\<rparr>"

lemma flaky_client_simps [simp]:
  "Get (flaky_client f c) k = faulty (f ''get'') Inl (Get c k)"
  "Create (flaky_client f c) x = faulty (f ''create'') (\<lambda>e. (Some e, x)) (Create c x)"
  "Update (flaky_client f c) x = faulty (f ''update'') (\<lambda>e. (Some e, x)) (Update c x)"
  "StatusUpdate (flaky_client f c) x = faulty (f ''status'') (\<lambda>e. (Some e, x)) (StatusUpdate c x)"
  "Delete (flaky_client f c) x = faulty (f ''delete'') Some (Delete c x)"
  "DeleteAllOf (flaky_client f c) ls ns = faulty (f ''deletecollection'') Some (DeleteAllOf c ls ns)"
  by (simp_all add: flaky_client_def)

lemma faulty_works [simp]: "faulty (\<lambda>_. Works) failed m = m"
  by (cases m) (simp add: faulty_def)

lemma flaky_works [simp]: "flaky_client (\<lambda>_ _. Works) c = c"
  by (cases c) (simp add: flaky_client_def)

text \<open>What holds of a call that works and of one that fails holds of a faulty one.\<close>

lemma wp_faulty:
  "wp (faulty f failed m) Q s = (case f s of
     Works \<Rightarrow> wp m Q s
   | Refused e \<Rightarrow> Q (failed e) s
   | Lost e \<Rightarrow> wp m (\<lambda>_. Q (failed e)) s)"
  by (cases "run_state m s") (simp add: faulty_def wp_def split: fault.split)

lemma wp_faultyI:
  assumes "wp m Q s" "\<And>e. Q (failed e) s" "\<And>e. wp m (\<lambda>_. Q (failed e)) s"
  shows "wp (faulty f failed m) Q s"
  using assms by (simp add: wp_faulty split: fault.split)

end
