(* ===== verification/SecretSystem.thy ===== *)
theory SecretSystem
  imports SecretConvergence AccountController Auth Faults
begin

text \<open>
  The image secret controller, the account controller and everybody else, interleaved in any
  order on one API server (\<open>cluster\<close>): a step relation, the worlds it reaches, and what
  holds in all of them. Each step of a controller is one reconciliation, in which any call
  may fail: a reconciliation whose calls are refused from some point on is one that was
  interrupted there.
\<close>

subsection \<open>Controllers on a server whose calls fail\<close>

definition flaky_reconciler :: "(string \<Rightarrow> cluster faults) \<Rightarrow> ReconcileImageSecretConfig \<Rightarrow> cluster ReconcileImageSecret" where
  "flaky_reconciler fs c = (cluster_reconciler c)\<lparr>crs := flaky_client (fs ''resources'') cluster_crs,
     registries := flaky_client (fs ''registries'') cluster_registries,
     accounts := flaky_client (fs ''accounts'') cluster_accounts,
     secrets := flaky_client (fs ''secrets'') cluster_secrets,
     cacheGet := (\<lambda>k. faulty (fs ''cache'' ''get'') Inl (Get cluster_secrets k))\<rparr>"

definition flaky_account_reconciler :: "cluster faults \<Rightarrow> cluster ReconcileImageRegistryAccount" where
  "flaky_account_reconciler f = \<lparr>acc_client = flaky_client f cluster_accounts, acc_lib = cluster_lib\<rparr>"

lemma no_faults [simp]:
  "flaky_reconciler (\<lambda>_ _ _. Works) c = cluster_reconciler c"
  "flaky_account_reconciler (\<lambda>_ _. Works) = cluster_account_reconciler"
  by (simp_all add: flaky_reconciler_def cluster_reconciler_def flaky_account_reconciler_def cluster_account_reconciler_def)

lemma flaky_reconciler_simps [simp]:
  "crs (flaky_reconciler fs c) = flaky_client (fs ''resources'') cluster_crs"
  "registries (flaky_reconciler fs c) = flaky_client (fs ''registries'') cluster_registries"
  "accounts (flaky_reconciler fs c) = flaky_client (fs ''accounts'') cluster_accounts"
  "secrets (flaky_reconciler fs c) = flaky_client (fs ''secrets'') cluster_secrets"
  "cacheGet (flaky_reconciler fs c) k = faulty (fs ''cache'' ''get'') Inl (Get cluster_secrets k)"
  "lib (flaky_reconciler fs c) = cluster_lib" "random (flaky_reconciler fs c) = cluster_random"
  "BcryptPassword (flaky_reconciler fs c) = cluster_bcrypt" "cfg (flaky_reconciler fs c) = c"
  "dnsZone (flaky_reconciler fs c) = ''svc.cluster.local''"
  by (simp_all add: flaky_reconciler_def)

lemma flaky_pure [simp]:
  "new_account (flaky_reconciler fs c) = new_account (cluster_reconciler c)"
  "fill_secret (flaky_reconciler fs c) = fill_secret (cluster_reconciler c)"
  "rotation_due (flaky_reconciler fs c) = rotation_due (cluster_reconciler c)"
  "getRegistryKeyForCR (flaky_reconciler fs c) = getRegistryKeyForCR (cluster_reconciler c)"
  by (simp_all add: fun_eq_iff new_account_def fill_secret_def rotation_due_def getRegistryKeyForCR_def
      flaky_reconciler_def split: option.split)

subsection \<open>What must hold of a stored secret\<close>

text \<open>The key of a resource's secret, and the resource at one of its rotations.\<close>

definition own_key :: "ReconcileImageSecretConfig \<Rightarrow> ImageSecret \<Rightarrow> NamespacedName" where
  "own_key c cr = NN (Namespace cr) (secretNameForCR (CRFactory c) cr)"

definition at_rotation :: "int \<Rightarrow> ImageSecret \<Rightarrow> ImageSecret" where
  "at_rotation n cr = cr\<lparr>Status := (Status cr)\<lparr>Rotation := n\<rparr>\<rparr>"

text \<open>
  An account fits the secret \<open>x\<close> of \<open>cr\<close>: it has the secret's user and password, and the
  authorization labels of the resource.
\<close>

definition account_fits ::
  "ReconcileImageSecretConfig \<Rightarrow> ImageSecret \<Rightarrow> targetRegistry \<Rightarrow> Secret \<Rightarrow> ImageRegistryAccount \<Rightarrow> bool" where
  "account_fits c cr registry x a \<longleftrightarrow> credentials_of registry cluster_compare a x \<and>
     acc_Labels a = Some [''namespace'' \<mapsto> [Namespace cr], ''name'' \<mapsto> [Name cr],
       ''accessMode'' \<mapsto> [GetRegistryAccessMode (CRFactory c)]]"

text \<open>
  A secret of \<open>cr\<close> is of a rotation that \<open>cr\<close> has counted and it is annotated with, and for a registry in whose
  namespace no account of the secret's user has another password or other labels.
\<close>

definition secret_fits :: "ReconcileImageSecretConfig \<Rightarrow> ImageSecret \<Rightarrow> Secret \<Rightarrow> cluster \<Rightarrow> bool" where
  "secret_fits c cr x s \<longleftrightarrow> (\<exists>n regcr registry.
     n \<le> Rotation (Status cr) \<and>
     map_get (Annotations x) annotationSecretRotation = FormatInt n \<and>
     map_get (Data x) SecretKeyUsername = accountNameForCR (CRFactory c) (at_rotation n cr) \<and>
     map_get (Data x) SecretKeyRegistry = tr_Hostname registry \<and>
     tr_Hostname registry = RegistryHostname regcr ''svc.cluster.local'' \<and>
     tr_Namespace registry = Namespace regcr \<and> CHR ''.'' \<notin> set (Namespace regcr) \<and>
     (\<forall>a. all_accounts s (NN (tr_Namespace registry) (map_get (Data x) SecretKeyUsername)) = Some a \<longrightarrow>
        account_fits c cr registry x a))"

definition coherent :: "ReconcileImageSecretConfig \<Rightarrow> cluster \<Rightarrow> bool" where
  "coherent c s \<longleftrightarrow> keyed (all_secrets s) \<and>
     (\<forall>k regcr. all_registries s k = Some regcr \<longrightarrow> CHR ''.'' \<notin> set (Namespace regcr)) \<and>
     (\<forall>k cr. all_crs s k = Some cr \<longrightarrow> object_key cr = k \<and> CHR ''.'' \<notin> set (Namespace cr) \<and>
        (\<forall>x. all_secrets s (own_key c cr) = Some x \<longrightarrow> secret_fits c cr x s))"

lemma own_key_eq: "own_key c cr = own_key c cr' \<longleftrightarrow> object_key cr = object_key cr'"
  by (auto simp: own_key_def secretNameForCR_def object_key_def)

lemma at_rotation_simps [simp]:
  "object_key (at_rotation n cr) = object_key cr" "Namespace (at_rotation n cr) = Namespace cr"
  "Name (at_rotation n cr) = Name cr" "Rotation (Status (at_rotation n cr)) = n"
  by (simp_all add: at_rotation_def object_key_def)

lemma account_name_at:
  "object_key cr = object_key cr' \<Longrightarrow>
   accountNameForCR k (at_rotation n cr) = accountNameForCR k (at_rotation n cr')"
  by (simp add: accountNameForCR_def at_rotation_def object_key_def)

lemma at_own_rotation: "accountNameForCR k (at_rotation (Rotation (Status cr)) cr) = accountNameForCR k cr"
  by (simp add: accountNameForCR_def at_rotation_def)

lemma secret_fits_same:
  "Data x = Data y \<Longrightarrow> Annotations x = Annotations y \<Longrightarrow> secret_fits c cr x s \<longleftrightarrow> secret_fits c cr y s"
  by (simp add: secret_fits_def account_fits_def credentials_of_def Let_def)

text \<open>What keeps a secret fitting: other resources, fewer accounts, a higher count.\<close>

lemma secret_fits_mono:
  assumes "secret_fits c cr x s"
    and "object_key cr' = object_key cr" "Rotation (Status cr) \<le> Rotation (Status cr')"
    and "\<And>ns a. all_accounts s' (NN ns (map_get (Data x) SecretKeyUsername)) = Some a \<Longrightarrow>
      all_accounts s (NN ns (map_get (Data x) SecretKeyUsername)) = Some a"
  shows "secret_fits c cr' x s'"
proof -
  have key: "Namespace cr' = Namespace cr" "Name cr' = Name cr"
    using assms(2) by (simp_all add: object_key_def)
  from assms(1) obtain n regcr registry where n: "n \<le> Rotation (Status cr)"
    and tag: "map_get (Annotations x) annotationSecretRotation = FormatInt n"
    and x: "map_get (Data x) SecretKeyUsername = accountNameForCR (CRFactory c) (at_rotation n cr)"
      "map_get (Data x) SecretKeyRegistry = tr_Hostname registry"
      "tr_Hostname registry = RegistryHostname regcr ''svc.cluster.local''"
      "tr_Namespace registry = Namespace regcr" "CHR ''.'' \<notin> set (Namespace regcr)"
    and a: "\<And>a. all_accounts s (NN (tr_Namespace registry) (map_get (Data x) SecretKeyUsername)) = Some a \<Longrightarrow>
        account_fits c cr registry x a"
    unfolding secret_fits_def by blast
  from n assms(3) have "n \<le> Rotation (Status cr')" by simp
  moreover have "map_get (Data x) SecretKeyUsername = accountNameForCR (CRFactory c) (at_rotation n cr')"
    using x(1) account_name_at [OF assms(2)] by metis
  moreover have "account_fits c cr' registry x b"
    if "all_accounts s' (NN (tr_Namespace registry) (map_get (Data x) SecretKeyUsername)) = Some b" for b
    using a [OF assms(4) [OF that]] by (simp add: account_fits_def key)
  ultimately show ?thesis using tag x(2-) unfolding secret_fits_def by blast
qed

lemma coherentI:
  assumes "keyed (all_secrets s)"
    and "\<And>k regcr. all_registries s k = Some regcr \<Longrightarrow> CHR ''.'' \<notin> set (Namespace regcr)"
    and "\<And>k cr. all_crs s k = Some cr \<Longrightarrow> object_key cr = k \<and> CHR ''.'' \<notin> set (Namespace cr)"
    and "\<And>k cr x. all_crs s k = Some cr \<Longrightarrow> all_secrets s (own_key c cr) = Some x \<Longrightarrow> secret_fits c cr x s"
  shows "coherent c s"
  using assms by (auto simp: coherent_def)

lemma coherentD:
  assumes "coherent c s"
  shows "keyed (all_secrets s)"
    and "all_crs s k = Some cr \<Longrightarrow> object_key cr = k" "all_crs s k = Some cr \<Longrightarrow> CHR ''.'' \<notin> set (Namespace cr)"
    and "all_crs s k = Some cr \<Longrightarrow> all_secrets s (own_key c cr) = Some x \<Longrightarrow> secret_fits c cr x s"
    and "all_registries s k = Some regcr \<Longrightarrow> CHR ''.'' \<notin> set (Namespace regcr)"
  using assms by (auto simp: coherent_def)

lemma coherent_fewer_accounts:
  assumes "coherent c s" "all_crs s' = all_crs s" "all_secrets s' = all_secrets s"
    and "all_accounts s' \<subseteq>\<^sub>m all_accounts s" "all_registries s' = all_registries s"
  shows "coherent c s'"
proof (rule coherentI, unfold assms(2,3,5))
  fix k cr x assume "all_crs s k = Some cr" "all_secrets s (own_key c cr) = Some x"
  then show "secret_fits c cr x s'"
    by (rule secret_fits_mono [OF coherentD(4) [OF assms(1)]])
      (use assms(4) in \<open>auto simp: map_le_def dom_def\<close>)
qed (use coherentD [OF assms(1)] in auto)

text \<open>
  A resource is written with at least its count, and at most the account of a rotation that
  was not counted before is new.
\<close>

lemma username_counted:
  assumes "secret_fits c cr' x s" "CHR ''.'' \<notin> set (Namespace cr)" "CHR ''.'' \<notin> set (Namespace cr')"
    and "object_key cr' \<noteq> object_key cr \<or> Rotation (Status cr') < Rotation (Status cr)"
  shows "map_get (Data x) SecretKeyUsername \<noteq> accountNameForCR (CRFactory c) cr"
proof -
  obtain n where "n \<le> Rotation (Status cr')"
    "map_get (Data x) SecretKeyUsername = accountNameForCR (CRFactory c) (at_rotation n cr')"
    using assms(1) by (auto simp: secret_fits_def)
  moreover have "accountNameForCR (CRFactory c) (at_rotation n cr') = accountNameForCR (CRFactory c) cr \<longleftrightarrow>
      object_key cr' = object_key cr \<and> n = Rotation (Status cr)"
    using assms(2,3) by (auto simp: accountNameForCR_def join_inj join_inj_right object_key_def)
  ultimately show ?thesis using assms(4) by auto
qed

lemma coherent_step:
  assumes "coherent c s" "all_crs s (object_key cr) = Some cr0" "Rotation (Status cr0) \<le> Rotation (Status cr)"
    and "all_crs s' = (all_crs s)(object_key cr \<mapsto> cr)" "all_secrets s' = all_secrets s"
    and "all_registries s' = all_registries s"
    and "\<And>ns n a. all_accounts s' (NN ns n) = Some a \<Longrightarrow> all_accounts s (NN ns n) = Some a \<or>
      n = accountNameForCR (CRFactory c) cr \<and> Rotation (Status cr0) < Rotation (Status cr)"
  shows "coherent c s'"
proof (rule coherentI, unfold assms(4,5,6))
  note key = coherentD(2) [OF assms(1,2)]
  have ns: "Namespace cr0 = Namespace cr" using key by (simp add: object_key_def)
  have dot: "CHR ''.'' \<notin> set (Namespace cr)" using coherentD(3) [OF assms(1,2)] by (simp add: ns)
  fix k cr1
  assume k: "((all_crs s)(object_key cr \<mapsto> cr)) k = Some cr1"
  show cr1: "object_key cr1 = k \<and> CHR ''.'' \<notin> set (Namespace cr1)"
    using k coherentD(2,3) [OF assms(1)] dot by (auto split: if_splits)
  fix x assume x: "all_secrets s (own_key c cr1) = Some x"
  have "\<exists>cr2. all_crs s k = Some cr2 \<and> object_key cr1 = object_key cr2 \<and>
    Rotation (Status cr2) \<le> Rotation (Status cr1) \<and> (object_key cr2 = object_key cr \<longrightarrow> cr2 = cr0)"
  proof (cases "k = object_key cr")
    case True
    then show ?thesis using k assms(2,3) key by (intro exI [of _ cr0]) simp
  next
    case False
    then have "all_crs s k = Some cr1" using k by simp
    with coherentD(2) [OF assms(1) this] False show ?thesis by (intro exI [of _ cr1]) simp
  qed
  then obtain cr2 where cr2: "all_crs s k = Some cr2" "object_key cr1 = object_key cr2"
    "Rotation (Status cr2) \<le> Rotation (Status cr1)" "object_key cr2 = object_key cr \<Longrightarrow> cr2 = cr0"
    by blast
  then have fits: "secret_fits c cr2 x s"
    using x own_key_eq [of c cr1 cr2] by (intro coherentD(4) [OF assms(1)]) auto
  have "map_get (Data x) SecretKeyUsername \<noteq> accountNameForCR (CRFactory c) cr"
    if "Rotation (Status cr0) < Rotation (Status cr)"
    by (rule username_counted [OF fits dot coherentD(3) [OF assms(1) cr2(1)]]) (use cr2(4) that in auto)
  then show "secret_fits c cr1 x s'"
    by (intro secret_fits_mono [OF fits]) (use cr2 assms(7) in auto)
qed (use coherentD(1,5) [OF assms(1)] in auto)

lemmas coherent_resource = coherent_step [OF _ _ _ _ _ _ disjI1]

lemma coherent_secret:
  assumes "coherent c s" "all_crs s (object_key cr) = Some cr"
    and "all_crs s' = all_crs s" "all_accounts s' = all_accounts s" "all_registries s' = all_registries s"
    and "all_secrets s' = (all_secrets s)(own_key c cr \<mapsto> x)" "object_key x = own_key c cr"
    and "secret_fits c cr x s"
  shows "coherent c s'"
proof (rule coherentI, unfold assms(3,5,6))
  fix k cr1
  assume k: "all_crs s k = Some cr1"
  show "object_key cr1 = k \<and> CHR ''.'' \<notin> set (Namespace cr1)"
    using coherentD(2,3) [OF assms(1) k] by simp
  fix y assume y: "((all_secrets s)(own_key c cr \<mapsto> x)) (own_key c cr1) = Some y"
  have "secret_fits c cr1 y s"
  proof (cases "own_key c cr1 = own_key c cr")
    case True
    then have "k = object_key cr" using coherentD(2) [OF assms(1) k] own_key_eq by metis
    then have "cr1 = cr" using k assms(2) by simp
    with y assms(8) show ?thesis by simp
  next
    case False
    with y have "all_secrets s (own_key c cr1) = Some y" by simp
    then show ?thesis by (rule coherentD(4) [OF assms(1) k])
  qed
  then show "secret_fits c cr1 y s'" by (rule secret_fits_mono) (simp_all add: assms(4))
next
  show "keyed ((all_secrets s)(own_key c cr \<mapsto> x))"
    using keyed_upd [OF coherentD(1) [OF assms(1)], of x] by (simp add: assms(7))
qed (rule coherentD(5) [OF assms(1)])

subsection \<open>A rotation keeps it\<close>

lemma wp_cluster_orphans:
  assumes "\<And>s' e. s' = s\<lparr>all_accounts := all_accounts s', next_uid := next_uid s'\<rparr> \<Longrightarrow>
      all_accounts s' \<subseteq>\<^sub>m all_accounts s \<Longrightarrow> Q e s'"
  shows "wp (deleteOrphanAccounts (flaky_reconciler fs c) nn ns) Q s"
proof -
  have del: "wp (DeleteAllOf cluster_accounts ls ns) R s"
    if "\<And>s' e. s' = s\<lparr>all_accounts := all_accounts s', next_uid := next_uid s'\<rparr> \<Longrightarrow>
      all_accounts s' \<subseteq>\<^sub>m all_accounts s \<Longrightarrow> R e s'" for R ls
    by (auto simp: cluster_accounts_def mem_client_def wp_def map_le_def dom_def intro!: that split: option.splits if_splits)
  show ?thesis
    by (auto simp: deleteOrphanAccounts_def intro!: wp_faultyI del assms)
qed

lemma filled_fits:
  assumes "standard_config c" "password_ok pw" "tr_Hostname registry = RegistryHostname regcr ''svc.cluster.local''"
    and "tr_Namespace registry = Namespace regcr" "CHR ''.'' \<notin> set (Namespace regcr)"
    and "all_accounts s (NN (tr_Namespace registry) (accountNameForCR (CRFactory c) cr)) = Some a"
    and "a = complete_object s0 (new_account (cluster_reconciler c) cr registry (''hash:'' @ pw))"
  shows "secret_fits c cr ((fill_secret (cluster_reconciler c) cr registry a pw x)\<lparr>OwnerReferences := refs\<rparr>) s"
proof -
  let ?x = "(fill_secret (cluster_reconciler c) cr registry a pw x)\<lparr>OwnerReferences := refs\<rparr>"
  have name: "Name a = accountNameForCR (CRFactory c) cr" by (simp add: assms(7) new_account_def)
  have "credentials_of registry cluster_compare (new_account (cluster_reconciler c) cr registry (''hash:'' @ pw)) ?x"
    by (rule fill_secret_credentials) (use assms name in \<open>simp_all add: cluster_compare_def\<close>)
  then have cred: "credentials_of registry cluster_compare a ?x"
    by (simp add: assms(7) credentials_of_def complete_object_def)
  then have "map_get (Data ?x) SecretKeyUsername = accountNameForCR (CRFactory c) (at_rotation (Rotation (Status cr)) cr)"
    "map_get (Data ?x) SecretKeyRegistry = tr_Hostname registry"
    by (simp_all add: credentials_of_def Let_def name at_own_rotation)
  moreover have "map_get (Annotations ?x) annotationSecretRotation = FormatInt (Rotation (Status cr))"
    by (simp add: fill_secret_def map_get_def)
  moreover have "account_fits c cr registry ?x a"
    using cred by (simp add: account_fits_def assms(7) complete_object_def new_account_def)
  ultimately show ?thesis
    using assms(3-6) unfolding secret_fits_def
    by (intro exI [of _ "Rotation (Status cr)"] exI [of _ regcr] exI [of _ registry]) (simp add: at_own_rotation)
qed

definition held :: "ImageSecret \<Rightarrow> cluster \<Rightarrow> bool" where
  "held cr s \<longleftrightarrow> (\<exists>cr0. all_crs s (object_key cr) = Some cr0 \<and> Rotation (Status cr0) \<le> Rotation (Status cr))"

lemma rotation_coherent:
  assumes "standard_config c" "coherent c s" "all_crs s (object_key cr) = Some cr0"
    and "Rotation (Status cr0) = Rotation (Status cr)"
    and "minDuration \<le> Rotation (Status cr)" "Rotation (Status cr) < maxDuration"
    and "object_key secret = own_key c cr" "tr_Hostname registry = RegistryHostname regcr ''svc.cluster.local''"
    and "tr_Namespace registry = Namespace regcr" "CHR ''.'' \<notin> set (Namespace regcr)"
  shows "wp (rotatePassword (flaky_reconciler fs c) cr registry secret)
     (\<lambda>res s'. coherent c s' \<and> (\<forall>e cr1. res = Returned (e, cr1) \<longrightarrow> held cr1 s')) s"
proof -
  let ?r = "cluster_reconciler c" and ?cr1 = "next_rotation cr (clock s) (tr_Namespace registry)"
  let ?Q = "\<lambda>res s'. coherent c s' \<and> (\<forall>e cr1. res = Returned (e, cr1) \<longrightarrow> held cr1 s')"
  have count: "Rotation (Status ?cr1) = Rotation (Status cr) + 1"
    using assms(5,6) by (simp add: next_rotation_def minDuration_def maxDuration_def)
  then have less: "Rotation (Status cr0) < Rotation (Status ?cr1)"
    using assms(4) by linarith
  then have le: "Rotation (Status cr0) \<le> Rotation (Status ?cr1)" by simp
  have key: "own_key c ?cr1 = own_key c cr" by (simp add: own_key_eq)
  have finish: "wp (do { now \<leftarrow> Now cluster_lib;
      u \<leftarrow> StatusUpdate (flaky_client (fs ''resources'') cluster_crs) (next_rotation cr now (tr_Namespace registry));
      case fst u of
        Some err \<Rightarrow> ret (Returned (Some err, snd u))
      | None \<Rightarrow> do {
      a \<leftarrow> Create (flaky_client (fs ''accounts'') cluster_accounts) (new_account ?r (snd u) registry (''hash:'' @ pw));
      case fst a of
        Some err \<Rightarrow> ret (Returned (Some err, snd u))
      | None \<Rightarrow>
         (let filled = fill_secret ?r (snd u) registry (snd a) pw secret in
          case SetControllerReference cluster_lib (kobject.truncate (snd u)) (kobject.truncate filled) of
            Inl err \<Rightarrow> ret (Returned (Some err, snd u))
          | Inr refs \<Rightarrow> do {
              w \<leftarrow> (if length (UID filled) = 0
                   then Create (flaky_client (fs ''secrets'') cluster_secrets) (filled\<lparr>OwnerReferences := refs\<rparr>)
                   else Update (flaky_client (fs ''secrets'') cluster_secrets) (filled\<lparr>OwnerReferences := refs\<rparr>));
              ret (Returned (fst w, snd u))
            }) } }) ?Q s0"
    if s0: "s0 = s\<lparr>all_accounts := all_accounts s0, next_uid := next_uid s0\<rparr>" "all_accounts s0 \<subseteq>\<^sub>m all_accounts s"
      and pw: "password_ok pw" for s0 pw
  proof -
    have same: "all_crs s0 = all_crs s" "clock s0 = clock s" "all_secrets s0 = all_secrets s"
      "all_registries s0 = all_registries s"
      by (subst s0(1), simp)+
    have c0: "coherent c s0" by (rule coherent_fewer_accounts [OF assms(2)]) (use same s0(2) in simp_all)
    let ?s1 = "s0\<lparr>all_crs := (all_crs s)(object_key cr \<mapsto> ?cr1), next_uid := Suc (next_uid s0)\<rparr>"
    let ?new = "new_account ?r ?cr1 registry (''hash:'' @ pw)"
    let ?s2 = "?s1\<lparr>all_accounts := (all_accounts s0)(object_key ?new \<mapsto> complete_object ?s1 ?new),
      next_uid := Suc (Suc (next_uid s0))\<rparr>"
    have c1: "coherent c ?s1"
      by (rule coherent_resource [OF c0, where cr = ?cr1 and cr0 = cr0])
        (use assms(3) le in \<open>simp_all add: same\<close>)
    have c2: "coherent c ?s2"
      by (rule coherent_step [OF c0, where cr = ?cr1 and cr0 = cr0])
        (use assms(3) less le in \<open>auto simp: same new_account_def object_key_def split: if_splits\<close>)
    have c3: "coherent c (?s2\<lparr>all_secrets := (all_secrets s)(own_key c cr \<mapsto> x), next_uid := n\<rparr>)"
      if "x = complete_object s3 ((fill_secret ?r ?cr1 registry (complete_object ?s1 ?new) pw secret)\<lparr>OwnerReferences := refs\<rparr>) \<or>
        x = (fill_secret ?r ?cr1 registry (complete_object ?s1 ?new) pw secret)\<lparr>OwnerReferences := refs\<rparr>" for x s3 refs n
    proof (rule coherent_secret [OF c2, where cr = ?cr1 and x = x])
      show "object_key x = own_key c ?cr1" using that assms(7) key by auto
      have "secret_fits c ?cr1 ((fill_secret ?r ?cr1 registry (complete_object ?s1 ?new) pw secret)\<lparr>OwnerReferences := refs\<rparr>) ?s2"
        by (rule filled_fits [OF assms(1) pw assms(8-10)]) (simp_all add: new_account_def object_key_def)
      moreover have "Data x = Data ((fill_secret ?r ?cr1 registry (complete_object ?s1 ?new) pw secret)\<lparr>OwnerReferences := refs\<rparr>)"
        "Annotations x = Annotations ((fill_secret ?r ?cr1 registry (complete_object ?s1 ?new) pw secret)\<lparr>OwnerReferences := refs\<rparr>)"
        using that by auto
      ultimately show "secret_fits c ?cr1 x ?s2"
        using secret_fits_same by blast
    qed (simp_all add: key same)
    have held: "held ?cr1 t" if "all_crs t = (all_crs s)(object_key cr \<mapsto> ?cr1) \<or> all_crs t = all_crs s" for t
      using that assms(3) le by (auto simp: held_def)
    show ?thesis
      using assms(3) c0 c1 c2 c3 [OF disjI1 [OF refl]] c3 [OF disjI2 [OF refl]] assms(7)
      by (auto simp: wp_cluster same Let_def held intro!: wp_faultyI split: option.split sum.split)
  qed
  show ?thesis
    unfolding rotatePassword_def flaky_reconciler_simps flaky_pure wp_bind
  proof (rule wp_cluster_password, goal_cases)
    case (1 pw n)
    show ?case
      unfolding wp_case_outcome outcome.case wp_bind wp_cluster(2) wp_case_sum sum.case
      by (rule wp_mono [where P = "\<lambda>_ s0. s0 = s\<lparr>all_accounts := all_accounts s0, next_uid := next_uid s0\<rparr> \<and>
          all_accounts s0 \<subseteq>\<^sub>m all_accounts s"])
        (auto intro!: wp_cluster_orphans finish [unfolded wp_bind] simp: 1 simp del: flaky_client_simps)
  qed
qed

subsection \<open>A reconciliation keeps it\<close>

lemma wp_cluster_SetCondition:
  "(\<And>cs' b. Q (cs', b) s) \<Longrightarrow> wp (SetCondition cluster_lib x cs) Q s"
  by (auto simp: cluster_lib_def wp_State split: option.split)

lemma wp_cluster_update_cr:
  "wp (Update cluster_crs x) Q s = (case all_crs s (object_key x) of
     None \<Rightarrow> Q (Some (ErrNotFound ''not found''), x) s
   | Some _ \<Rightarrow> Q (None, x) (s\<lparr>all_crs := (all_crs s)(object_key x \<mapsto> x), next_uid := Suc (next_uid s)\<rparr>))"
  by (simp add: wp_def cluster_crs_def mem_client_def split: option.split)

lemma written_coherent:
  assumes "coherent c s" "held x s" "all_crs s (object_key x) = Some y"
  shows "coherent c (s\<lparr>all_crs := (all_crs s)(object_key x \<mapsto> x), next_uid := n\<rparr>)"
  using assms(2) by (auto simp: held_def intro!: coherent_resource [OF assms(1)])

lemma status_coherent:
  assumes "coherent c s" "held cr s"
  shows "wp (setSyncStatus (flaky_reconciler fs c) cr t st reason msg) (\<lambda>_ s'. coherent c s') s"
proof -
  have "held (cr\<lparr>Status := (Status cr)\<lparr>st_Conditions := cs, st_ObservedGeneration := g\<rparr>\<rparr>) s" for cs g
    using assms(2) by (simp add: held_def object_key_def)
  from written_coherent [OF assms(1) this] show ?thesis
    by (auto simp: setSyncStatus_def wp_cluster assms(1) intro!: wp_cluster_SetCondition wp_faultyI split: option.split)
qed

lemma finalize_coherent:
  assumes "coherent c s" "all_crs s (object_key cr) = Some cr"
  shows "wp (finalize_secret (flaky_reconciler fs c) request cr) (\<lambda>_ s'. coherent c s') s"
proof -
  have upd: "wp (Update (flaky_client f cluster_crs) (cr\<lparr>Finalizers := fin\<rparr>)) (\<lambda>u s'. coherent c s') s'"
    if "s' = s\<lparr>all_accounts := all_accounts s', next_uid := next_uid s'\<rparr>" "all_accounts s' \<subseteq>\<^sub>m all_accounts s" for s' fin f
  proof -
    have same: "all_crs s' = all_crs s" "all_secrets s' = all_secrets s" "all_registries s' = all_registries s"
      by (subst that(1), simp)+
    have c: "coherent c s'" by (rule coherent_fewer_accounts [OF assms(1) same(1,2) that(2) same(3)])
    have "held (cr\<lparr>Finalizers := fin\<rparr>) s'" using assms(2) by (simp add: held_def same)
    from written_coherent [OF c this] show ?thesis
      using c by (auto simp: wp_cluster_update_cr intro!: wp_faultyI split: option.split)
  qed
  have fewer: "coherent c s'" if "s' = s\<lparr>all_accounts := all_accounts s', next_uid := next_uid s'\<rparr>"
      "all_accounts s' \<subseteq>\<^sub>m all_accounts s" for s'
    by (rule coherent_fewer_accounts [OF assms(1) _ _ that(2)]) (subst that(1), simp)+
  show ?thesis
    using assms(1)
    by (auto simp: finalize_secret_def simp del: flaky_client_simps
        intro!: wp_cluster_orphans wp_mono [OF upd] fewer split: option.split)
qed

lemma add_finalizer_coherent:
  assumes "coherent c s" "all_crs s (object_key cr) = Some cr"
  shows "wp (add_finalizer (flaky_reconciler fs c) cr) (\<lambda>_ s'. coherent c s') s"
proof -
  let ?cr = "\<lambda>fin. cr\<lparr>Finalizers := fin\<rparr>"
  let ?s = "\<lambda>fin. s\<lparr>all_crs := (all_crs s)(object_key cr \<mapsto> ?cr fin), next_uid := Suc (next_uid s)\<rparr>"
  have held: "held (?cr fin) s" "held (?cr fin) (?s fin)" for fin using assms(2) by (simp_all add: held_def)
  have written: "coherent c (?s fin)" for fin
    using written_coherent [OF assms(1) held(1), of fin] assms(2) by simp
  show ?thesis
    using assms(2) written
    by (auto simp: add_finalizer_def wp_cluster_update_cr intro!: wp_faultyI wp_mono [OF status_coherent]
        status_coherent [OF assms(1) held(1)] status_coherent [OF written held(2)] simp: assms(1) held split: option.split)
qed

text \<open>What is read, if anything, is what is stored.\<close>

lemma flaky_get:
  "wp (Get (flaky_client f cluster_registries) k) (\<lambda>res s'. s' = s \<and> (\<forall>x. res = Inr x \<longrightarrow> all_registries s k = Some x)) s"
  "wp (Get (flaky_client f cluster_accounts) k) (\<lambda>res s'. s' = s \<and> (\<forall>x. res = Inr x \<longrightarrow> all_accounts s k = Some x)) s"
  "wp (Get (flaky_client f cluster_secrets) k) (\<lambda>res s'. s' = s \<and> (\<forall>x. res = Inr x \<longrightarrow> all_secrets s k = Some x)) s"
  "wp (Get (flaky_client f cluster_crs) k) (\<lambda>res s'. s' = s \<and> (\<forall>x. res = Inr x \<longrightarrow> all_crs s k = Some x)) s"
  "wp (faulty g Inl (Get cluster_secrets k)) (\<lambda>res s'. s' = s \<and> (\<forall>x. res = Inr x \<longrightarrow> all_secrets s k = Some x)) s"
  unfolding flaky_client_simps by (rule wp_faultyI; simp add: wp_def split: option.split)+

lemma getRegistry_found:
  "wp (getRegistry (flaky_reconciler fs c) k) (\<lambda>res s'. s' = s \<and> (\<forall>registry. res = Inr registry \<longrightarrow>
     (\<exists>regcr. tr_Hostname registry = RegistryHostname regcr ''svc.cluster.local'' \<and>
       tr_Namespace registry = Namespace regcr \<and> all_registries s k = Some regcr))) s"
  unfolding getRegistry_def flaky_reconciler_simps wp_bind
  by (rule wp_mono [OF flaky_get(1)])
    (auto simp del: flaky_client_simps intro!: wp_mono [OF flaky_get(5)] split: sum.split)

lemma get_object_found:
  assumes "\<And>k. wp (Get cl k) (\<lambda>res s'. s' = s \<and> (\<forall>x. res = Inr x \<longrightarrow> stored s k = Some x)) s"
  shows "wp (get_object cl obj) (\<lambda>res s'. s' = s \<and>
     (snd (snd res) = obj \<or> stored s (object_key obj) = Some (snd (snd res)))) s"
  unfolding get_object_def wp_bind by (rule wp_mono [OF assms]) (auto split: sum.split)

lemma sync_coherent:
  assumes "standard_config c" "coherent c s" "all_crs s (object_key cr) = Some cr"
    and "minDuration \<le> Rotation (Status cr)" "Rotation (Status cr) < maxDuration"
  shows "wp (sync_secret (flaky_reconciler fs c) cr) (\<lambda>_ s'. coherent c s') s"
proof -
  let ?r = "cluster_reconciler c"
  obtain k cr' where key: "getRegistryKeyForCR ?r cr = (k, cr')" by fastforce
  note again = registry_key_again [OF key]
  let ?own = "new_secret (Namespace cr') (secretNameForCR (CRFactory c) cr')"
  have own: "object_key ?own = own_key c cr'" by (simp add: own_key_def)
  have held: "held cr' s" using assms(3) again(2,5) by (simp add: held_def)
  have rot: "wp (rotatePassword (flaky_reconciler fs c) cr' registry x)
      (\<lambda>res s'. coherent c s' \<and> (\<forall>e cr1. res = Returned (e, cr1) \<longrightarrow> held cr1 s')) s"
    if "tr_Hostname registry = RegistryHostname regcr ''svc.cluster.local''" "tr_Namespace registry = Namespace regcr"
      "all_registries s k = Some regcr" "x = ?own \<or> all_secrets s (object_key ?own) = Some x" for registry regcr x
  proof (rule rotation_coherent [OF assms(1,2) _ _ _ _ _ that(1,2) coherentD(5) [OF assms(2) that(3)]])
    show "object_key x = own_key c cr'"
      using that(4) own coherentD(1) [OF assms(2)] by (auto simp: keyed_def)
  qed (use assms(3-5) again(2,5) in simp_all)
  show ?thesis
    unfolding sync_secret_def key prod.case wp_bind flaky_reconciler_simps flaky_pure Let_def
  proof (rule wp_mono [OF getRegistry_found], goal_cases)
    case (1 g s')
    then show ?case
    proof (cases g)
      case (Inl err)
      with 1 show ?thesis by (auto intro!: wp_mono [OF status_coherent [OF assms(2) held]])
    next
      case (Inr registry)
      with 1 obtain regcr where regcr: "tr_Hostname registry = RegistryHostname regcr ''svc.cluster.local''"
        "tr_Namespace registry = Namespace regcr" "all_registries s k = Some regcr" and s': "s' = s" by blast
      show ?thesis
        unfolding Inr sum.case wp_bind s'
        by (rule wp_mono [OF get_object_found [OF flaky_get(2)]], clarsimp simp: assms(2) split: option.split,
            rule wp_mono [OF get_object_found [OF flaky_get(3)]], clarsimp simp: assms(2) wp_cluster split: option.split)
          (auto intro!: wp_mono [OF rot [OF regcr]] wp_mono [OF status_coherent] simp: assms(2) held
            split: outcome.split option.split)
    qed
  qed
qed

lemma reconcile_coherent:
  assumes "standard_config c" "coherent c s"
    and "\<And>cr. all_crs s request = Some cr \<Longrightarrow> minDuration \<le> Rotation (Status cr) \<and> Rotation (Status cr) < maxDuration"
  shows "wp (SecretReconciler.Reconcile (flaky_reconciler fs c) request) (\<lambda>_ s'. coherent c s') s"
  unfolding SecretReconciler.Reconcile_def wp_bind flaky_reconciler_simps
proof (rule wp_mono [OF flaky_get(4)], goal_cases)
  case (1 g s')
  then show ?case
  proof (cases g)
    case (Inr cr)
    with 1 have s': "s' = s" and stored: "all_crs s request = Some cr" by auto
    have cr: "all_crs s (object_key cr) = Some cr" using coherentD(2) [OF assms(2) stored] stored by simp
    show ?thesis
      using assms(3) [OF stored]
      by (auto simp: Inr s' intro!: wp_mono [OF finalize_coherent [OF assms(2) cr]]
          wp_mono [OF add_finalizer_coherent [OF assms(2) cr]] sync_coherent [OF assms(1,2) cr])
  qed (simp add: assms(2))
qed

lemma expiry_coherent:
  assumes "coherent c s"
  shows "wp (AccountController.Reconcile (flaky_account_reconciler f) k) (\<lambda>_ s'. coherent c s') s"
proof -
  have "coherent c (s\<lparr>all_accounts := (all_accounts s)(j := None), next_uid := n\<rparr>)" for j n
    by (rule coherent_fewer_accounts [OF assms]) (auto simp: map_le_def)
  then show ?thesis
    by (auto simp: AccountController.Reconcile_def flaky_account_reconciler_def cluster_accounts_def mem_client_def
        Expired_def wp_State wp_cluster assms intro!: wp_faultyI split: option.split)
qed

subsection \<open>The system\<close>

text \<open>
  What everybody else may do in one step: change specs and metadata of resources, create and
  remove them, change registries, remove accounts and secrets, create accounts that do not
  have a name of this controller's (those of the other controller, for instance), write
  secrets that are not a resource's, let time pass. Namespaces have no dots.
\<close>

definition others_change :: "ReconcileImageSecretConfig \<Rightarrow> cluster \<Rightarrow> cluster \<Rightarrow> bool" where
  "others_change c s s' \<longleftrightarrow> clock s \<le> clock s' \<and> keyed (all_secrets s') \<and>
     (\<forall>k regcr. all_registries s' k = Some regcr \<longrightarrow> CHR ''.'' \<notin> set (Namespace regcr)) \<and>
     (\<forall>k cr. all_crs s' k = Some cr \<longrightarrow> object_key cr = k \<and> CHR ''.'' \<notin> set (Namespace cr) \<and>
        (\<forall>x. all_secrets s' (own_key c cr) = Some x \<longrightarrow> all_secrets s (own_key c cr) = Some x \<and>
           (\<exists>cr0. all_crs s k = Some cr0 \<and> Rotation (Status cr0) \<le> Rotation (Status cr)))) \<and>
     (\<forall>ns n a. all_accounts s' (NN ns n) = Some a \<longrightarrow> all_accounts s (NN ns n) = Some a \<or>
        (\<forall>cr. n \<noteq> accountNameForCR (CRFactory c) cr))"

text \<open>
  The steps, with any faults. The count of rotations is a number of 64 bits, which is not exhausted.
\<close>

inductive system_step :: "ReconcileImageSecretConfig \<Rightarrow> cluster \<Rightarrow> cluster \<Rightarrow> bool" for c where
  secret_reconciled: "\<lbrakk>\<And>cr. all_crs s request = Some cr \<Longrightarrow>
      minDuration \<le> Rotation (Status cr) \<and> Rotation (Status cr) < maxDuration;
    run_state (SecretReconciler.Reconcile (flaky_reconciler fs c) request) s = (res, s')\<rbrakk>
    \<Longrightarrow> system_step c s s'"
| account_reconciled: "run_state (AccountController.Reconcile (flaky_account_reconciler f) request) s = (res', s')
    \<Longrightarrow> system_step c s s'"
| others: "others_change c s s' \<Longrightarrow> system_step c s s'"

inductive reachable_world :: "ReconcileImageSecretConfig \<Rightarrow> cluster \<Rightarrow> bool" for c where
  initially: "\<lbrakk>keyed (all_secrets s);
    \<And>k regcr. all_registries s k = Some regcr \<Longrightarrow> CHR ''.'' \<notin> set (Namespace regcr);
    \<And>k cr. all_crs s k = Some cr \<Longrightarrow> object_key cr = k \<and> CHR ''.'' \<notin> set (Namespace cr) \<and>
      all_secrets s (own_key c cr) = None\<rbrakk> \<Longrightarrow> reachable_world c s"
| afterwards: "\<lbrakk>reachable_world c s; system_step c s s'\<rbrakk> \<Longrightarrow> reachable_world c s'"

lemma others_coherent:
  assumes "coherent c s" "others_change c s s'"
  shows "coherent c s'"
proof (rule coherentI)
  fix k cr x
  assume cr: "all_crs s' k = Some cr" and x: "all_secrets s' (own_key c cr) = Some x"
  obtain cr0 where cr0: "all_crs s k = Some cr0" "Rotation (Status cr0) \<le> Rotation (Status cr)"
    and old: "all_secrets s (own_key c cr) = Some x" and key: "object_key cr = k"
    using assms(2) cr x unfolding others_change_def by blast
  have "object_key cr = object_key cr0" using coherentD(2) [OF assms(1) cr0(1)] key by simp
  then have fits: "secret_fits c cr0 x s"
    using old own_key_eq [of c cr cr0] by (intro coherentD(4) [OF assms(1) cr0(1)]) simp
  then obtain n where user: "map_get (Data x) SecretKeyUsername = accountNameForCR (CRFactory c) (at_rotation n cr0)"
    by (auto simp: secret_fits_def)
  show "secret_fits c cr x s'"
  proof (rule secret_fits_mono [OF fits \<open>object_key cr = object_key cr0\<close> cr0(2)])
    fix ns a assume "all_accounts s' (NN ns (map_get (Data x) SecretKeyUsername)) = Some a"
    then show "all_accounts s (NN ns (map_get (Data x) SecretKeyUsername)) = Some a"
      using assms(2) unfolding others_change_def user by blast
  qed
qed (use assms(2) in \<open>auto simp: others_change_def\<close>)

lemma step_coherent:
  assumes "standard_config c" "coherent c s" "system_step c s s'"
  shows "coherent c s'"
  using assms(3)
proof cases
  case (secret_reconciled request fs res)
  then show ?thesis using reconcile_coherent [OF assms(1,2), of request fs] by (simp add: wp_def)
next
  case (account_reconciled f request res)
  then show ?thesis using expiry_coherent [OF assms(2), of f request] by (simp add: wp_def)
next
  case others
  then show ?thesis by (rule others_coherent [OF assms(2)])
qed

lemma reachable_coherent:
  assumes "reachable_world c s" "standard_config c"
  shows "coherent c s"
  using assms by induction (auto intro: step_coherent coherentI)

text \<open>The authenticator of a registry in the namespace \<open>ns\<close>.\<close>

definition cluster_authenticator :: "string \<Rightarrow> cluster Authenticator" where
  "cluster_authenticator ns = \<lparr>au_Get = Get cluster_accounts, au_Now = Now cluster_lib,
     CompareHashAndPassword = cluster_compare, au_namespace = ns\<rparr>"

lemma login_answer:
  assumes "user \<noteq> []" "pw \<noteq> []"
  shows "fst (run_state (Authenticate (cluster_authenticator ns) [] user pw) s) =
    (case all_accounts s (NN ns user) of
       None \<Rightarrow> ((None, None), [])
     | Some a \<Rightarrow> ((if cluster_compare (acc_Password a) pw then Some (labels_of a) else None, None),
         [(user, cached_of a (clock s))]))"
  using assms
  by (auto simp: cluster_authenticator_def Authenticate_def findAccount_def fetchAccount_def addToCache_def
      MatchPassword_def cached_of_def split: option.split)

lemma coherent_login:
  assumes "coherent c s" "all_crs s k = Some cr" "all_secrets s (own_key c cr) = Some x"
    and "map_get (Data x) SecretKeyRegistry = RegistryHostname regcr ''svc.cluster.local''"
    and "CHR ''.'' \<notin> set (Namespace regcr)"
  shows "let user = map_get (Data x) SecretKeyUsername;
      answer = fst (fst (run_state (Authenticate (cluster_authenticator (Namespace regcr)) [] user
        (map_get (Data x) SecretKeyPassword)) s))
    in (case all_accounts s (NN (Namespace regcr) user) of
          None \<Rightarrow> answer = (None, None)
        | Some a \<Rightarrow> \<exists>m. answer = (Some m, None) \<and> m ''account'' = Some [user] \<and> m ''origin'' = Some [''cr''] \<and>
            m ''namespace'' = Some [Namespace cr] \<and> m ''name'' = Some [Name cr] \<and>
            m ''accessMode'' = Some [GetRegistryAccessMode (CRFactory c)])"
proof -
  let ?user = "map_get (Data x) SecretKeyUsername" and ?pw = "map_get (Data x) SecretKeyPassword"
  from coherentD(4) [OF assms(1-3)]
  obtain n regcr' registry where x: "?user = accountNameForCR (CRFactory c) (at_rotation n cr)"
    "RegistryHostname regcr ''svc.cluster.local'' = RegistryHostname regcr' ''svc.cluster.local''"
    "tr_Namespace registry = Namespace regcr'" "CHR ''.'' \<notin> set (Namespace regcr')"
    and fits: "\<And>a. all_accounts s (NN (Namespace regcr') ?user) = Some a \<Longrightarrow> account_fits c cr registry x a"
    using assms(4) unfolding secret_fits_def by metis
  have ns: "Namespace regcr' = Namespace regcr"
    using x(2) assms(5) x(4) by (simp add: RegistryHostname_def join_inj_right)
  have user: "?user \<noteq> []" by (simp add: x(1) accountNameForCR_def)
  show ?thesis
  proof (cases "all_accounts s (NN (Namespace regcr) ?user)")
    case None
    then show ?thesis
      by (cases "?pw = []") (simp_all add: login_answer user, simp add: Authenticate_def)
  next
    case (Some a)
    then have a: "account_fits c cr registry x a" using fits by (simp add: ns)
    then have "?pw \<noteq> []" "cluster_compare (acc_Password a) ?pw" "Name a = ?user"
      by (auto simp: account_fits_def credentials_of_def Let_def password_ok_def)
    with a Some show ?thesis
      by (simp add: login_answer user account_fits_def labels_of_def originCR_def Origin_def)
  qed
qed


subsection \<open>A world with a login\<close>

definition demo_rotated :: "ImageSecret \<Rightarrow> bool" where
  "demo_rotated cr \<longleftrightarrow> object_key cr = NN ''ns'' ''x'' \<and> Kind cr = Kind demo_cr \<and> APIVersion cr = APIVersion demo_cr \<and>
     DeletionTimestamp cr = None \<and> finalizer \<in> set (Finalizers cr) \<and> RegistryRef cr = None \<and> Rotation (Status cr) = 1"

definition demo_served :: "cluster \<Rightarrow> bool" where
  "demo_served s \<longleftrightarrow> all_registries s = all_registries demo_cluster \<and>
     all_secrets s (NN ''operator'' ''tls'') = Some demo_tls \<and> dom (all_accounts s) = {NN ''operator'' ''pull.ns.x.1''}"

lemma demo_issued:
  "wp (rotatePassword (cluster_reconciler pull_config) demo_cr (found_registry demo_registry demo_tls)
      (new_secret ''ns'' ''imagepullsecret-x''))
     (\<lambda>res s'. \<exists>cr1 x. res = Returned (None, cr1) \<and> demo_rotated cr1 \<and> demo_served s' \<and>
        all_crs s' (NN ''ns'' ''x'') = Some cr1 \<and>
        all_secrets s' (NN ''ns'' ''imagepullsecret-x'') = Some x \<and>
        map_get (Data x) SecretKeyUsername = ''pull.ns.x.1'' \<and>
        map_get (Data x) SecretKeyRegistry = ''registry.operator.svc.cluster.local'' \<and>
        all_accounts s' (NN ''operator'' ''pull.ns.x.1'') \<noteq> None) demo_cluster"
proof -
  have demo: "object_key demo_cr = NN ''ns'' ''x''" "RegistryNamespace (Status demo_cr) = []"
    "tr_Namespace (found_registry demo_registry demo_tls) = ''operator''"
    "tr_Hostname (found_registry demo_registry demo_tls) = ''registry.operator.svc.cluster.local''"
    "accountNameForCR (CRFactory pull_config) (next_rotation demo_cr 0 ''operator'') = ''pull.ns.x.1''"
    by (simp_all add: demo_cr_def object_key_def new_ImageSecretStatus_def found_registry_def
        demo_registry_def accountNameForCR_def pull_config_def TypePull_def next_rotation_def
        FormatInt_one wrap64_def RegistryHostname_def serviceNameForCR_def)
  have rotated: "demo_rotated (next_rotation demo_cr now ns)" for now ns
    by (simp add: demo_rotated_def demo) (simp add: next_rotation_def demo_cr_def new_ImageSecretStatus_def wrap64_def)
  have std: "standard_config (cfg (cluster_reconciler pull_config))" by (simp add: standard_config_def)
  have user: "map_get (Data (fill_secret (cluster_reconciler pull_config) cr registry a pw x)) SecretKeyUsername = Name a"
    for cr registry a pw x
    unfolding fill_secret_def standard_config_key [OF std] by (simp add: secret_keys map_get_def)
  have account: "object_key (new_account r cr registry h) = NN (tr_Namespace registry) (accountNameForCR (CRFactory (cfg r)) cr)"
    "Name (new_account r cr registry h) = accountNameForCR (CRFactory (cfg r)) cr"
    for r :: "cluster ReconcileImageSecret" and cr registry h
    by (simp_all add: new_account_def object_key_def)
  have refs: "\<exists>refs. SetControllerReference cluster_lib (kobject.truncate cr)
      (kobject.truncate (fill_secret (cluster_reconciler pull_config) cr' registry a pw (new_secret ns n))) = Inr refs"
    for cr :: ImageSecret and cr' registry a pw ns n
    by (rule cluster_SetControllerReference) simp
  then obtain refs where refs: "SetControllerReference cluster_lib (kobject.truncate cr)
      (kobject.truncate (fill_secret (cluster_reconciler pull_config) cr' registry a pw (new_secret ns n))) =
      Inr (refs cr cr' registry a pw ns n)"
    for cr :: ImageSecret and cr' registry a pw ns n
    by metis
  show ?thesis
    unfolding rotatePassword_def cluster_reconciler_simps wp_bind
    by (rule wp_cluster_password)
      (auto simp: wp_cluster demo demo_cluster_def empty_cluster_def refs user Let_def
        fill_secret_Data [OF std] account demo_served_def rotated)
qed

lemma demo_login_world:
  "wp (SecretReconciler.Reconcile (cluster_reconciler pull_config) (NN ''ns'' ''x''))
     (\<lambda>_ s'. \<exists>cr x. all_crs s' (NN ''ns'' ''x'') = Some cr \<and> demo_rotated cr \<and> demo_served s' \<and>
        all_secrets s' (NN ''ns'' ''imagepullsecret-x'') = Some x \<and>
        map_get (Data x) SecretKeyUsername = ''pull.ns.x.1'' \<and>
        map_get (Data x) SecretKeyRegistry = ''registry.operator.svc.cluster.local'' \<and>
        all_accounts s' (NN ''operator'' ''pull.ns.x.1'') \<noteq> None) demo_cluster"
  (is "wp _ (\<lambda>_. ?P) _")
proof -
  have status: "wp (setSyncStatus (cluster_reconciler pull_config) cr1 t st reason msg) (\<lambda>_. ?P) s1"
    if "?P s1" "demo_rotated cr1" for cr1 t st reason msg s1
    using that
    by (auto simp: setSyncStatus_def wp_cluster demo_rotated_def demo_served_def object_key_def
        intro!: wp_cluster_SetCondition split: option.split)
  have reg: "run_state (getRegistry (cluster_reconciler pull_config) (NN ''operator'' ''registry'')) demo_cluster =
      (Inr (found_registry demo_registry demo_tls), demo_cluster)"
    by (rule run_getRegistry) (simp_all add: demo_cluster_def demo_registry_def cluster_lib_def)
  have due: "rotation_due (cluster_reconciler pull_config) demo_cr registry b a False x now" for registry b a x now
    by (simp add: rotation_due_def)
  have worlds: "all_crs demo_cluster (NN ''ns'' ''x'') = Some demo_cr"
    "all_accounts demo_cluster k = None" "all_secrets demo_cluster (NN ''ns'' ''imagepullsecret-x'') = None" for k
    by (simp_all add: demo_cluster_def empty_cluster_def)
  have cr: "DeletionTimestamp demo_cr = None" "finalizer \<in> set (Finalizers demo_cr)" "Namespace demo_cr = ''ns''"
    "secretNameForCR (CRFactory pull_config) demo_cr = ''imagepullsecret-x''"
    by (simp_all add: demo_cr_def secretNameForCR_def pull_config_def TypePull_def)
  show ?thesis
    by (auto simp: SecretReconciler.Reconcile_def sync_secret_def demo_getRegistry(1) get_object_def
        wp_def [of "Get cluster_crs k" for k] wp_def [of "Get cluster_accounts k" for k]
        wp_def [of "Get cluster_secrets k" for k] wp_run [OF reg] worlds cr wp_cluster due
        intro!: wp_mono [OF demo_issued] wp_mono [OF status] split: option.split)
qed


end
