(* ===== verification/SecretQueue.thy ===== *)
theory SecretQueue
  imports SecretConvergence "HOL-Library.While_Combinator"
begin

text \<open>
  The work queue of the image secret controller. The controller watches the objects that it
  writes, so a reconciliation that changes the world is followed by another one of the same
  resource. This must come to an end.
\<close>

subsection \<open>Reconciling until nothing changes\<close>

definition reconciled_world :: "'s ReconcileImageSecret \<Rightarrow> NamespacedName \<Rightarrow> 's \<Rightarrow> 's" where
  "reconciled_world r request s = snd (run_state (SecretReconciler.Reconcile r request) s)"

definition reconcile_loop :: "'s ReconcileImageSecret \<Rightarrow> NamespacedName \<Rightarrow> 's \<Rightarrow> (bool \<times> 's) option" where
  "reconcile_loop r request s =
     while_option fst (\<lambda>(_, s). (reconciled_world r request s \<noteq> s, reconciled_world r request s)) (True, s)"

lemma loop_unfold:
  "reconcile_loop r request s = (let s' = reconciled_world r request s in
     if s' = s then Some (False, s) else reconcile_loop r request s')"
  unfolding reconcile_loop_def
  by (subst while_option_unfold) (auto simp: Let_def while_option_unfold)

text \<open>The resource once it has the controller's finalizer.\<close>

definition adopted :: "ImageSecret \<Rightarrow> ImageSecret" where
  "adopted cr = cr\<lparr>Finalizers := AddFinalizer cluster_lib finalizer (Finalizers cr)\<rparr>"

definition adopted_world :: "NamespacedName \<Rightarrow> ImageSecret \<Rightarrow> cluster \<Rightarrow> cluster" where
  "adopted_world request cr s = s\<lparr>all_crs := (all_crs s)(request \<mapsto> adopted cr), next_uid := Suc (next_uid s)\<rparr>"

lemma reconciled_settled:
  "settled r request cr registry a x now s \<Longrightarrow> reconciled_world r request s = s"
  by (simp add: reconciled_world_def settled_run)

lemma reconcile_adopts:
  assumes "all_crs s request = Some cr" "object_key cr = request" "IsZero (DeletionTimestamp cr)"
    and "finalizer \<notin> set (Finalizers cr)"
  shows "reconciled_world (cluster_reconciler c) request s = adopted_world request cr s"
proof -
  have key: "object_key (adopted cr) = request"
    using assms(2) by (simp add: adopted_def object_key_def)
  have "run_state (Update cluster_crs (adopted cr)) s = ((None, adopted cr), adopted_world request cr s)"
    by (simp add: adopted_world_def cluster_crs_def mem_client_def key assms(1))
  from wp_run [OF this] have "run_state (add_finalizer (cluster_reconciler c) cr) s =
      ((no_requeue, None), adopted_world request cr s)"
    unfolding run_iff_wp by (simp add: add_finalizer_def adopted_def)
  then show ?thesis
    by (simp add: reconciled_world_def SecretReconciler.Reconcile_def assms)
qed

subsection \<open>One more rotation\<close>

text \<open>A status update of the stored resource.\<close>

lemma cluster_report:
  assumes "all_crs s (object_key cr) = Some cr"
  shows "wp (setSyncStatus (cluster_reconciler c) cr t st re m) (\<lambda>_ s'. \<exists>status n. Rotation status = Rotation (Status cr) \<and>
     s' = s\<lparr>all_crs := (all_crs s)(object_key cr \<mapsto> cr\<lparr>Status := status\<rparr>), next_uid := n\<rparr>) s"
proof -
  obtain cs b where set: "run_state (SetCondition cluster_lib (mk_condition t st re m) (st_Conditions (Status cr))) s = ((cs, b), s)"
    using run_SetCondition [of t st re m "st_Conditions (Status cr)" s] by blast
  have kept: "s = s\<lparr>all_crs := (all_crs s)(object_key cr \<mapsto> cr\<lparr>Status := Status cr\<rparr>), next_uid := next_uid s\<rparr>"
    using assms by (simp add: map_upd_triv)
  have key: "object_key (cr\<lparr>Status := status\<rparr>) = object_key cr" for status
    by (simp add: object_key_def)
  show ?thesis
  proof (cases "b \<or> st_ObservedGeneration (Status cr) \<noteq> Generation cr")
    case True
    let ?status = "(Status cr)\<lparr>st_Conditions := cs, st_ObservedGeneration := Generation cr\<rparr>"
    from True assms show ?thesis
      by (auto simp: setSyncStatus_def wp_run [OF set] wp_cluster key
          intro!: exI [of _ ?status] exI [of _ "Suc (next_uid s)"])
  next
    case False
    then show ?thesis
      by (auto simp: setSyncStatus_def wp_run [OF set] intro!: exI [of _ "Status cr"] exI [of _ "next_uid s"] kept)
  qed
qed

definition bump :: "int \<Rightarrow> int" where
  "bump n = wrap64 (n + 1)"

lemma bump_changes: "bump n \<noteq> n"
proof
  assume n: "bump n = n"
  then have "minDuration \<le> n" "n \<le> maxDuration" using wrap64_range [of "n + 1"] by (simp_all add: bump_def)
  with n show False
    by (cases "n = maxDuration") (simp_all add: bump_def wrap64_def time_defs)
qed

lemma bump_exact: "minDuration \<le> n \<Longrightarrow> n + int i \<le> maxDuration \<Longrightarrow> (bump ^^ i) n = n + int i"
  by (induction i) (simp_all add: bump_def)

lemma servable_later:
  assumes m: "servable c request cr regcr tls s" and key: "getRegistryKeyForCR (cluster_reconciler c) cr = (k, cr')"
    and s': "all_registries s' = all_registries s" "all_secrets s' = all_secrets s"
    and stored: "all_crs s' request = Some (cr'\<lparr>Status := status\<rparr>)"
  shows "servable c request (cr'\<lparr>Status := status\<rparr>) regcr tls s'"
  using m registry_key_again [OF key] stored
  by (auto simp: servable_def s' key Let_def object_key_def secretNameForCR_def)

text \<open>
  A reconciliation that cannot rotate: the account's name is taken, or the secret is foreign.
  It leaves the resource at rest, when no rotation was due, or with one more rotation counted.
\<close>

definition counted_on ::
  "ReconcileImageSecretConfig \<Rightarrow> NamespacedName \<Rightarrow> ImageSecret \<Rightarrow> ImageRegistry \<Rightarrow> Secret \<Rightarrow> cluster \<Rightarrow> cluster \<Rightarrow> bool" where
  "counted_on c request cr regcr tls s s' \<longleftrightarrow> (\<exists>cr1. servable c request cr1 regcr tls s' \<and>
     Rotation (Status cr1) = bump (Rotation (Status cr)) \<and> UID cr1 = UID cr \<and> all_secrets s' = all_secrets s \<and>
     (all_accounts s (next_account_key c cr (Namespace regcr) (clock s)) \<noteq> None \<longrightarrow>
       (\<forall>n. all_accounts s' (NN (Namespace regcr) n) = all_accounts s (NN (Namespace regcr) n))))"

lemma failing_step:
  assumes m: "servable c request cr regcr tls s"
    and obstacle: "all_accounts s (next_account_key c cr (Namespace regcr) (clock s)) \<noteq> None \<or>
      (\<exists>x. all_secrets s (own_secret_key c cr) = Some x \<and> foreign_secret cr x)"
  shows "wp (SecretReconciler.Reconcile (cluster_reconciler c) request) (\<lambda>_ s'. counted_on c request cr regcr tls s s' \<or>
     at_rest c request regcr tls s' \<and> (\<exists>x. all_secrets s (own_secret_key c cr) = Some x \<and>
       map_get (Annotations x) annotationSecretRotation = FormatInt (Rotation (Status cr)))) s"
proof -
  let ?r = "cluster_reconciler c" and ?reg = "found_registry regcr tls"
  obtain k cr' where key: "getRegistryKeyForCR ?r cr = (k, cr')" by fastforce
  note l = servableD [OF m key] and again = registry_key_again [OF key]
  have reg: "tr_Namespace ?reg = Namespace regcr" by (simp add: found_registry_def)
  have same_key: "next_account_key c cr' (Namespace regcr) (clock s) = next_account_key c cr (Namespace regcr) (clock s)"
    unfolding next_account_key_def by (auto intro: accountName_cong simp: again next_rotation_def object_key_def)
  have fails: "all_crs s (object_key cr') \<noteq> None"
    "all_accounts s (next_account_key c cr' (tr_Namespace ?reg) (clock s)) \<noteq> None \<or>
      (\<exists>ref \<in> set (OwnerReferences (secret_to_fill c cr s)). or_Controller ref = Some True \<and> or_UID ref \<noteq> UID cr')"
    using l(2,3) obstacle again by (auto simp: reg same_key secret_to_fill_def foreign_secret_def)
  show ?thesis
  proof (rule cluster_reconciles [OF m key])
    fix d
    show "wp (rotatePassword ?r cr' ?reg (secret_to_fill c cr s)) (\<lambda>p. wp (after_rotation c d p)
      (\<lambda>_ s'. counted_on c request cr regcr tls s s' \<or>
        at_rest c request regcr tls s' \<and> (\<exists>x. all_secrets s (own_secret_key c cr) = Some x \<and>
          map_get (Annotations x) annotationSecretRotation = FormatInt (Rotation (Status cr))))) s"
    proof (rule wp_mono [OF cluster_rotation_fails [OF fails]], elim exE conjE)
      fix p :: "(go_error option \<times> ImageSecret) outcome" and s1 err
      let ?cr1 = "next_rotation cr' (clock s) (tr_Namespace ?reg)"
      assume p: "p = Returned (Some err, ?cr1)" and s1: "only_counted cr' ?reg s s1"
        and acc: "all_accounts s (next_account_key c cr' (tr_Namespace ?reg) (clock s)) \<noteq> None \<longrightarrow>
          (\<forall>n. all_accounts s1 (NN (tr_Namespace ?reg) n) = all_accounts s (NN (tr_Namespace ?reg) n))"
      have stored: "all_crs s1 (object_key ?cr1) = Some ?cr1"
        using s1 by (simp add: only_counted_def)
      have "counted_on c request cr regcr tls s (s1\<lparr>all_crs := (all_crs s1)(object_key ?cr1 \<mapsto> ?cr1\<lparr>Status := status\<rparr>), next_uid := n\<rparr>)"
        if "Rotation status = Rotation (Status ?cr1)" for status n
      proof -
        let ?s2 = "s1\<lparr>all_crs := (all_crs s1)(object_key ?cr1 \<mapsto> ?cr1\<lparr>Status := status\<rparr>), next_uid := n\<rparr>"
        have eq: "?cr1\<lparr>Status := status\<rparr> = cr'\<lparr>Status := status\<rparr>" by (simp add: next_rotation_def)
        have "servable c request (cr'\<lparr>Status := status\<rparr>) regcr tls ?s2"
          by (rule servable_later [OF m key])
            (use s1 l(3) in \<open>simp_all add: only_counted_def eq\<close>)
        then show ?thesis
          unfolding counted_on_def using that s1 acc again
          by (intro exI [of _ "cr'\<lparr>Status := status\<rparr>"])
            (auto simp: only_counted_def next_rotation_def bump_def reg same_key)
      qed
      then show "wp (after_rotation c d p) (\<lambda>_ s'. counted_on c request cr regcr tls s s' \<or>
        at_rest c request regcr tls s' \<and> (\<exists>x. all_secrets s (own_secret_key c cr) = Some x \<and>
          map_get (Annotations x) annotationSecretRotation = FormatInt (Rotation (Status cr)))) s1"
        by (auto simp: p after_rotation_def intro!: wp_mono [OF cluster_report [OF stored]])
    qed
  next
    fix d s' a x
    assume "all_secrets s (own_secret_key c cr) = Some x" "\<not> rotation_due ?r cr' ?reg True a True x (clock s)"
      "at_rest c request regcr tls s'"
    with again(5) show "counted_on c request cr regcr tls s s' \<or> at_rest c request regcr tls s' \<and>
      (\<exists>x. all_secrets s (own_secret_key c cr) = Some x \<and>
        map_get (Annotations x) annotationSecretRotation = FormatInt (Rotation (Status cr)))"
      by (auto simp: rotation_due_def Let_def)
  qed
qed

subsection \<open>The end of the loop\<close>

text \<open>The name of the account of a later rotation.\<close>

definition later_key :: "ReconcileImageSecretConfig \<Rightarrow> ImageSecret \<Rightarrow> string \<Rightarrow> nat \<Rightarrow> NamespacedName" where
  "later_key c cr ns i = NN ns (accountNameForCR (CRFactory c)
     (cr\<lparr>Status := (Status cr)\<lparr>Rotation := (bump ^^ Suc i) (Rotation (Status cr))\<rparr>\<rparr>))"

lemma later_key_first: "later_key c cr ns 0 = next_account_key c cr ns now"
  unfolding later_key_def next_account_key_def
  by (auto intro!: accountName_cong simp: next_rotation_def bump_def object_key_def)

lemma later_key_next:
  assumes "object_key cr1 = object_key cr" "Rotation (Status cr1) = bump (Rotation (Status cr))"
  shows "later_key c cr1 ns i = later_key c cr ns (Suc i)"
  unfolding later_key_def
  by (rule arg_cong2 [where f = NN, OF refl], rule accountName_cong)
    (use assms in \<open>simp_all add: object_key_def funpow_swap1\<close>)

text \<open>Among as many later rotations as there are accounts, and one more, one has a free name.\<close>

definition rotations_left :: "ImageSecret \<Rightarrow> cluster \<Rightarrow> bool" where
  "rotations_left cr s \<longleftrightarrow> finite (dom (all_accounts s)) \<and> minDuration \<le> Rotation (Status cr) \<and>
     Rotation (Status cr) + int (card (dom (all_accounts s))) < maxDuration"

lemma later_key_inj:
  assumes "minDuration \<le> Rotation (Status cr)" "Rotation (Status cr) + int n < maxDuration"
  shows "inj_on (later_key c cr ns) {..n}"
proof (rule inj_onI)
  fix i j
  assume ij: "i \<in> {..n}" "j \<in> {..n}" "later_key c cr ns i = later_key c cr ns j"
  then have "(bump ^^ Suc i) (Rotation (Status cr)) = (bump ^^ Suc j) (Rotation (Status cr))"
    by (simp add: later_key_def accountNameForCR_def join_inj_right)
  with assms ij(1,2) bump_exact [of "Rotation (Status cr)" "Suc i"] bump_exact [of "Rotation (Status cr)" "Suc j"]
  show "i = j" by simp
qed

lemma free_rotation:
  assumes "rotations_left cr s"
  shows "\<exists>i \<le> card (dom (all_accounts s)). all_accounts s (later_key c cr ns i) = None"
proof (rule ccontr)
  let ?n = "card (dom (all_accounts s))"
  assume "\<not> (\<exists>i \<le> ?n. all_accounts s (later_key c cr ns i) = None)"
  then have "later_key c cr ns ` {..?n} \<subseteq> dom (all_accounts s)" by auto
  with assms have "card (later_key c cr ns ` {..?n}) \<le> ?n"
    by (intro card_mono) (simp_all add: rotations_left_def)
  moreover have "inj_on (later_key c cr ns) {..?n}"
    using assms by (intro later_key_inj) (simp_all add: rotations_left_def)
  ultimately show False by (simp add: card_image)
qed

lemma loop_rests:
  assumes "at_rest c request regcr tls (reconciled_world (cluster_reconciler c) request s)"
  shows "reconcile_loop (cluster_reconciler c) request s = Some (False, reconciled_world (cluster_reconciler c) request s)"
proof -
  let ?s' = "reconciled_world (cluster_reconciler c) request s"
  obtain cr a x where "settled (cluster_reconciler c) request cr (found_registry regcr tls) a x (clock ?s') ?s'"
    using assms unfolding at_rest_def by blast
  from reconciled_settled [OF this] have "reconcile_loop (cluster_reconciler c) request ?s' = Some (False, ?s')"
    by (subst loop_unfold) simp
  then show ?thesis
    by (subst loop_unfold) (auto simp: Let_def)
qed

text \<open>
  The loop with the number of its rounds: a round each for the rotations whose account's name
  is taken, and one for the first that is free. Before each round the rotations are counted.
\<close>

definition rounds :: "ReconcileImageSecretConfig \<Rightarrow> NamespacedName \<Rightarrow> nat \<Rightarrow> cluster \<Rightarrow> cluster" where
  "rounds c request i = reconciled_world (cluster_reconciler c) request ^^ i"

lemma rounds_Suc: "rounds c request (Suc i) s = rounds c request i (reconciled_world (cluster_reconciler c) request s)"
  by (simp add: rounds_def funpow_swap1)

lemma loop_ends:
  assumes "servable c request cr regcr tls s" "uncontrolled c cr s"
    and "all_accounts s (later_key c cr (Namespace regcr) n) = None"
  shows "\<exists>i \<le> n. reconcile_loop (cluster_reconciler c) request s = Some (False, rounds c request (Suc i) s) \<and>
     at_rest c request regcr tls (rounds c request (Suc i) s) \<and>
     (\<forall>j \<le> i. \<exists>crj. all_crs (rounds c request j s) request = Some crj \<and>
        Rotation (Status crj) = (bump ^^ j) (Rotation (Status cr)))"
  using assms
proof (induction n arbitrary: s cr)
  let ?w = "reconciled_world (cluster_reconciler c) request"
  have done_once: "\<exists>i \<le> n. reconcile_loop (cluster_reconciler c) request s = Some (False, rounds c request (Suc i) s) \<and>
     at_rest c request regcr tls (rounds c request (Suc i) s) \<and>
     (\<forall>j \<le> i. \<exists>crj. all_crs (rounds c request j s) request = Some crj \<and>
        Rotation (Status crj) = (bump ^^ j) (Rotation (Status cr)))"
    if "at_rest c request regcr tls (?w s)" "all_crs s request = Some cr" for n s cr
    using that loop_rests [OF that(1)] by (intro exI [of _ 0]) (simp add: rounds_def)
  have free: "at_rest c request regcr tls (?w s)"
    if "servable c request cr regcr tls s" "uncontrolled c cr s"
      "all_accounts s (next_account_key c cr (Namespace regcr) (clock s)) = None" for s cr
    using cluster_converges [of c request cr regcr tls s] that
    by (auto simp: live_resource_def reconciled_world_def wp_def split: prod.splits)
  {
    case 0
    from free [OF 0(1,2)] 0(3) later_key_first have "at_rest c request regcr tls (?w s)" by metis
    moreover have "all_crs s request = Some cr" using 0(1) by (simp add: servable_def)
    ultimately show ?case by (rule done_once)
  next
    case (Suc n)
    have cr: "all_crs s request = Some cr" "object_key cr = request" using Suc.prems(1) by (simp_all add: servable_def)
    show ?case
    proof (cases "at_rest c request regcr tls (?w s)")
      case True
      then show ?thesis using cr(1) by (rule done_once)
    next
      case False
      with free [OF Suc.prems(1,2)]
      have taken: "all_accounts s (next_account_key c cr (Namespace regcr) (clock s)) \<noteq> None" by blast
      from failing_step [OF Suc.prems(1)] taken False
      have "counted_on c request cr regcr tls s (?w s)"
        by (auto simp: reconciled_world_def wp_def split: prod.splits)
      then obtain cr1 where cr1: "servable c request cr1 regcr tls (?w s)"
        "Rotation (Status cr1) = bump (Rotation (Status cr))" "UID cr1 = UID cr" "all_secrets (?w s) = all_secrets s"
        "\<forall>n. all_accounts (?w s) (NN (Namespace regcr) n) = all_accounts s (NN (Namespace regcr) n)"
        using taken unfolding counted_on_def by blast
      have stored: "all_crs (?w s) request = Some cr1" "object_key cr1 = object_key cr"
        using cr1(1) cr(2) by (simp_all add: servable_def)
      then have own: "own_secret_key c cr1 = own_secret_key c cr" by (simp add: object_key_def secretNameForCR_def)
      have "uncontrolled c cr1 (?w s)"
        using Suc.prems(2) cr1(3,4) by (simp add: uncontrolled_def foreign_secret_def own)
      moreover have "all_accounts (?w s) (later_key c cr1 (Namespace regcr) n) = None"
        using Suc.prems(3) later_key_next [OF stored(2) cr1(2)] cr1(5) by (simp add: later_key_def)
      ultimately obtain i where i: "i \<le> n"
        "reconcile_loop (cluster_reconciler c) request (?w s) = Some (False, rounds c request (Suc i) (?w s))"
        "at_rest c request regcr tls (rounds c request (Suc i) (?w s))"
        "\<forall>j \<le> i. \<exists>crj. all_crs (rounds c request j (?w s)) request = Some crj \<and>
          Rotation (Status crj) = (bump ^^ j) (Rotation (Status cr1))"
        using Suc.IH [OF cr1(1)] by blast
      have "?w s \<noteq> s"
        using stored(1) cr(1) cr1(2) bump_changes [of "Rotation (Status cr)"] by auto
      then have "reconcile_loop (cluster_reconciler c) request s = reconcile_loop (cluster_reconciler c) request (?w s)"
        by (subst loop_unfold) (simp add: Let_def)
      moreover have "\<exists>crj. all_crs (rounds c request j s) request = Some crj \<and>
          Rotation (Status crj) = (bump ^^ j) (Rotation (Status cr))" if "j \<le> Suc i" for j
        using that cr(1) i(4) cr1(2) by (cases j) (auto simp: rounds_Suc funpow_swap1, auto simp: rounds_def)
      ultimately show ?thesis
        using i(1-3) by (intro exI [of _ "Suc i"]) (simp add: rounds_Suc)
    qed
  }
qed

lemma loop_servable:
  assumes "servable c request cr regcr tls s" "uncontrolled c cr s" "rotations_left cr s"
  shows "\<exists>i. reconcile_loop (cluster_reconciler c) request s = Some (False, rounds c request (Suc i) s) \<and>
     at_rest c request regcr tls (rounds c request (Suc i) s) \<and>
     (\<forall>j \<le> i. \<exists>crj. all_crs (rounds c request j s) request = Some crj \<and>
        minDuration \<le> Rotation (Status crj) \<and> Rotation (Status crj) < maxDuration)"
proof -
  obtain n where n: "n \<le> card (dom (all_accounts s))" "all_accounts s (later_key c cr (Namespace regcr) n) = None"
    using free_rotation [OF assms(3)] by blast
  from loop_ends [OF assms(1,2) n(2)] obtain i where i: "i \<le> n"
    "reconcile_loop (cluster_reconciler c) request s = Some (False, rounds c request (Suc i) s)"
    "at_rest c request regcr tls (rounds c request (Suc i) s)"
    "\<forall>j \<le> i. \<exists>crj. all_crs (rounds c request j s) request = Some crj \<and>
       Rotation (Status crj) = (bump ^^ j) (Rotation (Status cr))"
    by blast
  have "minDuration \<le> (bump ^^ j) (Rotation (Status cr)) \<and> (bump ^^ j) (Rotation (Status cr)) < maxDuration"
    if "j \<le> i" for j
    using that i(1) n(1) assms(3) bump_exact [of "Rotation (Status cr)" j] by (simp add: rotations_left_def)
  with i(2-4) show ?thesis by metis
qed

text \<open>
  C5. The work queue empties. The loop reconciles a resource until a reconciliation changes
  nothing. It ends, and it ends with the resource at rest, when the resource is not being
  deleted, its registry is ready and has its TLS secret, no other object controls its own
  secret, and its counter is farther from its largest value than there are accounts. The
  resource may lack the finalizer, its credentials may be missing, outdated, of another
  registry or past their renewal, and the accounts of its next rotations may exist already:
  each of these costs a run that fails and counts the rotation.
\<close>

theorem reconciliation_terminates:
  assumes "all_crs s request = Some cr" "object_key cr = request" "IsZero (DeletionTimestamp cr)"
    and "servable c request (adopted cr) regcr tls (adopted_world request cr s)"
    and "uncontrolled c cr s" "rotations_left cr s"
  shows "\<exists>s' cr1 a x. reconcile_loop (cluster_reconciler c) request s = Some (False, s') \<and>
    settled (cluster_reconciler c) request cr1 (found_registry regcr tls) a x (clock s') s'"
proof -
  let ?s = "if finalizer \<in> set (Finalizers cr) then s else adopted_world request cr s"
  have same: "adopted cr = cr" "adopted_world request cr s = s\<lparr>next_uid := Suc (next_uid s)\<rparr>" if "finalizer \<in> set (Finalizers cr)"
    using that assms(1) by (auto simp: adopted_world_def adopted_def cluster_lib_def map_upd_triv)
  have "adopted_world request cr s \<noteq> s"
    by (metis adopted_world_def cluster.select_convs(7) cluster.surjective cluster.update_convs(7) n_not_Suc_n)
  then have "reconcile_loop (cluster_reconciler c) request s = reconcile_loop (cluster_reconciler c) request ?s"
    by (cases "finalizer \<in> set (Finalizers cr)", simp)
      (subst loop_unfold, simp add: reconcile_adopts [OF assms(1-3)])
  moreover have "servable c request (adopted cr) regcr tls ?s"
    using assms(4) same by (auto simp: servable_def Let_def)
  moreover have "uncontrolled c (adopted cr) ?s" "rotations_left (adopted cr) ?s"
    using assms(5,6)
    by (simp_all add: uncontrolled_def foreign_secret_def rotations_left_def adopted_def adopted_world_def secretNameForCR_def)
  ultimately show ?thesis
    using loop_servable unfolding at_rest_def by metis
qed

text \<open>A resource without the finalizer, and an account that has the name of its first rotation.\<close>

theorem reconciliation_terminates_witness:
  "\<exists>s'. reconcile_loop (cluster_reconciler pull_config) (NN ''ns'' ''x'')
     (taken_cluster\<lparr>all_crs := [NN ''ns'' ''x'' \<mapsto> demo_cr\<lparr>Finalizers := []\<rparr>]\<rparr>) = Some (False, s')"
proof -
  let ?s = "taken_cluster\<lparr>all_crs := [NN ''ns'' ''x'' \<mapsto> demo_cr\<lparr>Finalizers := []\<rparr>]\<rparr>"
  let ?cr = "demo_cr\<lparr>Finalizers := []\<rparr>"
  have "adopted ?cr = demo_cr"
    by (simp add: adopted_def cluster_lib_def demo_cr_def)
  then have "servable pull_config (NN ''ns'' ''x'') (adopted ?cr) demo_registry demo_tls
      (adopted_world (NN ''ns'' ''x'') ?cr ?s)"
    using demo_live by (simp add: live_resource_def servable_def adopted_world_def taken_cluster_def demo_cluster_def)
  moreover have "uncontrolled pull_config ?cr ?s"
    using demo_live by (simp add: live_resource_def uncontrolled_def foreign_secret_def taken_cluster_def secretNameForCR_def)
  moreover have "rotations_left ?cr ?s"
    by (simp add: rotations_left_def taken_cluster_def demo_cr_def new_ImageSecretStatus_def minDuration_def maxDuration_def)
  ultimately show ?thesis
    using reconciliation_terminates [of ?s "NN ''ns'' ''x''" ?cr]
    by (fastforce simp: demo_cr_def object_key_def)
qed

subsection \<open>A loop that does not end\<close>

text \<open>
  The condition on the secret is needed. When the secret of a resource is controlled by
  another object, and has no rotation's annotation, every reconciliation counts a rotation and
  creates an account before it fails to take the secret over; it reports the failure in the
  status and not as an error, so the queue never backs off.
\<close>

lemma foreign_secret_never_settles:
  assumes "servable c request cr regcr tls s" "all_secrets s (own_secret_key c cr) = Some x"
    and "foreign_secret cr x" "map_get (Annotations x) annotationSecretRotation = []"
  shows "reconcile_loop (cluster_reconciler c) request s = None"
proof (rule ccontr)
  let ?w = "reconciled_world (cluster_reconciler c) request"
  let ?P = "\<lambda>(b, t). b \<and> (\<exists>cr1. servable c request cr1 regcr tls t \<and> UID cr1 = UID cr \<and>
    own_secret_key c cr1 = own_secret_key c cr \<and> all_secrets t = all_secrets s)"
  assume "reconcile_loop (cluster_reconciler c) request s \<noteq> None"
  then obtain res where res: "while_option fst (\<lambda>(_, s). (?w s \<noteq> s, ?w s)) (True, s) = Some res"
    unfolding reconcile_loop_def by blast
  have "?P (?w t \<noteq> t, ?w t)" if "?P (True, t)" for t
  proof -
    from that obtain cr1 where cr1: "servable c request cr1 regcr tls t" "UID cr1 = UID cr"
      "own_secret_key c cr1 = own_secret_key c cr" "all_secrets t = all_secrets s" by auto
    have "\<exists>x. all_secrets t (own_secret_key c cr1) = Some x \<and> foreign_secret cr1 x"
      using assms(2,3) cr1(2-4) by (simp add: foreign_secret_def)
    with failing_step [OF cr1(1)] have "counted_on c request cr1 regcr tls t (?w t)"
      using assms(2,4) cr1(3,4)
      by (auto simp: reconciled_world_def wp_def dest: FormatInt_nonempty [THEN notE, OF sym] split: prod.splits)
    then obtain cr2 where cr2: "servable c request cr2 regcr tls (?w t)" "UID cr2 = UID cr1"
      "Rotation (Status cr2) = bump (Rotation (Status cr1))" "all_secrets (?w t) = all_secrets t"
      unfolding counted_on_def by blast
    have stored: "all_crs t request = Some cr1" "all_crs (?w t) request = Some cr2" "object_key cr2 = object_key cr1"
      using cr1(1) cr2(1) by (simp_all add: servable_def)
    with cr2(3) bump_changes [of "Rotation (Status cr1)"] have "?w t \<noteq> t" by auto
    moreover have "own_secret_key c cr2 = own_secret_key c cr1"
      using stored(3) by (simp add: object_key_def secretNameForCR_def)
    ultimately show ?thesis using cr1 cr2 by auto
  qed
  with assms(1) have "?P res"
    by (intro while_option_rule [where P = ?P, OF _ res]) auto
  with while_option_stop [OF res] show False by auto
qed

end
