(* ===== verification/KeyPair.thy ===== *)
theory KeyPair
  imports Kube
begin

text \<open>
  \<open>pkg/certs/keypair.go\<close>: TLS key pairs, their PEM form and their renewal time.

  The packages \<open>crypto/rsa\<close>, \<open>crypto/x509\<close> and \<open>encoding/pem\<close> are parameters (record
  \<open>crypto\<close>). Private and public keys are opaque values of them, represented by strings.
  \<open>Certificate\<close> has the fields of \<open>x509.Certificate\<close> that the code sets or reads.
\<close>

subsection \<open>Data\<close>

definition pemTypeCertificate :: string where "pemTypeCertificate = ''CERTIFICATE''"
definition pemTypeRSAPrivateKey :: string where "pemTypeRSAPrivateKey = ''RSA PRIVATE KEY''"

definition caTTL :: duration where "caTTL = 24 * 365 * 5 * Hour"
definition certTTL :: duration where "certTTL = 24 * 90 * Hour"

datatype ExtKeyUsage = ExtKeyUsageClientAuth | ExtKeyUsageServerAuth
datatype KeyUsage = KeyUsageDigitalSignature | KeyUsageCertSign

type_synonym rsa_key = string

record Certificate =
  SerialNumber :: int
  Organization :: "string list"
  CommonName :: string
  cert_DNSNames :: "string list"
  NotBefore :: time
  NotAfter :: time
  cert_IsCA :: bool
  cert_ExtKeyUsage :: "ExtKeyUsage list"
  cert_KeyUsage :: "KeyUsage set"
  BasicConstraintsValid :: bool

record 's crypto =
  \<comment> \<open>\<open>pem.Decode\<close>: type and bytes of the first block, if there is one; \<open>pem.Encode\<close>\<close>
  pem_Decode :: "string \<Rightarrow> (string \<times> string) option"
  pem_Encode :: "string \<Rightarrow> string \<Rightarrow> string"
  ParsePKCS1PrivateKey :: "string \<Rightarrow> rsa_key result"
  MarshalPKCS1PrivateKey :: "rsa_key \<Rightarrow> string"
  ParseCertificate :: "string \<Rightarrow> Certificate result"
  PublicKey :: "rsa_key \<Rightarrow> string"
  GenerateKey :: "int \<Rightarrow> ('s, rsa_key result) state"
  \<comment> \<open>\<open>x509.CreateCertificate\<close>: template, parent, public key, signer\<close>
  CreateCertificate :: "Certificate \<Rightarrow> Certificate \<Rightarrow> string \<Rightarrow> rsa_key \<Rightarrow> ('s, string result) state"
  timeNow :: "('s, time) state"

record KeyPair =
  caCertPEM :: string
  signedCertPEM :: string
  x509Cert :: Certificate
  rsaKey :: rsa_key

subsection \<open>Reading a key pair\<close>

definition nil_dereference :: string where
  "nil_dereference = ''runtime error: invalid memory address or nil pointer dereference''"

definition unexpected_pem :: "string \<Rightarrow> string \<Rightarrow> go_error" where
  "unexpected_pem t wanted = ErrOther (''unexpected PEM type '' @ t @ '' - expected '' @ wanted)"

text \<open>The code reads the type of the decoded block without testing that there is one.\<close>

definition X509KeyPair :: "'s crypto \<Rightarrow> string \<Rightarrow> string \<Rightarrow> string \<Rightarrow> KeyPair result outcome" where
  "X509KeyPair cr keyPEM certPEM caPEM =
     (case pem_Decode cr keyPEM of
        None \<Rightarrow> Panicked nil_dereference
      | Some (kt, kb) \<Rightarrow>
          if kt \<noteq> pemTypeRSAPrivateKey then Returned (Inl (unexpected_pem kt pemTypeRSAPrivateKey))
          else (case ParsePKCS1PrivateKey cr kb of
            Inl err \<Rightarrow> Returned (Inl err)
          | Inr k \<Rightarrow>
              (case pem_Decode cr certPEM of
                 None \<Rightarrow> Panicked nil_dereference
               | Some (ct, cb) \<Rightarrow>
                   if ct \<noteq> pemTypeCertificate then Returned (Inl (unexpected_pem ct pemTypeCertificate))
                   else (case ParseCertificate cr cb of
                     Inl err \<Rightarrow> Returned (Inl err)
                   | Inr cert \<Rightarrow> Returned (Inr \<lparr>caCertPEM = caPEM, signedCertPEM = certPEM,
                       x509Cert = cert, rsaKey = k\<rparr>)))))"

definition CACertPEM :: "KeyPair \<Rightarrow> string" where "CACertPEM p = caCertPEM p"
definition CertPEM :: "KeyPair \<Rightarrow> string" where "CertPEM p = signedCertPEM p"

definition KeyPEM :: "'s crypto \<Rightarrow> KeyPair \<Rightarrow> string" where
  "KeyPEM cr p = pem_Encode cr pemTypeRSAPrivateKey (MarshalPKCS1PrivateKey cr (rsaKey p))"

definition DNSNames :: "KeyPair \<Rightarrow> string list" where "DNSNames p = cert_DNSNames (x509Cert p)"
definition IsCA :: "KeyPair \<Rightarrow> bool" where "IsCA p = cert_IsCA (x509Cert p)"

subsection \<open>Renewal\<close>

definition NextRenewal :: "KeyPair \<Rightarrow> time" where
  "NextRenewal p =
     (let cert = x509Cert p; ttl = time_Sub (NotAfter cert) (NotBefore cert) in
      time_Add (NotAfter cert) (quot ttl (- 4)))"

definition NeedsRenewal :: "'s crypto \<Rightarrow> KeyPair \<Rightarrow> ('s, bool) state" where
  "NeedsRenewal cr p = do {
     now \<leftarrow> timeNow cr;
     ret (now > NextRenewal p)
   }"

subsection \<open>Generating a key pair\<close>

definition genKeyPair ::
  "'s crypto \<Rightarrow> Certificate \<Rightarrow> int \<Rightarrow> KeyPair option \<Rightarrow> ('s, KeyPair result) state" where
  "genKeyPair cr cert bits ca = do {
     k \<leftarrow> GenerateKey cr bits;
     case k of
       Inl err \<Rightarrow> ret (Inl err)
     | Inr privKey \<Rightarrow>
         (let signKey = (case ca of None \<Rightarrow> privKey | Some p \<Rightarrow> rsaKey p);
              caCert = (case ca of None \<Rightarrow> cert | Some p \<Rightarrow> x509Cert p) in do {
         b \<leftarrow> CreateCertificate cr cert caCert (PublicKey cr privKey) signKey;
         case b of
           Inl err \<Rightarrow> ret (Inl err)
         | Inr certBytes \<Rightarrow>
             (let certPEM = pem_Encode cr pemTypeCertificate certBytes in
              ret (Inr \<lparr>caCertPEM = (case ca of None \<Rightarrow> certPEM | Some p \<Rightarrow> CertPEM p),
                signedCertPEM = certPEM, x509Cert = cert, rsaKey = privKey\<rparr>))
       })
   }"

text \<open>\<open>now.Unix()\<close> is the number of whole seconds since 1970.\<close>

definition ca_template :: "string \<Rightarrow> time \<Rightarrow> Certificate" where
  "ca_template commonName now = \<lparr>SerialNumber = now div Second, Organization = [''Fake org''],
     CommonName = commonName, cert_DNSNames = [], NotBefore = now, NotAfter = time_Add now caTTL,
     cert_IsCA = True, cert_ExtKeyUsage = [ExtKeyUsageClientAuth, ExtKeyUsageServerAuth],
     cert_KeyUsage = {KeyUsageDigitalSignature, KeyUsageCertSign}, BasicConstraintsValid = True\<rparr>"

definition NewSelfSignedCAKeyPair :: "'s crypto \<Rightarrow> string \<Rightarrow> ('s, KeyPair result) state" where
  "NewSelfSignedCAKeyPair cr commonName = do {
     now \<leftarrow> timeNow cr;
     genKeyPair cr (ca_template commonName now) 4096 None
   }"

definition server_template :: "string list \<Rightarrow> time \<Rightarrow> Certificate" where
  "server_template dnsNames now = \<lparr>SerialNumber = now div Second, Organization = [],
     CommonName = hd dnsNames, cert_DNSNames = dnsNames, NotBefore = now,
     NotAfter = time_Add now certTTL, cert_IsCA = False,
     cert_ExtKeyUsage = [ExtKeyUsageClientAuth, ExtKeyUsageServerAuth],
     cert_KeyUsage = {KeyUsageDigitalSignature}, BasicConstraintsValid = True\<rparr>"

definition NewServerKeyPair :: "'s crypto \<Rightarrow> string list \<Rightarrow> KeyPair option \<Rightarrow> ('s, KeyPair result) state" where
  "NewServerKeyPair cr dnsNames ca =
     (if length dnsNames = 0 then ret (Inl (ErrOther ''gen server key pair: no dns names provided''))
      else do {
        now \<leftarrow> timeNow cr;
        genKeyPair cr (server_template dnsNames now) 2048 ca
      })"

subsection \<open>The renewal time\<close>

text \<open>A quarter of the life time before the end, for the life times the code issues and
  any other that fits a duration.\<close>

lemma NextRenewal_exact:
  assumes "NotBefore (x509Cert p) \<le> NotAfter (x509Cert p)"
    and "NotAfter (x509Cert p) - NotBefore (x509Cert p) \<le> maxDuration"
  shows "NextRenewal p = NotAfter (x509Cert p) - (NotAfter (x509Cert p) - NotBefore (x509Cert p)) div 4"
  using assms
  by (simp add: NextRenewal_def Let_def time_Sub_def time_Add_def quot_def minDuration_def maxDuration_def
      sgn_if)

lemma NextRenewal_bounds:
  assumes "NotBefore (x509Cert p) < NotAfter (x509Cert p)"
    and "NotAfter (x509Cert p) - NotBefore (x509Cert p) \<le> maxDuration"
  shows "NotBefore (x509Cert p) < NextRenewal p" "NextRenewal p \<le> NotAfter (x509Cert p)"
  using assms NextRenewal_exact [of p] by simp_all

subsection \<open>What the cryptography promises\<close>

text \<open>
  PEM and PKCS1 encodings are read back; a created certificate parses to its template with
  the validity in whole seconds (the resolution of X.509 times).
\<close>

definition whole_seconds :: "time \<Rightarrow> time" where
  "whole_seconds t = t div Second * Second"

definition parsed_certificate :: "Certificate \<Rightarrow> Certificate" where
  "parsed_certificate c = c\<lparr>NotBefore := whole_seconds (NotBefore c), NotAfter := whole_seconds (NotAfter c)\<rparr>"

definition crypto_contract :: "'s crypto \<Rightarrow> bool" where
  "crypto_contract cr \<longleftrightarrow>
     (\<forall>b. \<forall>t \<in> {pemTypeCertificate, pemTypeRSAPrivateKey}.
        pem_Decode cr (pem_Encode cr t b) = Some (t, b)) \<and>
     (\<forall>k. ParsePKCS1PrivateKey cr (MarshalPKCS1PrivateKey cr k) = Inr k) \<and>
     (\<forall>c parent pk k s b s'. run_state (CreateCertificate cr c parent pk k) s = (Inr b, s') \<longrightarrow>
        ParseCertificate cr b = Inr (parsed_certificate c))"

text \<open>A generated pair, written to PEM and read again.\<close>

definition reread :: "KeyPair \<Rightarrow> KeyPair" where
  "reread p = p\<lparr>x509Cert := parsed_certificate (x509Cert p)\<rparr>"

lemma reread_simps [simp]:
  "DNSNames (reread p) = DNSNames p" "IsCA (reread p) = IsCA p" "CertPEM (reread p) = CertPEM p"
  "CACertPEM (reread p) = CACertPEM p" "KeyPEM cr (reread p) = KeyPEM cr p"
  by (simp_all add: reread_def parsed_certificate_def DNSNames_def IsCA_def CertPEM_def
      CACertPEM_def KeyPEM_def)

lemma genKeyPair_reread:
  assumes "crypto_contract cr"
  shows "wp (genKeyPair cr cert bits ca) (\<lambda>r s'. case r of Inl _ \<Rightarrow> True
    | Inr p \<Rightarrow> x509Cert p = cert \<and>
        X509KeyPair cr (KeyPEM cr p) (CertPEM p) (CACertPEM p) = Returned (Inr (reread p))) s"
  using assms
  by (auto simp: genKeyPair_def wp_def Let_def X509KeyPair_def KeyPEM_def CertPEM_def CACertPEM_def
      crypto_contract_def reread_def split: prod.splits sum.splits)

text \<open>A fresh certificate is not due for longer than it takes to read it again, and when it
  is due it is valid for weeks.\<close>

lemma whole_seconds_bounds: "whole_seconds t \<le> t" "t < whole_seconds t + Second"
proof -
  have "t = t div Second * Second + t mod Second" "0 \<le> t mod Second" "t mod Second < Second"
    by (simp_all add: Second_def)
  then show "whole_seconds t \<le> t" "t < whole_seconds t + Second"
    unfolding whole_seconds_def by linarith+
qed

lemma whole_seconds_add [simp]: "whole_seconds (t + k * Second) = whole_seconds t + k * Second"
  by (simp add: whole_seconds_def Second_def algebra_simps)

lemma reread_NextRenewal:
  assumes "NotAfter (x509Cert p) = NotBefore (x509Cert p) + ttl"
    and "ttl = k * Second" "0 \<le> ttl" "ttl \<le> maxDuration"
  shows "NextRenewal (reread p) = NotAfter (x509Cert (reread p)) - ttl div 4"
    and "NotAfter (x509Cert (reread p)) = whole_seconds (NotBefore (x509Cert p)) + ttl"
proof -
  show na: "NotAfter (x509Cert (reread p)) = whole_seconds (NotBefore (x509Cert p)) + ttl"
    using assms by (simp add: reread_def parsed_certificate_def)
  have nb: "NotBefore (x509Cert (reread p)) = whole_seconds (NotBefore (x509Cert p))"
    by (simp add: reread_def parsed_certificate_def)
  show "NextRenewal (reread p) = NotAfter (x509Cert (reread p)) - ttl div 4"
    using NextRenewal_exact [of "reread p"] na nb assms by simp
qed

definition renewed_in_time :: "KeyPair \<Rightarrow> bool" where
  "renewed_in_time p \<longleftrightarrow> NotBefore (x509Cert p) + 67 * 24 * Hour \<le> NextRenewal (reread p) \<and>
     NextRenewal (reread p) + 22 * 24 * Hour \<le> NotAfter (x509Cert (reread p))"

lemma fresh_certificate:
  assumes "NotAfter (x509Cert p) = NotBefore (x509Cert p) + ttl" "ttl = caTTL \<or> ttl = certTTL"
  shows "renewed_in_time p"
proof -
  have ttl: "ttl = 157680000 * Second \<or> ttl = 7776000 * Second"
    using assms(2) by (simp add: caTTL_def certTTL_def Hour_def Minute_def Second_def)
  then obtain k where k: "ttl = k * Second" by blast
  have r: "0 \<le> ttl" "ttl \<le> maxDuration" "2160 * Hour \<le> ttl"
    using ttl by (auto simp: time_defs)
  have q: "4 * (ttl div 4) \<le> ttl" "ttl < 4 * (ttl div 4) + 4" by simp_all
  show ?thesis
    unfolding renewed_in_time_def reread_NextRenewal [OF assms(1) k r(1,2)]
    using q whole_seconds_bounds(2) [of "NotBefore (x509Cert p)"] r(3)
    unfolding Hour_def Minute_def Second_def by linarith
qed

lemma genKeyPair_cert:
  "wp (genKeyPair cr cert bits ca) (\<lambda>r s'. case r of Inl _ \<Rightarrow> True | Inr p \<Rightarrow> x509Cert p = cert) s"
  by (auto simp: genKeyPair_def wp_def Let_def split: prod.splits sum.splits)

text \<open>
  C31. Certificates are renewed in time. Every key pair that \<open>NewSelfSignedCAKeyPair\<close> or
  \<open>NewServerKeyPair\<close> makes, read back from PEM, is not due for at least 67 days after it was
  made, and from the moment it is due it is valid for at least 22 more days.
\<close>

theorem renewal_in_time:
  "wp (NewSelfSignedCAKeyPair cr commonName)
     (\<lambda>r s'. case r of Inl _ \<Rightarrow> True | Inr p \<Rightarrow> renewed_in_time p) s \<and>
   wp (NewServerKeyPair cr dnsNames ca)
     (\<lambda>r s'. case r of Inl _ \<Rightarrow> True | Inr p \<Rightarrow> renewed_in_time p) s"
proof (intro conjI)
  show "wp (NewSelfSignedCAKeyPair cr commonName)
     (\<lambda>r s'. case r of Inl _ \<Rightarrow> True | Inr p \<Rightarrow> renewed_in_time p) s"
    unfolding NewSelfSignedCAKeyPair_def wp_bind
    by (rule wp_any, rule wp_mono [OF genKeyPair_cert])
      (auto simp: ca_template_def time_Add_def split: sum.splits intro!: fresh_certificate [of _ caTTL])
  show "wp (NewServerKeyPair cr dnsNames ca)
     (\<lambda>r s'. case r of Inl _ \<Rightarrow> True | Inr p \<Rightarrow> renewed_in_time p) s"
    unfolding NewServerKeyPair_def wp_if wp_bind
    by (simp split: if_split, rule impI, rule wp_any, rule wp_mono [OF genKeyPair_cert])
      (auto simp: server_template_def time_Add_def split: sum.splits intro!: fresh_certificate [of _ certTTL])
qed

end
