(* ===== verification/CertManager.thy ===== *)
theory CertManager
  imports KeyPair Store
begin

text \<open>
  \<open>pkg/certs/certmanager.go\<close>: certificates kept in TLS secrets. \<open>renewCertSecret\<close> creates
  the secret, and replaces the certificate when it cannot be read, is due or does not fit;
  a secret of somebody else is left alone. The two kinds of certificate differ in the
  condition that says whether one fits and the function that makes one: the locale
  \<open>cert_profile\<close> is what renewal relies on.
\<close>

subsection \<open>Constants\<close>

definition secretKeyCACrt :: string where "secretKeyCACrt = ''ca.crt''"
definition secretKeyTLSCrt :: string where "secretKeyTLSCrt = ''tls.crt''"
definition secretKeyTLSKey :: string where "secretKeyTLSKey = ''tls.key''"
definition labelManagedBy :: string where "labelManagedBy = ''app.kubernetes.io/managed-by''"
definition operatorName :: string where "operatorName = ''image-registry-operator''"
definition rootCACommonName :: string where "rootCACommonName = ''image-registry-operator.caroot.local''"
definition rootCASecretLabels :: strmap where
  "rootCASecretLabels = Some [''name'' \<mapsto> ''image-registry-operator'']"

definition RootCASecretName :: "(string \<Rightarrow> string) \<Rightarrow> string result \<Rightarrow> NamespacedName outcome" where
  "RootCASecretName Getenv GetOperatorNamespace =
     (case GetOperatorNamespace of
        Inr ns \<Rightarrow> Returned (NN ns ''image-registry-root-ca'')
      | Inl err \<Rightarrow>
          (let ns = Getenv ''WATCH_NAMESPACE'' in
           if ns = [] then Panicked (Error err) else Returned (NN ns ''image-registry-root-ca'')))"

record 's CertManager =
  cm_secrets :: "(Secret, 's) client"
  cm_upsert :: "(Secret, 's) upserter"
  cm_lib :: "'s kube_lib"
  cm_crypto :: "'s crypto"
  rootCASecretName :: NamespacedName

subsection \<open>Secrets and key pairs\<close>

definition certFromMap :: "'s crypto \<Rightarrow> strmap \<Rightarrow> KeyPair option outcome" where
  "certFromMap cr m =
     (case m of
        None \<Rightarrow> Returned None
      | Some _ \<Rightarrow>
          (case X509KeyPair cr (map_get m secretKeyTLSKey) (map_get m secretKeyTLSCrt)
                  (map_get m secretKeyCACrt) of
             Panicked p \<Rightarrow> Panicked p
           | Returned (Inl _) \<Rightarrow> Returned None
           | Returned (Inr c) \<Rightarrow> Returned (Some c)))"

definition certToMap :: "'s crypto \<Rightarrow> KeyPair \<Rightarrow> strmap" where
  "certToMap cr cert = Some [secretKeyCACrt \<mapsto> CACertPEM cert, secretKeyTLSCrt \<mapsto> CertPEM cert,
     secretKeyTLSKey \<mapsto> KeyPEM cr cert]"

text \<open>\<open>equalNames\<close>: the loop compares position by position.\<close>

fun equal_from :: "string list \<Rightarrow> string list \<Rightarrow> bool" where
  "equal_from (v # a) (w # b) = (if v \<noteq> w then False else equal_from a b)"
| "equal_from _ _ = True"

definition equalNames :: "string list \<Rightarrow> string list \<Rightarrow> bool" where
  "equalNames a b = (if length a \<noteq> length b then False else equal_from a b)"

definition condServerCert :: "string list \<Rightarrow> KeyPair \<Rightarrow> bool" where
  "condServerCert dnsNames cert \<longleftrightarrow> IsCA cert \<or> \<not> equalNames (DNSNames cert) dnsNames"

definition condCACert :: "KeyPair \<Rightarrow> bool" where
  "condCACert cert \<longleftrightarrow> \<not> IsCA cert"

text \<open>A failed \<open>Get\<close> leaves the data of the new secret \<open>nil\<close>, so there is no certificate.\<close>

definition KeyPair_of :: "'s CertManager \<Rightarrow> NamespacedName \<Rightarrow> ('s, KeyPair result outcome) state" where
  "KeyPair_of r n = do {
     g \<leftarrow> Get (cm_secrets r) n;
     case g of
       Inl err \<Rightarrow> ret (Returned (Inl err))
     | Inr secret \<Rightarrow>
         (case certFromMap (cm_crypto r) (Data secret) of
            Panicked p \<Rightarrow> ret (Panicked p)
          | Returned None \<Rightarrow> ret (Returned (Inl (ErrOther (''invalid certificate in Secret '' @
              nn_namespace n @ ''/'' @ nn_name n))))
          | Returned (Some cert) \<Rightarrow> ret (Returned (Inr cert)))
   }"

definition RootCACert :: "'s CertManager \<Rightarrow> ('s, KeyPair result outcome) state" where
  "RootCACert r = KeyPair_of r (rootCASecretName r)"

subsection \<open>Renewal\<close>

definition secretLabels :: "strmap \<Rightarrow> strmap" where
  "secretLabels lbls = Some ((case lbls of None \<Rightarrow> Map.empty | Some m \<Rightarrow> m)(labelManagedBy \<mapsto> operatorName))"

text \<open>
  The callback of \<open>renewCertSecret\<close>, with the certificate it found or made. A factory that
  fails returns no certificate, and \<open>certToMap\<close> dereferences it before the error is looked
  at.
\<close>

definition unmanaged :: "Secret \<Rightarrow> bool" where
  "unmanaged secret \<longleftrightarrow> UID secret \<noteq> [] \<and>
     (Labels secret = None \<or> map_get (Labels secret) labelManagedBy \<noteq> operatorName)"

definition refuse_unmanaged ::
  "'s CertManager \<Rightarrow> Secret \<Rightarrow> KeyPair option \<Rightarrow> ('s, (go_error option \<times> Secret \<times> KeyPair option) outcome) state" where
  "refuse_unmanaged r secret cert = do {
     invalid \<leftarrow> (case cert of None \<Rightarrow> ret True | Some c \<Rightarrow> NeedsRenewal (cm_crypto r) c);
     ret (Returned (Some (if invalid then ErrUnmanagedInvalidSecretExists
       else ErrUnmanagedValidSecretExists), secret, cert))
   }"

definition renew_managed ::
  "'s CertManager \<Rightarrow> strmap \<Rightarrow> (KeyPair \<Rightarrow> bool) \<Rightarrow> ('s, KeyPair result) state \<Rightarrow> Secret \<Rightarrow>
   KeyPair option \<Rightarrow> ('s, (go_error option \<times> Secret \<times> KeyPair option) outcome) state" where
  "renew_managed r lbls cond factory secret cert =
     (let secret = secret\<lparr>Labels := lbls, SecretType := SecretTypeTLS\<rparr> in do {
     renew \<leftarrow> (case cert of
         None \<Rightarrow> ret True
       | Some c \<Rightarrow> do { due \<leftarrow> NeedsRenewal (cm_crypto r) c; ret (due \<or> cond c) });
     if \<not> renew then ret (Returned (None, secret, cert))
     else do {
       f \<leftarrow> factory;
       case f of
         Inl err \<Rightarrow> ret (Panicked nil_dereference)
       | Inr c \<Rightarrow> ret (Returned (None, secret\<lparr>Data := certToMap (cm_crypto r) c\<rparr>, Some c))
     } })"

definition renew_callback ::
  "'s CertManager \<Rightarrow> kobject option \<Rightarrow> strmap \<Rightarrow> (KeyPair \<Rightarrow> bool) \<Rightarrow> ('s, KeyPair result) state \<Rightarrow>
   Secret \<Rightarrow> KeyPair option \<Rightarrow> ('s, (go_error option \<times> Secret \<times> KeyPair option) outcome) state" where
  "renew_callback r owner lbls cond factory secret _ =
     (case certFromMap (cm_crypto r) (Data secret) of
        Panicked p \<Rightarrow> ret (Panicked p)
      | Returned cert \<Rightarrow>
          (case (case owner of
                   None \<Rightarrow> Inr (OwnerReferences secret)
                 | Some o' \<Rightarrow> SetControllerReference (cm_lib r) o' (kobject.truncate secret)) of
             Inl err \<Rightarrow> ret (Returned (Some err, secret, cert))
           | Inr refs \<Rightarrow>
               (let secret = secret\<lparr>OwnerReferences := refs\<rparr> in
                if unmanaged secret then refuse_unmanaged r secret cert
                else renew_managed r lbls cond factory secret cert)))"

definition renewCertSecret ::
  "'s CertManager \<Rightarrow> NamespacedName \<Rightarrow> kobject option \<Rightarrow> strmap \<Rightarrow> (KeyPair \<Rightarrow> bool) \<Rightarrow>
   ('s, KeyPair result) state \<Rightarrow> ('s, (KeyPair option \<times> go_error option) outcome) state" where
  "renewCertSecret r k owner lbls cond factory = do {
     u \<leftarrow> CreateOrUpdate (cm_upsert r) (new_secret (nn_namespace k) (nn_name k))
        (renew_callback r owner (secretLabels lbls) cond factory) None;
     case u of
       Panicked p \<Rightarrow> ret (Panicked p)
     | Returned (_, err, secret, cert) \<Rightarrow>
         ret (Returned (cert, map_option (ErrWrap (''upsert certificate secret '' @
           Namespace secret @ ''/'' @ Name secret @ '': '')) err))
   }"

definition RenewCACertSecret ::
  "'s CertManager \<Rightarrow> NamespacedName \<Rightarrow> kobject option \<Rightarrow> strmap \<Rightarrow> string \<Rightarrow>
   ('s, (KeyPair option \<times> go_error option) outcome) state" where
  "RenewCACertSecret r k owner lbls commonName =
     renewCertSecret r k owner lbls condCACert (NewSelfSignedCAKeyPair (cm_crypto r) commonName)"

definition RenewServerCertSecret ::
  "'s CertManager \<Rightarrow> NamespacedName \<Rightarrow> kobject option \<Rightarrow> strmap \<Rightarrow> string list \<Rightarrow> KeyPair option \<Rightarrow>
   ('s, (KeyPair option \<times> go_error option) outcome) state" where
  "RenewServerCertSecret r k owner lbls dnsNames ca =
     renewCertSecret r k owner lbls (condServerCert dnsNames) (NewServerKeyPair (cm_crypto r) dnsNames ca)"

definition RenewRootCACertSecret :: "'s CertManager \<Rightarrow> ('s, (KeyPair option \<times> go_error option) outcome) state" where
  "RenewRootCACertSecret r = do {
     c \<leftarrow> RenewCACertSecret r (rootCASecretName r) None rootCASecretLabels rootCACommonName;
     case c of
       Panicked p \<Rightarrow> ret (Panicked p)
     | Returned (ca, err) \<Rightarrow>
         (case err of
            None \<Rightarrow> ret (Returned (ca, None))
          | Some e \<Rightarrow>
              if Unwrap e \<noteq> Some ErrUnmanagedValidSecretExists \<or> ca = None
              then ret (Returned (None, Some e)) else ret (Returned (ca, None)))
   }"

end
