(* ===== verification/CertRenewal.thy ===== *)
theory CertRenewal
  imports CertManager
begin

text \<open>
  Theorems about \<open>CertManager\<close>: what a renewal reads and writes, on any server; that the
  secret it leaves holds a certificate that is read back and fits, so that the next
  renewal changes nothing; and when a secret makes it panic.
\<close>

subsection \<open>Comparing names\<close>

lemma equal_from_eq: "length a = length b \<Longrightarrow> equal_from a b \<longleftrightarrow> a = b"
  by (induction a b rule: equal_from.induct) auto

lemma equalNames_eq [simp]: "equalNames a b \<longleftrightarrow> a = b"
  by (auto simp: equalNames_def equal_from_eq)

subsection \<open>The calls of a renewal\<close>

datatype cert_event =
    Found "go_error option" Secret
  | Written Secret "go_error option"

definition recorded_crypto :: "'s crypto \<Rightarrow> ('s \<times> 'e list) crypto" where
  "recorded_crypto cr = \<lparr>pem_Decode = pem_Decode cr, pem_Encode = pem_Encode cr,
     ParsePKCS1PrivateKey = ParsePKCS1PrivateKey cr, MarshalPKCS1PrivateKey = MarshalPKCS1PrivateKey cr,
     ParseCertificate = ParseCertificate cr, PublicKey = PublicKey cr,
     GenerateKey = (\<lambda>n. unrecorded (GenerateKey cr n)),
     CreateCertificate = (\<lambda>c p k g. unrecorded (CreateCertificate cr c p k g)),
     timeNow = unrecorded (timeNow cr)\<rparr>"

definition recorded_certs :: "'s CertManager \<Rightarrow> ('s \<times> cert_event list) CertManager" where
  "recorded_certs r = \<lparr>
     cm_secrets = \<lparr>Get = (\<lambda>k. unrecorded (Get (cm_secrets r) k)),
       Create = (\<lambda>x. recorded (\<lambda>a. Written x (fst a)) (Create (cm_secrets r) x)),
       Update = (\<lambda>x. recorded (\<lambda>a. Written x (fst a)) (Update (cm_secrets r) x)),
       StatusUpdate = (\<lambda>x. recorded (\<lambda>a. Written x (fst a)) (StatusUpdate (cm_secrets r) x)),
       Delete = (\<lambda>x. recorded (Written x) (Delete (cm_secrets r) x)),
       DeleteAllOf = (\<lambda>ls ns. unrecorded (DeleteAllOf (cm_secrets r) ls ns))\<rparr>,
     cm_upsert = \<lparr>up_fetch = (\<lambda>x. recorded (\<lambda>a. Found (fst a) (snd a)) (up_fetch (cm_upsert r) x)),
       up_write = (\<lambda>x y. recorded (\<lambda>a. Written y (fst (snd a))) (up_write (cm_upsert r) x y))\<rparr>,
     cm_lib = recorded_lib (cm_lib r),
     cm_crypto = recorded_crypto (cm_crypto r),
     rootCASecretName = rootCASecretName r\<rparr>"

lemma recorded_crypto_fields [simp]:
  "pem_Decode (recorded_crypto cr) = pem_Decode cr" "pem_Encode (recorded_crypto cr) = pem_Encode cr"
  "ParsePKCS1PrivateKey (recorded_crypto cr) = ParsePKCS1PrivateKey cr"
  "MarshalPKCS1PrivateKey (recorded_crypto cr) = MarshalPKCS1PrivateKey cr"
  "ParseCertificate (recorded_crypto cr) = ParseCertificate cr"
  "timeNow (recorded_crypto cr) = unrecorded (timeNow cr)"
  by (simp_all add: recorded_crypto_def)

lemma recorded_crypto_simps [simp]:
  "X509KeyPair (recorded_crypto cr) a b c = X509KeyPair cr a b c"
  "KeyPEM (recorded_crypto cr) p = KeyPEM cr p"
  "certFromMap (recorded_crypto cr) m = certFromMap cr m"
  "certToMap (recorded_crypto cr) p = certToMap cr p"
proof -
  show x: "X509KeyPair (recorded_crypto cr) a b c = X509KeyPair cr a b c" for a b c
    by (simp only: X509KeyPair_def recorded_crypto_fields)
  show k: "KeyPEM (recorded_crypto cr) p = KeyPEM cr p"
    by (simp add: KeyPEM_def)
  show "certFromMap (recorded_crypto cr) m = certFromMap cr m"
    by (simp only: certFromMap_def x)
  show "certToMap (recorded_crypto cr) p = certToMap cr p"
    by (simp add: certToMap_def k)
qed

lemma recorded_certs_simps [simp]:
  "up_fetch (cm_upsert (recorded_certs r)) x = recorded (\<lambda>a. Found (fst a) (snd a)) (up_fetch (cm_upsert r) x)"
  "up_write (cm_upsert (recorded_certs r)) x y = recorded (\<lambda>a. Written y (fst (snd a))) (up_write (cm_upsert r) x y)"
  "SetControllerReference (cm_lib (recorded_certs r)) = SetControllerReference (cm_lib r)"
  "rootCASecretName (recorded_certs r) = rootCASecretName r"
  "cm_crypto (recorded_certs r) = recorded_crypto (cm_crypto r)"
  by (simp_all add: recorded_certs_def)

text \<open>
  The possible runs. The secret is read first. It is written only when it is not somebody
  else's, with the operator's label, and with a certificate that the renewal returns: the
  one it had, when that fits, or a new one. Without a write there is an error.
\<close>

fun renewal_calls ::
  "'s CertManager \<Rightarrow> strmap \<Rightarrow> (KeyPair \<Rightarrow> bool) \<Rightarrow> (KeyPair option \<times> go_error option) outcome \<Rightarrow>
   cert_event list \<Rightarrow> bool" where
  "renewal_calls r lbls cond res [Found (Some e) x] = (\<exists>p. res = Returned (None, Some (ErrWrap p e)))"
| "renewal_calls r lbls cond res [Found None old] =
     (case res of Panicked _ \<Rightarrow> True
      | Returned (c, e) \<Rightarrow> e \<noteq> None \<and> certFromMap (cm_crypto r) (Data old) = Returned c)"
| "renewal_calls r lbls cond res [Found None old, Written new e] =
     ((UID old = [] \<or> map_get (Labels old) labelManagedBy = operatorName) \<and>
      Labels new = secretLabels lbls \<and> SecretType new = SecretTypeTLS \<and>
      (\<exists>c p. res = Returned (Some c, map_option (ErrWrap p) e) \<and>
        (Data new = Data old \<and> certFromMap (cm_crypto r) (Data old) = Returned (Some c) \<and> \<not> cond c \<or>
         Data new = certToMap (cm_crypto r) c)))"
| "renewal_calls r lbls cond res _ = False"

lemma managed_iff:
  "\<not> unmanaged x \<longleftrightarrow> UID x = [] \<or> map_get (Labels x) labelManagedBy = operatorName"
  by (cases "Labels x") (auto simp: unmanaged_def operatorName_def)

lemma unmanaged_refs [simp]: "unmanaged (x\<lparr>OwnerReferences := refs\<rparr>) = unmanaged x"
  by (simp add: unmanaged_def)

lemma renew_callback_calls:
  "wp (renew_callback (recorded_certs r) owner (secretLabels lbls) cond (unrecorded factory) old c0)
     (\<lambda>res (s', l'). l' = l \<and> (case res of Panicked _ \<Rightarrow> True
       | Returned (Some e, x, c) \<Rightarrow> certFromMap (cm_crypto r) (Data old) = Returned c
       | Returned (None, new, c) \<Rightarrow> (UID old = [] \<or> map_get (Labels old) labelManagedBy = operatorName) \<and> Labels new = secretLabels lbls \<and>
           SecretType new = SecretTypeTLS \<and>
           (\<exists>d. c = Some d \<and> (Data new = Data old \<and> certFromMap (cm_crypto r) (Data old) = Returned (Some d) \<and>
             \<not> cond d \<or> Data new = certToMap (cm_crypto r) d)))) (s, l)"
  unfolding renew_callback_def refuse_unmanaged_def renew_managed_def NeedsRenewal_def
  by (auto simp: Let_def wp_unrecorded managed_iff [symmetric] split: outcome.split option.split sum.split if_split intro!: wp_any)

text \<open>
  C24. A renewal never overwrites a secret that is not the operator's, and never leaves a
  secret without saying so. On any server, \<open>renewCertSecret\<close> reads the secret once and writes
  it at most once; it writes only when the secret is new or has the operator's label; what
  it writes has the label and holds the certificate that it returns, either a new one or
  the one that was there and fits; and when it writes nothing it returns an error.
\<close>

theorem renewal_protocol:
  "wp (renewCertSecret (recorded_certs r) k owner lbls cond (unrecorded factory))
     (\<lambda>res (s', l). renewal_calls r lbls cond res l) (s, [])"
  unfolding renewCertSecret_def wp_bind
  by (intro wp_CreateOrUpdate, simp, intro wp_recordedI)
    (auto split: option.splits outcome.splits intro!: wp_recordedI wp_mono [OF renew_callback_calls],
     (rule exI, rule refl)+)

subsection \<open>Renewal settles\<close>

text \<open>Operations that do not touch the stored secrets: the clock and the cryptography.\<close>

definition crypto_frame :: "('s \<Rightarrow> 'm) \<Rightarrow> 's crypto \<Rightarrow> bool" where
  "crypto_frame stored cr \<longleftrightarrow> reads_only stored (timeNow cr) \<and> (\<forall>n. reads_only stored (GenerateKey cr n)) \<and>
     (\<forall>c p k g. reads_only stored (CreateCertificate cr c p k g))"

lemma genKeyPair_frame: "crypto_frame stored cr \<Longrightarrow> reads_only stored (genKeyPair cr cert bits ca)"
  unfolding genKeyPair_def crypto_frame_def Let_def
  by (intro reads_only_bind) (auto split: sum.split)

text \<open>
  What a renewal relies on: a factory whose key pairs are read back from the secret and
  then fit.
\<close>

locale cert_profile =
  fixes cr :: "'s crypto"
    and cond :: "KeyPair \<Rightarrow> bool"
    and factory :: "('s, KeyPair result) state"
  assumes made_reads: "crypto_contract cr \<Longrightarrow> run_state factory s = (Inr p, s') \<Longrightarrow>
      X509KeyPair cr (KeyPEM cr p) (CertPEM p) (CACertPEM p) = Returned (Inr (reread p))"
    and made_fits: "crypto_contract cr \<Longrightarrow> run_state factory s = (Inr p, s') \<Longrightarrow> \<not> cond (reread p)"
    and made_frame: "crypto_frame stored cr \<Longrightarrow> reads_only (stored :: 's \<Rightarrow> NamespacedName \<rightharpoonup> Secret) factory"
begin

lemma made_from_map:
  "crypto_contract cr \<Longrightarrow> run_state factory s = (Inr p, s') \<Longrightarrow>
   certFromMap cr (certToMap cr p) = Returned (Some (reread p))"
  using made_reads [of s p s']
  by (simp add: certFromMap_def certToMap_def secretKeyCACrt_def secretKeyTLSCrt_def secretKeyTLSKey_def
      map_get_def)

end

lemma genKeyPair_made:
  assumes "crypto_contract cr" "run_state (genKeyPair cr cert bits ca) s = (Inr p, s')"
  shows "X509KeyPair cr (KeyPEM cr p) (CertPEM p) (CACertPEM p) = Returned (Inr (reread p))"
    "x509Cert p = cert"
  using genKeyPair_reread [OF assms(1), of cert bits ca s] assms(2) by (simp_all add: wp_run)

lemma NewSelfSignedCA_made:
  assumes "run_state (NewSelfSignedCAKeyPair cr cn) s = (Inr p, s')"
  obtains now s1 where "run_state (genKeyPair cr (ca_template cn now) 4096 None) s1 = (Inr p, s')"
  using assms by (auto simp: NewSelfSignedCAKeyPair_def split: prod.splits)

lemma NewServer_made:
  assumes "run_state (NewServerKeyPair cr dns ca) s = (Inr p, s')"
  obtains now s1 where "run_state (genKeyPair cr (server_template dns now) 2048 ca) s1 = (Inr p, s')"
  using assms by (auto simp: NewServerKeyPair_def split: prod.splits if_splits)

interpretation ca_profile: cert_profile cr condCACert "NewSelfSignedCAKeyPair cr commonName"
proof
  show "X509KeyPair cr (KeyPEM cr p) (CertPEM p) (CACertPEM p) = Returned (Inr (reread p))"
    and "\<not> condCACert (reread p)"
    if c: "crypto_contract cr" and r: "run_state (NewSelfSignedCAKeyPair cr commonName) s = (Inr p, s')" for s p s'
  proof -
    from r obtain now s1 where g: "run_state (genKeyPair cr (ca_template commonName now) 4096 None) s1 = (Inr p, s')"
      by (rule NewSelfSignedCA_made)
    show "X509KeyPair cr (KeyPEM cr p) (CertPEM p) (CACertPEM p) = Returned (Inr (reread p))"
      by (rule genKeyPair_made [OF c g])
    show "\<not> condCACert (reread p)"
      using genKeyPair_made(2) [OF c g] by (simp add: condCACert_def IsCA_def ca_template_def reread_def parsed_certificate_def)
  qed
  show "reads_only stored (NewSelfSignedCAKeyPair cr commonName)" if "crypto_frame stored cr"
    for stored :: "'a \<Rightarrow> NamespacedName \<rightharpoonup> Secret"
    using genKeyPair_frame [OF that] that by (auto simp: NewSelfSignedCAKeyPair_def crypto_frame_def)
qed

interpretation server_profile: cert_profile cr "condServerCert dnsNames" "NewServerKeyPair cr dnsNames ca"
proof
  show "X509KeyPair cr (KeyPEM cr p) (CertPEM p) (CACertPEM p) = Returned (Inr (reread p))"
    and "\<not> condServerCert dnsNames (reread p)"
    if c: "crypto_contract cr" and r: "run_state (NewServerKeyPair cr dnsNames ca) s = (Inr p, s')" for s p s'
  proof -
    from r obtain now s1 where g: "run_state (genKeyPair cr (server_template dnsNames now) 2048 ca) s1 = (Inr p, s')"
      by (rule NewServer_made)
    show "X509KeyPair cr (KeyPEM cr p) (CertPEM p) (CACertPEM p) = Returned (Inr (reread p))"
      by (rule genKeyPair_made [OF c g])
    show "\<not> condServerCert dnsNames (reread p)"
      using genKeyPair_made(2) [OF c g]
      by (simp add: condServerCert_def IsCA_def DNSNames_def server_template_def reread_def
          parsed_certificate_def)
  qed
  show "reads_only stored (NewServerKeyPair cr dnsNames ca)" if "crypto_frame stored cr"
    for stored :: "'a \<Rightarrow> NamespacedName \<rightharpoonup> Secret"
    using genKeyPair_frame [OF that] that by (auto simp: NewServerKeyPair_def crypto_frame_def)
qed

text \<open>A secret with a certificate that fits, as a renewal leaves it.\<close>

definition cert_in_place ::
  "'s CertManager \<Rightarrow> NamespacedName \<Rightarrow> kobject option \<Rightarrow> strmap \<Rightarrow> (KeyPair \<Rightarrow> bool) \<Rightarrow> KeyPair \<Rightarrow> Secret \<Rightarrow> bool" where
  "cert_in_place r k owner lbls cond c x \<longleftrightarrow> object_key x = k \<and> Labels x = secretLabels lbls \<and>
     SecretType x = SecretTypeTLS \<and> certFromMap (cm_crypto r) (Data x) = Returned (Some c) \<and> \<not> cond c \<and>
     (case owner of None \<Rightarrow> True
      | Some o' \<Rightarrow> SetControllerReference (cm_lib r) o' (kobject.truncate x) = Inr (OwnerReferences x))"

text \<open>The world of a renewal: a server that answers, a cryptography that keeps its
  contract and does not touch the server's secrets.\<close>

definition renewal_world :: "('s \<Rightarrow> NamespacedName \<rightharpoonup> Secret) \<Rightarrow> 's CertManager \<Rightarrow> bool" where
  "renewal_world stored r \<longleftrightarrow> upsert_store (cm_upsert r) stored \<and> crypto_contract (cm_crypto r) \<and>
     crypto_frame stored (cm_crypto r) \<and> controller_contract (cm_lib r)"

lemma managed_labels [simp]: "Labels x = secretLabels lbls \<Longrightarrow> \<not> unmanaged x"
  by (simp add: unmanaged_def secretLabels_def)

lemma secret_unchanged:
  fixes x :: Secret
  shows "x\<lparr>OwnerReferences := OwnerReferences x, Labels := Labels x, SecretType := SecretType x\<rparr> = x"
  by simp

lemma renewal_keeps:
  assumes w: "renewal_world stored r" and x: "stored s k = Some x" "cert_in_place r k owner lbls cond c x"
    and now: "run_state (timeNow (cm_crypto r)) s = (now, s)" "now \<le> NextRenewal c"
  shows "run_state (renewCertSecret r k owner lbls cond factory) s = (Returned (Some c, None), s)"
proof -
  from w have u: "upsert_store (cm_upsert r) stored" by (simp add: renewal_world_def)
  have k: "object_key (new_secret (nn_namespace k) (nn_name k)) = k" "object_key x = k"
    using x by (simp_all add: object_key_def cert_in_place_def)
  have f: "run_state (up_fetch (cm_upsert r) (new_secret (nn_namespace k) (nn_name k))) s = ((None, x), s)"
    by (rule upsert_store.fetch_found [OF u]) (simp add: k x)
  have m: "run_state (renew_callback r owner (secretLabels lbls) cond factory x None) s =
      (Returned (None, x, Some c), s)"
    using x(2) now
    by (cases owner) (auto simp: renew_callback_def renew_managed_def cert_in_place_def Let_def NeedsRenewal_def
        simp flip: secretLabels_def)
  have v: "run_state (up_write (cm_upsert r) x x) s = ((OperationResultNone, None, x), s)"
    by (rule upsert_store.write_same [OF u]) (simp add: k x)
  show ?thesis
    by (simp add: renewCertSecret_def CreateOrUpdate_def f m v)
qed

lemma cert_in_place_moves:
  assumes "controller_contract (cm_lib r)" "cert_in_place r k owner lbls cond c x"
    and "object_key y = k" "Labels y = Labels x" "SecretType y = SecretType x" "Data y = Data x"
    and "OwnerReferences y = OwnerReferences x"
  shows "cert_in_place r k owner lbls cond c y"
proof -
  have "Namespace y = Namespace x"
    using assms(2,3) by (auto simp: cert_in_place_def object_key_def)
  with assms show ?thesis
    by (auto simp: cert_in_place_def controller_contract_def kobject.defs split: option.splits)
qed

context cert_profile
begin

lemma wp_renew_managed:
  fixes stored :: "'s \<Rightarrow> NamespacedName \<rightharpoonup> Secret"
  assumes "cm_crypto r = cr" "crypto_contract cr" "crypto_frame stored cr"
    and "certFromMap cr (Data x) = Returned c0"
  shows "wp (renew_managed r (secretLabels lbls) cond factory x c0)
     (\<lambda>res s'. stored s' = stored s \<and> (\<forall>new c. res = Returned (None, new, c) \<longrightarrow>
        (\<exists>d c'. c = Some d \<and> c' \<in> {d, reread d} \<and> \<not> cond c' \<and> certFromMap cr (Data new) = Returned (Some c') \<and>
           new = x\<lparr>Labels := secretLabels lbls, SecretType := SecretTypeTLS, Data := Data new\<rparr>))) s"
proof -
  have due: "reads_only stored (NeedsRenewal cr d)" for d
    using assms(3) by (auto simp: NeedsRenewal_def crypto_frame_def)
  have make: "wp factory (\<lambda>f s'. stored s' = stored s \<and> (\<forall>p. f = Inr p \<longrightarrow> \<not> cond (reread p) \<and>
      certFromMap cr (certToMap cr p) = Returned (Some (reread p)))) s1" if "stored s1 = stored s" for s1
    by (rule wp_runI)
      (use that reads_only_run [OF made_frame [OF assms(3)]] made_fits [OF assms(2)] made_from_map [OF assms(2)]
        in auto)
  show ?thesis
  proof (cases c0)
    case None
    then show ?thesis
      by (simp add: renew_managed_def Let_def assms(1)) (rule wp_mono [OF make], auto split: sum.split)
  next
    case (Some d)
    show ?thesis
      unfolding renew_managed_def Let_def Some
      by (simp add: assms(1), rule wp_runI, drule reads_only_run [OF due])
        (use Some assms(4) in \<open>auto simp: assms(1) split: sum.split intro!: wp_mono [OF make]\<close>)
  qed
qed

lemma wp_renew_callback:
  fixes stored :: "'s \<Rightarrow> NamespacedName \<rightharpoonup> Secret"
  assumes w: "renewal_world stored r" and cr: "cm_crypto r = cr" and k: "object_key old = k"
  shows "wp (renew_callback r owner (secretLabels lbls) cond factory old c0)
     (\<lambda>res s'. stored s' = stored s \<and> (\<forall>new c. res = Returned (None, new, c) \<longrightarrow>
        object_key new = k \<and>
        (\<exists>d c'. c = Some d \<and> c' \<in> {d, reread d} \<and> cert_in_place r k owner lbls cond c' new))) s"
proof -
  from w cr have c: "crypto_contract cr" "crypto_frame stored cr" "controller_contract (cm_lib r)"
    by (auto simp: renewal_world_def)
  have refuse: "wp (refuse_unmanaged r x c1) (\<lambda>res s'. stored s' = stored s \<and> (\<exists>e y. res = Returned (Some e, y))) s"
    for x c1
    by (rule wp_runI) (use c(2) cr in \<open>auto simp: refuse_unmanaged_def NeedsRenewal_def crypto_frame_def
      dest!: reads_only_run split: prod.splits option.splits\<close>)
  have place: "cert_in_place r k owner lbls cond c' new \<and> object_key new = k"
    if "(case owner of None \<Rightarrow> Inr (OwnerReferences old)
          | Some o' \<Rightarrow> SetControllerReference (cm_lib r) o' (kobject.truncate old)) = Inr refs"
      and "\<not> cond c'" "certFromMap cr (Data new) = Returned (Some c')"
      and n: "new = old\<lparr>OwnerReferences := refs, Labels := secretLabels lbls, SecretType := SecretTypeTLS,
        Data := Data new\<rparr>" for refs c' new
  proof -
    have f: "object_key new = k" "Labels new = secretLabels lbls" "SecretType new = SecretTypeTLS"
      "OwnerReferences new = refs" "Namespace new = Namespace old"
      using k by (subst n, simp add: object_key_def)+
    with that c(3) cr show ?thesis
      by (auto simp: cert_in_place_def controller_contract_def kobject.defs split: option.splits)
  qed
  show ?thesis
    unfolding renew_callback_def Let_def
    by (auto simp: cr split: outcome.split sum.split if_split
        intro!: wp_mono [OF refuse] wp_mono [OF wp_renew_managed [OF cr c(1,2)]])
      (use place in blast)+
qed

lemma renewal_establishes:
  fixes stored :: "'s \<Rightarrow> NamespacedName \<rightharpoonup> Secret"
  assumes w: "renewal_world stored r" and cr: "cm_crypto r = cr"
    and keyed: "\<And>x. stored s k = Some x \<Longrightarrow> object_key x = k"
  shows "wp (renewCertSecret r k owner lbls cond factory)
     (\<lambda>res s'. \<forall>c. res = Returned (c, None) \<longrightarrow>
        (\<exists>d c' x. c = Some d \<and> c' \<in> {d, reread d} \<and> stored s' k = Some x \<and>
           cert_in_place r k owner lbls cond c' x)) s"
proof -
  let ?n = "new_secret (nn_namespace k) (nn_name k)"
  from w have u: "upsert_store (cm_upsert r) stored" and lib: "controller_contract (cm_lib r)"
    by (auto simp: renewal_world_def)
  have nk: "object_key ?n = k" by (simp add: object_key_def)
  obtain old where f: "run_state (up_fetch (cm_upsert r) ?n) s = ((None, old), s)"
    and old: "object_key old = k" "stored s k = None \<or> stored s k = Some old"
  proof (cases "stored s k")
    case None
    with that nk show ?thesis using upsert_store.fetch_missing [OF u, of s ?n] by simp
  next
    case (Some x)
    with that nk keyed show ?thesis using upsert_store.fetch_found [OF u, of s ?n x] by simp
  qed
  define fits where "fits d x \<longleftrightarrow> (\<exists>c'. c' \<in> {d, reread d} \<and> cert_in_place r k owner lbls cond c' x)" for d x
  have cb: "wp (renew_callback r owner (secretLabels lbls) cond factory old None)
     (\<lambda>res s'. stored s' = stored s \<and> (\<forall>new c. res = Returned (None, new, c) \<longrightarrow>
        object_key new = k \<and> (\<exists>d. c = Some d \<and> fits d new))) s"
    by (rule wp_mono [OF wp_renew_callback [OF w cr old(1)]]) (auto simp: fits_def)
  have wr: "wp (up_write (cm_upsert r) old new) (\<lambda>a s'. \<exists>x. stored s' k = Some x \<and> fits d x) s1"
    if "fits d new" "stored s1 = stored s" "object_key new = k" for new d s1
  proof (rule upsert_store.wp_write [OF u])
    show "stored s1 (object_key new) = None \<or> stored s1 (object_key new) = Some old"
      using that old by simp
    fix z s' assume z: "z = new \<or> completed new z" and st: "stored s' = (stored s1)(object_key new \<mapsto> z)"
    then have "object_key z = k" "Labels z = Labels new" "SecretType z = SecretType new"
      "Data z = Data new" "OwnerReferences z = OwnerReferences new"
      using that(3) by (auto simp: completed_def object_key_def)
    with cert_in_place_moves [OF lib] st that(1,3)
    show "\<exists>x. stored s' k = Some x \<and> fits d x" unfolding fits_def by (metis fun_upd_same)
  qed
  have "wp (renewCertSecret r k owner lbls cond factory)
     (\<lambda>res s'. \<forall>c. res = Returned (c, None) \<longrightarrow> (\<exists>d x. c = Some d \<and> stored s' k = Some x \<and> fits d x)) s"
    unfolding renewCertSecret_def wp_bind
    by (intro wp_CreateOrUpdate, simp add: wp_run [OF f], rule wp_mono [OF cb],
        clarsimp split: outcome.split option.split, intro wp_mono [OF wr]) auto
  then show ?thesis
    by (rule wp_mono) (unfold fits_def, blast)
qed

end

text \<open>
  C19. Renewal settles. Whatever the secret was before, once \<open>RenewServerCertSecret\<close> has
  succeeded the secret holds a certificate for exactly the wanted names, labelled and owned
  by the operator; and every later call with the same arguments, before the renewal time
  of that certificate, returns the same certificate and changes nothing.
\<close>

theorem server_certificate_settles:
  assumes "renewal_world stored r" and "\<And>x. stored s k = Some x \<Longrightarrow> object_key x = k"
    and "run_state (RenewServerCertSecret r k owner lbls dnsNames ca) s = (Returned (c, None), s1)"
  shows "\<exists>c' x. stored s1 k = Some x \<and> certFromMap (cm_crypto r) (Data x) = Returned (Some c') \<and>
    \<not> unmanaged x \<and> \<not> IsCA c' \<and> DNSNames c' = dnsNames \<and> c' \<in> {the c, reread (the c)} \<and>
    (\<forall>s2 now. stored s2 k = stored s1 k \<longrightarrow> run_state (timeNow (cm_crypto r)) s2 = (now, s2) \<longrightarrow>
       now \<le> NextRenewal c' \<longrightarrow>
       run_state (RenewServerCertSecret r k owner lbls dnsNames ca) s2 = (Returned (Some c', None), s2))"
proof -
  have "\<forall>d. Returned (c, None) = Returned (d, None) \<longrightarrow> (\<exists>e c' x. d = Some e \<and> c' \<in> {e, reread e} \<and>
      stored s1 k = Some x \<and> cert_in_place r k owner lbls (condServerCert dnsNames) c' x)"
    using server_profile.renewal_establishes [where s = s and dnsNames = dnsNames and
        ca = ca and owner = owner and lbls = lbls, OF assms(1) refl assms(2)]
    by (simp add: wp_run [OF assms(3) [unfolded RenewServerCertSecret_def]])
  then obtain d c' x where x: "c = Some d" "c' \<in> {d, reread d}" "stored s1 k = Some x"
    "cert_in_place r k owner lbls (condServerCert dnsNames) c' x" by blast
  moreover have "run_state (RenewServerCertSecret r k owner lbls dnsNames ca) s2 = (Returned (Some c', None), s2)"
    if "stored s2 k = stored s1 k" "run_state (timeNow (cm_crypto r)) s2 = (now, s2)" "now \<le> NextRenewal c'"
    for s2 now
    unfolding RenewServerCertSecret_def
    by (rule renewal_keeps [OF assms(1) _ x(4) that(2,3)]) (simp add: that x)
  ultimately show ?thesis
    by (intro exI [of _ c'] exI [of _ x]) (auto simp: cert_in_place_def condServerCert_def)
qed

subsection \<open>Panics\<close>

text \<open>
  A secret with data but without a private key makes the operator panic. The name of a
  certificate secret can be taken by a secret of any other kind: when it has some data and
  nothing under \<open>tls.key\<close>, the renewal dereferences the missing PEM block, before it looks
  whether the secret is the operator's.
\<close>

theorem keyless_secret_panics:
  assumes "run_state (up_fetch (cm_upsert r) (new_secret (nn_namespace k) (nn_name k))) s = ((None, x), s1)"
    and "Data x \<noteq> None" "map_get (Data x) secretKeyTLSKey = []" "pem_Decode (cm_crypto r) [] = None"
  shows "run_state (renewCertSecret r k owner lbls cond factory) s = (Panicked nil_dereference, s1)"
  using assms(2-)
  by (auto simp: renewCertSecret_def CreateOrUpdate_def assms(1) renew_callback_def certFromMap_def X509KeyPair_def)

subsection \<open>The root certificate\<close>

lemma renew_callback_some:
  "wp (renew_callback r owner lbls cond factory old c0)
     (\<lambda>res s'. \<forall>x c. res = Returned (None, x, c) \<longrightarrow> c \<noteq> None) s"
  unfolding renew_callback_def refuse_unmanaged_def renew_managed_def
  by (auto simp: Let_def split: outcome.split option.split sum.split if_split intro!: wp_any [where m = factory]
      wp_any [where m = "NeedsRenewal cr c" for cr c])

lemma renewCertSecret_some:
  "wp (renewCertSecret r k owner lbls cond factory)
     (\<lambda>res s'. \<forall>c. res = Returned (c, None) \<longrightarrow> c \<noteq> None) s"
  unfolding renewCertSecret_def wp_bind
  by (intro wp_CreateOrUpdate, rule wp_any)
    (auto split: outcome.split option.split intro!: wp_mono [OF renew_callback_some]
      wp_any [where m = "up_write u a b" for u a b])

lemma root_ca_result:
  "wp (RenewRootCACertSecret r) (\<lambda>res s'. case res of Panicked _ \<Rightarrow> True
     | Returned (c, e) \<Rightarrow> (c = None) = (e \<noteq> None)) s"
  unfolding RenewRootCACertSecret_def RenewCACertSecret_def wp_bind
  by (rule wp_mono [OF renewCertSecret_some]) (auto split: outcome.split option.split)

text \<open>
  \<open>RenewRootCACertSecret\<close> returns a certificate or an error, and never both or neither,
  on any server: its callers may use the certificate when there is no error.
\<close>

theorem root_ca_or_error:
  "wp (RenewRootCACertSecret r) (\<lambda>res s'. case res of Panicked _ \<Rightarrow> True
     | Returned (c, e) \<Rightarrow> (c = None) = (e \<noteq> None)) s"
  by (rule root_ca_result)

end
