(* ===== verification/CaRoot.thy ===== *)
theory CaRoot
  imports ApiTypes CertRenewal Cluster
begin

text \<open>
  \<open>pkg/controller/caroot/caroot_controller.go\<close>: keeps the operator's root certificate. Its
  only watched object is the root secret; other secrets are filtered out. At the end, a
  concrete cryptography on which the certificate theorems are instantiated.
\<close>

subsection \<open>The controller\<close>

record 's ReconcileCARootSecret =
  certManager :: "'s CertManager"
  ca_Now :: "('s, time) state"

definition Reconcile :: "'s ReconcileCARootSecret \<Rightarrow> NamespacedName \<Rightarrow> ('s, reconciled outcome) state" where
  "Reconcile r request = do {
     c \<leftarrow> RenewRootCACertSecret (certManager r);
     case c of
       Panicked p \<Rightarrow> ret (Panicked p)
     | Returned (cert, err) \<Rightarrow>
         (case err of
            Some e \<Rightarrow> ret (Returned (no_requeue, Some e))
          | None \<Rightarrow>
              (case cert of
                 None \<Rightarrow> ret (Panicked nil_dereference)
               | Some kp \<Rightarrow> do {
                   now \<leftarrow> ca_Now r;
                   ret (Returned (Result (wrap64 (time_Sub (NextRenewal kp) now + 30 * Second)), None))
                 }))
   }"

text \<open>\<open>secretNameFilter.Map\<close>; an object without metadata is \<open>None\<close>.\<close>

definition secretNameFilter_Map :: "NamespacedName \<Rightarrow> kobject option \<Rightarrow> NamespacedName list" where
  "secretNameFilter_Map n obj =
     (case obj of
        None \<Rightarrow> []
      | Some m \<Rightarrow> if Name m \<noteq> nn_name n \<or> Namespace m \<noteq> nn_namespace n then [] else [n])"

lemma secretNameFilter_iff:
  "secretNameFilter_Map n obj = (if map_option object_key obj = Some n then [n] else [])"
  by (cases n) (auto simp: secretNameFilter_Map_def object_key_def split: option.split)

subsection \<open>Renewal of the root certificate\<close>

text \<open>
  The root certificate is renewed on time. As long as the root secret holds a CA
  certificate as the operator writes it and the certificate is not due, a reconciliation
  changes nothing and asks to be called 30 seconds after the time at which it is due, so
  the next call finds it due.
\<close>

theorem root_ca_at_rest:
  assumes "renewal_world stored (certManager r)"
    and "stored s (rootCASecretName (certManager r)) = Some x"
    and "cert_in_place (certManager r) (rootCASecretName (certManager r)) None rootCASecretLabels condCACert c x"
    and "run_state (timeNow (cm_crypto (certManager r))) s = (now, s)" "run_state (ca_Now r) s = (now, s)"
    and "now \<le> NextRenewal c" "NextRenewal c - now \<le> maxDuration - 30 * Second"
  shows "\<exists>d. run_state (CaRoot.Reconcile r request) s = (Returned (Result d, None), s) \<and>
    IsCA c \<and> 30 * Second \<le> d \<and> now + d = NextRenewal c + 30 * Second"
proof -
  have "run_state (RenewRootCACertSecret (certManager r)) s = (Returned (Some c, None), s)"
    unfolding RenewRootCACertSecret_def RenewCACertSecret_def
    by (simp add: renewal_keeps [OF assms(1-4,6)])
  moreover have "wrap64 (time_Sub (NextRenewal c) now + 30 * Second) = NextRenewal c - now + 30 * Second"
    using assms(6,7) time_Sub_exact [of "NextRenewal c" now]
    by (simp add: minDuration_def maxDuration_def Second_def)
  ultimately show ?thesis
    using assms(3,5,6) by (simp add: Reconcile_def cert_in_place_def condCACert_def)
qed

subsection \<open>A concrete cryptography\<close>

text \<open>
  A cryptography that can issue the certificates of a list: the bytes of a certificate are
  its position in the list, in unary. It keeps the contract.
\<close>

fun index_of :: "Certificate list \<Rightarrow> Certificate \<Rightarrow> nat option" where
  "index_of [] c = None"
| "index_of (d # ds) c = (if d = c then Some 0 else map_option Suc (index_of ds c))"

lemma index_of_nth: "index_of ds c = Some i \<Longrightarrow> i < length ds \<and> ds ! i = c"
  by (induction ds arbitrary: i) (auto split: if_splits)

definition table_crypto :: "('s, time) state \<Rightarrow> Certificate list \<Rightarrow> 's crypto" where
  "table_crypto clk certs = \<lparr>
     pem_Decode = (\<lambda>s. case s of [] \<Rightarrow> None
       | t # b \<Rightarrow> Some (if t = CHR ''C'' then pemTypeCertificate else pemTypeRSAPrivateKey, b)),
     pem_Encode = (\<lambda>t b. (if t = pemTypeCertificate then CHR ''C'' else CHR ''K'') # b),
     ParsePKCS1PrivateKey = Inr, MarshalPKCS1PrivateKey = id,
     ParseCertificate = (\<lambda>b. if length b < length certs then Inr (parsed_certificate (certs ! length b))
       else Inl (ErrOther ''malformed certificate'')),
     PublicKey = id, GenerateKey = (\<lambda>n. ret (Inr ''key'')),
     CreateCertificate = (\<lambda>c p k g. ret (case index_of certs c of
       None \<Rightarrow> Inl (ErrOther ''cannot sign'') | Some i \<Rightarrow> Inr (replicate i CHR ''x''))),
     timeNow = clk\<rparr>"

lemma table_crypto_contract: "crypto_contract (table_crypto clk certs)"
  by (auto simp: crypto_contract_def table_crypto_def pemTypeCertificate_def pemTypeRSAPrivateKey_def
      split: option.splits dest: index_of_nth)

lemma table_crypto_frame: "reads_only stored clk \<Longrightarrow> crypto_frame stored (table_crypto clk certs)"
  by (simp add: crypto_frame_def table_crypto_def)

definition cluster_clock :: "(cluster, time) state" where
  "cluster_clock = State (\<lambda>s. (clock s, s))"

definition cluster_certs :: "Certificate list \<Rightarrow> cluster CertManager" where
  "cluster_certs certs = \<lparr>cm_secrets = cluster_secrets, cm_upsert = mem_upserter cluster_secrets,
     cm_lib = cluster_lib, cm_crypto = table_crypto cluster_clock certs,
     rootCASecretName = NN ''op'' ''image-registry-root-ca''\<rparr>"

lemma cluster_renewal_world: "renewal_world all_secrets (cluster_certs certs)"
  by (simp add: renewal_world_def cluster_certs_def table_crypto_contract table_crypto_frame reads_only_def
      cluster_clock_def cluster_controller_contract cluster_secret_upserts.upsert_store_axioms)

subsection \<open>Witnesses\<close>

definition demo_certs :: "cluster CertManager" where
  "demo_certs = cluster_certs [ca_template rootCACommonName 0, server_template [''r.ns.svc''] 0]"

lemmas demo_run = demo_certs_def cluster_certs_def renewCertSecret_def CreateOrUpdate_def
  mem_upserter_def cluster_secrets_def mem_client_def empty_cluster_def renew_callback_def certFromMap_def
  unmanaged_def renew_managed_def genKeyPair_def table_crypto_def cluster_clock_def
  server_template_def ca_template_def object_key_def Let_def

lemma demo_server_run:
  "\<exists>c s1. run_state (RenewServerCertSecret demo_certs (NN ''ns'' ''tls'') None None [''r.ns.svc''] None) empty_cluster =
     (Returned (c, None), s1)"
  by (simp add: demo_run RenewServerCertSecret_def NewServerKeyPair_def)

lemma server_certificate_settles_witness:
  "\<exists>c s1 c' x. run_state (RenewServerCertSecret demo_certs (NN ''ns'' ''tls'') None None [''r.ns.svc''] None)
       empty_cluster = (Returned (c, None), s1) \<and>
     all_secrets s1 (NN ''ns'' ''tls'') = Some x \<and>
     certFromMap (cm_crypto demo_certs) (Data x) = Returned (Some c') \<and> DNSNames c' = [''r.ns.svc'']"
proof -
  obtain c s1 where r: "run_state (RenewServerCertSecret demo_certs (NN ''ns'' ''tls'') None None
      [''r.ns.svc''] None) empty_cluster = (Returned (c, None), s1)"
    using demo_server_run by blast
  have w: "renewal_world all_secrets demo_certs"
    unfolding demo_certs_def by (rule cluster_renewal_world)
  have "\<And>x. all_secrets empty_cluster (NN ''ns'' ''tls'') = Some x \<Longrightarrow> object_key x = NN ''ns'' ''tls''"
    by (simp add: empty_cluster_def)
  from server_certificate_settles [OF w this r] r show ?thesis by blast
qed

lemma demo_ca_run:
  "\<exists>d s1. run_state (RenewCACertSecret demo_certs (rootCASecretName demo_certs) None rootCASecretLabels
       rootCACommonName) empty_cluster = (Returned (Some d, None), s1) \<and>
     x509Cert d = ca_template rootCACommonName 0 \<and> clock s1 = 0"
  by (simp add: demo_run RenewCACertSecret_def NewSelfSignedCAKeyPair_def)

lemma root_ca_at_rest_witness:
  "\<exists>s c d. run_state (CaRoot.Reconcile \<lparr>certManager = demo_certs, ca_Now = cluster_clock\<rparr> (NN ''op'' ''x'')) s =
     (Returned (Result d, None), s) \<and> d = NextRenewal c + 30 * Second"
proof -
  let ?r = "\<lparr>certManager = demo_certs, ca_Now = cluster_clock\<rparr>"
  obtain d s1 where r: "run_state (RenewCACertSecret demo_certs (rootCASecretName demo_certs) None
      rootCASecretLabels rootCACommonName) empty_cluster = (Returned (Some d, None), s1)"
    and d: "x509Cert d = ca_template rootCACommonName 0" "clock s1 = 0"
    using demo_ca_run by blast
  have w: "renewal_world all_secrets demo_certs"
    unfolding demo_certs_def by (rule cluster_renewal_world)
  have k: "object_key x = rootCASecretName demo_certs"
    if "all_secrets empty_cluster (rootCASecretName demo_certs) = Some x" for x
    using that by (simp add: empty_cluster_def)
  obtain c x where c: "c \<in> {d, reread d}" "all_secrets s1 (rootCASecretName demo_certs) = Some x"
    "cert_in_place demo_certs (rootCASecretName demo_certs) None rootCASecretLabels condCACert c x"
    using ca_profile.renewal_establishes [where s = empty_cluster and owner = None and lbls = rootCASecretLabels
        and commonName = rootCACommonName, OF w refl k]
    by (auto simp: wp_run [OF r [unfolded RenewCACertSecret_def]])
  have n: "0 \<le> NextRenewal c" "NextRenewal c \<le> maxDuration - 30 * Second"
    using c(1) d(1)
    by (auto simp: NextRenewal_def reread_def parsed_certificate_def ca_template_def whole_seconds_def caTTL_def
        time_defs quot_def)
  have "run_state (timeNow (cm_crypto (certManager ?r))) s1 = (0, s1)" "run_state (ca_Now ?r) s1 = (0, s1)"
    by (simp_all add: demo_certs_def cluster_certs_def table_crypto_def cluster_clock_def d(2))
  from root_ca_at_rest [of all_secrets ?r s1 x c 0 "NN ''op'' ''x''"] this w c n
  show ?thesis by auto
qed

text \<open>A docker secret with the name of the certificate secret.\<close>

lemma keyless_secret_panics_witness:
  "fst (run_state (renewCertSecret demo_certs (NN ''ns'' ''tls'') None None condCACert
     (NewSelfSignedCAKeyPair (cm_crypto demo_certs) ''cn''))
     (empty_cluster\<lparr>all_secrets := [NN ''ns'' ''tls'' \<mapsto>
        (new_secret ''ns'' ''tls'')\<lparr>Data := Some [''.dockerconfigjson'' \<mapsto> ''{}'']\<rparr>]\<rparr>)) = Panicked nil_dereference"
proof -
  let ?x = "(new_secret ''ns'' ''tls'')\<lparr>Data := Some [''.dockerconfigjson'' \<mapsto> ''{}'']\<rparr>"
  let ?s = "empty_cluster\<lparr>all_secrets := [NN ''ns'' ''tls'' \<mapsto> ?x]\<rparr>"
  have f: "run_state (up_fetch (cm_upsert demo_certs)
      (new_secret (nn_namespace (NN ''ns'' ''tls'')) (nn_name (NN ''ns'' ''tls'')))) ?s = ((None, ?x), ?s)"
    by (simp add: demo_certs_def cluster_certs_def mem_upserter_def cluster_secrets_def mem_client_def object_key_def)
  show ?thesis
    by (subst keyless_secret_panics [OF f])
      (simp_all add: map_get_def secretKeyTLSKey_def demo_certs_def cluster_certs_def table_crypto_def)
qed

end
