(* ===== verification/RegistryReconciler.thy ===== *)
theory RegistryReconciler
  imports RegistryNames KeyToRequest Merge CertManager
begin

text \<open>
  \<open>pkg/controller/imageregistry\<close>: the controller behind \<open>ImageRegistry\<close>. A reconciliation runs
  eight tasks, each of which brings one object into the desired state, and then reports
  what it found in the status. This theory has the code of the three files
  \<open>imageregistry_reconcile{,_certs,_rbac}.go\<close>; the service, the claim and the stateful set
  are in \<open>RegistryWorkload\<close>, and the theorems in \<open>RegistryReadiness\<close>.
\<close>

subsection \<open>The objects\<close>

record PolicyRule =
  pr_APIGroups :: "string list"
  pr_Resources :: "string list"
  pr_Verbs :: "string list"

record Role = kobject +
  Rules :: "PolicyRule list"

record Subject =
  sub_APIGroup :: string
  sub_Kind :: string
  sub_Name :: string

record RoleRef =
  rr_APIGroup :: string
  rr_Kind :: string
  rr_Name :: string

record RoleBinding = kobject +
  Subjects :: "Subject list"
  rb_RoleRef :: RoleRef

text \<open>cert-manager's \<open>Certificate\<close> resource and its object reference.\<close>

record ObjectReference =
  objref_Name :: string
  objref_Kind :: string

record CertificateResourceSpec =
  crs_IsCA :: bool
  crs_Duration :: "duration option"
  crs_RenewBefore :: "duration option"
  crs_CommonName :: string
  crs_DNSNames :: "string list"
  crs_SecretName :: string
  crs_IssuerRef :: ObjectReference

record CertificateResource = kobject +
  cert_Spec :: CertificateResourceSpec

record PersistentVolumeClaim = kobject +
  pvc_StorageClassName :: "string option"
  pvc_AccessModes :: "string list"
  pvc_Resources :: "(string \<times> string) list"

record StatefulSet = kobject +
  ss_Replicas :: "int option"
  ss_ServiceName :: string
  ss_UpdateStrategy :: string
  ss_Selector :: strmap
  ss_TemplateLabels :: strmap
  ss_PodSpec :: PodSpec
  sts_ObservedGeneration :: int
  sts_Replicas :: int
  sts_ReadyReplicas :: int
  sts_UpdatedReplicas :: int

text \<open>New objects with the given namespace and name; all other fields have their zero value.\<close>

definition named :: "string \<Rightarrow> string \<Rightarrow> kobject" where
  "named ns n = new_kobject\<lparr>Namespace := ns, Name := n\<rparr>"

definition no_certificate :: CertificateResourceSpec where
  "no_certificate = \<lparr>crs_IsCA = False, crs_Duration = None, crs_RenewBefore = None, crs_CommonName = [],
     crs_DNSNames = [], crs_SecretName = [], crs_IssuerRef = \<lparr>objref_Name = [], objref_Kind = []\<rparr>\<rparr>"

definition new_CertificateResource :: "string \<Rightarrow> string \<Rightarrow> CertificateResource" where
  "new_CertificateResource ns n = kobject.extend (named ns n) (CertificateResource.fields no_certificate)"

definition new_Role :: "string \<Rightarrow> string \<Rightarrow> Role" where
  "new_Role ns n = kobject.extend (named ns n) (Role.fields [])"

definition new_RoleBinding :: "string \<Rightarrow> string \<Rightarrow> RoleBinding" where
  "new_RoleBinding ns n = kobject.extend (named ns n)
     (RoleBinding.fields [] \<lparr>rr_APIGroup = [], rr_Kind = [], rr_Name = []\<rparr>)"

subsection \<open>The reconciler\<close>

definition EnvImageAuth :: string where "EnvImageAuth = ''OPERATOR_IMAGE_AUTH''"
definition EnvImageNginx :: string where "EnvImageNginx = ''OPERATOR_IMAGE_NGINX''"
definition EnvImageRegistry :: string where "EnvImageRegistry = ''OPERATOR_IMAGE_REGISTRY''"

text \<open>
  One API server, its client split by kind. \<open>condition_order\<close> is the order in which Go
  ranges over a map of conditions, which is not specified.
\<close>

record 's ReconcileImageRegistry =
  reg_crs :: "(ImageRegistry, 's) client"
  up_Certificates :: "(CertificateResource, 's) upserter"
  up_ServiceAccounts :: "(kobject, 's) upserter"
  up_Roles :: "(Role, 's) upserter"
  up_RoleBindings :: "(RoleBinding, 's) upserter"
  up_Services :: "(Service, 's) upserter"
  up_StatefulSets :: "(StatefulSet, 's) upserter"
  up_Claims :: "(PersistentVolumeClaim, 's) upserter"
  reg_lib :: "'s kube_lib"
  reg_certManager :: "'s CertManager"
  condition_order :: "Conditions \<Rightarrow> Condition list"
  reg_dnsZone :: string
  imageAuth :: string
  imageNginx :: string
  imageRegistry :: string

definition or_default :: "string \<Rightarrow> string \<Rightarrow> string" where
  "or_default v d = (if v = [] then d else v)"

text \<open>\<open>newReconciler\<close>: the clients and the certificate manager are in \<open>base\<close>. The list of the
  tasks is \<open>reconcileTasks\<close> of \<open>RegistryWorkload\<close>.\<close>

definition newReconciler ::
  "(string \<Rightarrow> string) \<Rightarrow> string result \<Rightarrow> 's ReconcileImageRegistry \<Rightarrow> 's ReconcileImageRegistry outcome" where
  "newReconciler Getenv GetOperatorNamespace base =
     (case RootCASecretName Getenv GetOperatorNamespace of
        Panicked p \<Rightarrow> Panicked p
      | Returned n \<Rightarrow> Returned (base\<lparr>
          reg_certManager := (reg_certManager base)\<lparr>rootCASecretName := n\<rparr>,
          reg_dnsZone := DNSZone Getenv,
          imageAuth := or_default (Getenv EnvImageAuth) ''mgoltzsche/image-registry-operator:latest-auth'',
          imageNginx := or_default (Getenv EnvImageNginx) ''mgoltzsche/image-registry-operator:latest-nginx'',
          imageRegistry := or_default (Getenv EnvImageRegistry) ''registry:2''\<rparr>))"

definition externalHostnameForCR :: "'s ReconcileImageRegistry \<Rightarrow> ImageRegistry \<Rightarrow> string" where
  "externalHostnameForCR r cr = RegistryHostname cr (reg_dnsZone r)"

subsection \<open>Creating or updating an object\<close>

text \<open>
  \<open>upsert\<close>. The callback \<open>modify\<close> changes the object and the captured instance. The code
  gives the object a map of annotations, so that \<open>modify\<close> may write to it.
\<close>

type_synonym ('o, 's) modification =
  "'o \<Rightarrow> ImageRegistry \<Rightarrow> ('s, go_error option \<times> 'o \<times> ImageRegistry) state"

definition prepare :: "'a kobject_scheme \<Rightarrow> 'a kobject_scheme" where
  "prepare obj = (if Annotations obj = None then obj\<lparr>Annotations := Some Map.empty\<rparr> else obj)"

definition upsert_callback ::
  "'s ReconcileImageRegistry \<Rightarrow> ImageRegistry option \<Rightarrow> ('a kobject_scheme, 's) modification \<Rightarrow>
   'a kobject_scheme \<Rightarrow> ImageRegistry \<Rightarrow>
   ('s, (go_error option \<times> 'a kobject_scheme \<times> ImageRegistry) outcome) state" where
  "upsert_callback r owner modify obj cr =
     (case owner of
        None \<Rightarrow> do { q \<leftarrow> modify (prepare obj) cr; ret (Returned q) }
      | Some ow \<Rightarrow>
          (let obj = (prepare obj)\<lparr>Labels := selectorLabelsForCR ow\<rparr> in
           case SetControllerReference (reg_lib r) (kobject.truncate ow) (kobject.truncate obj) of
             Inl e \<Rightarrow> ret (Returned (Some e, obj, cr))
           | Inr refs \<Rightarrow> do { q \<leftarrow> modify (obj\<lparr>OwnerReferences := refs\<rparr>) cr; ret (Returned q) }))"

definition upsert ::
  "'s ReconcileImageRegistry \<Rightarrow> ('a kobject_scheme, 's) upserter \<Rightarrow> ImageRegistry option \<Rightarrow>
   'a kobject_scheme \<Rightarrow> ('a kobject_scheme, 's) modification \<Rightarrow> ImageRegistry \<Rightarrow>
   ('s, (go_error option \<times> ImageRegistry) outcome) state" where
  "upsert r up owner obj modify cr = do {
     u \<leftarrow> CreateOrUpdate up obj (upsert_callback r owner modify) cr;
     case u of
       Panicked p \<Rightarrow> ret (Panicked p)
     | Returned (_, err, obj', cr') \<Rightarrow>
         ret (Returned (map_option (ErrWrap (''upsert '' @ Kind obj' @ '' '' @ Name obj' @ '': '')) err, cr'))
   }"

text \<open>A modification that changes the object only and does not fail.\<close>

definition sets :: "('a \<Rightarrow> 'a) \<Rightarrow> ('a, 's) modification" where
  "sets f obj cr = ret (None, f obj, cr)"

subsection \<open>Certificates\<close>

definition toObjectReference :: "CertIssuerRefSpec \<Rightarrow> ObjectReference" where
  "toObjectReference issuer = \<lparr>objref_Name = issuer_Name issuer, objref_Kind = issuer_Kind issuer\<rparr>"

definition dnsNamesForCR :: "'s ReconcileImageRegistry \<Rightarrow> ImageRegistry \<Rightarrow> string list" where
  "dnsNamesForCR r cr =
     (let internalFQN = Name cr @ ''.'' @ Namespace cr @ ''.svc.cluster.local'';
          externalFQN = Name cr @ ''.'' @ Namespace cr @ ''.'' @ reg_dnsZone r in
      (if externalFQN \<noteq> internalFQN then [externalFQN] else []) @
        [internalFQN, Name cr @ ''.'' @ Namespace cr @ ''.svc''])"

text \<open>The result of a certificate renewal, as the tasks use it: the error alone.\<close>

definition renewal_error ::
  "ImageRegistry \<Rightarrow> (KeyPair option \<times> go_error option) outcome \<Rightarrow> (go_error option \<times> ImageRegistry) outcome" where
  "renewal_error cr res = (case res of Panicked p \<Rightarrow> Panicked p | Returned (_, err) \<Rightarrow> Returned (err, cr))"

definition auth_ca_certificate :: "string \<Rightarrow> string \<Rightarrow> CertIssuerRefSpec \<Rightarrow> CertificateResourceSpec" where
  "auth_ca_certificate commonName secretName issuer = \<lparr>crs_IsCA = True,
     crs_Duration = Some (24 * 365 * 5 * Hour), crs_RenewBefore = None, crs_CommonName = commonName,
     crs_DNSNames = [], crs_SecretName = secretName, crs_IssuerRef = toObjectReference issuer\<rparr>"

definition reconcileTokenCert ::
  "'s ReconcileImageRegistry \<Rightarrow> ImageRegistry \<Rightarrow> ('s, (go_error option \<times> ImageRegistry) outcome) state" where
  "reconcileTokenCert r cr =
     (let secretName = authCASecretNameForCR cr;
          commonName = Name cr @ ''.'' @ Namespace cr @ ''.svc'';
          lbls = selectorLabelsForCR cr in
      case cs_IssuerRef (AuthCA cr) of
        Some issuer \<Rightarrow>
          upsert r (up_Certificates r) (Some cr) (new_CertificateResource (Namespace cr) (authCACertNameForCR cr))
            (sets (\<lambda>c. c\<lparr>Labels := lbls, cert_Spec := auth_ca_certificate commonName secretName issuer\<rparr>)) cr
      | None \<Rightarrow>
          if cs_SecretName (AuthCA cr) = None then do {
            c \<leftarrow> RenewCACertSecret (reg_certManager r) (NN (Namespace cr) secretName)
              (Some (kobject.truncate cr)) lbls commonName;
            ret (renewal_error cr c)
          }
          else ret (Returned (None, cr)))"

text \<open>\<open>dnsNames[0]\<close> exists: \<open>dnsNamesForCR\<close> has at least two elements.\<close>

definition tls_certificate :: "string list \<Rightarrow> string \<Rightarrow> CertIssuerRefSpec \<Rightarrow> CertificateResourceSpec" where
  "tls_certificate dnsNames secretName issuer = \<lparr>crs_IsCA = False,
     crs_Duration = Some (24 * 90 * Hour), crs_RenewBefore = Some (24 * 20 * Hour),
     crs_CommonName = hd dnsNames, crs_DNSNames = dnsNames, crs_SecretName = secretName,
     crs_IssuerRef = toObjectReference issuer\<rparr>"

definition reconcileTLSCert ::
  "'s ReconcileImageRegistry \<Rightarrow> ImageRegistry \<Rightarrow> ('s, (go_error option \<times> ImageRegistry) outcome) state" where
  "reconcileTLSCert r cr =
     (let secretName = tlsSecretNameForCR cr; dnsNames = dnsNamesForCR r cr; lbls = selectorLabelsForCR cr in
      case cs_IssuerRef (reg_TLS cr) of
        Some issuer \<Rightarrow>
          upsert r (up_Certificates r) (Some cr) (new_CertificateResource (Namespace cr) (tlsCertNameForCR cr))
            (sets (\<lambda>c. c\<lparr>Labels := lbls, cert_Spec := tls_certificate dnsNames secretName issuer\<rparr>)) cr
      | None \<Rightarrow>
          if cs_SecretName (reg_TLS cr) = None then do {
            ca \<leftarrow> RootCACert (reg_certManager r);
            case ca of
              Panicked p \<Rightarrow> ret (Panicked p)
            | Returned (Inl e) \<Rightarrow> ret (Returned (Some e, cr))
            | Returned (Inr kp) \<Rightarrow> do {
                c \<leftarrow> RenewServerCertSecret (reg_certManager r) (NN (Namespace cr) secretName)
                  (Some (kobject.truncate cr)) lbls dnsNames (Some kp);
                ret (renewal_error cr c)
              }
          }
          else ret (Returned (None, cr)))"

subsection \<open>Access of the authenticator to the accounts\<close>

definition reconcileServiceAccount ::
  "'s ReconcileImageRegistry \<Rightarrow> ImageRegistry \<Rightarrow> ('s, (go_error option \<times> ImageRegistry) outcome) state" where
  "reconcileServiceAccount r cr =
     upsert r (up_ServiceAccounts r) (Some cr) (named (Namespace cr) (serviceAccountNameForCR cr)) (sets id) cr"

definition account_rules :: "PolicyRule list" where
  "account_rules = [\<lparr>pr_APIGroups = [''registry.mgoltzsche.github.com''],
     pr_Resources = [''imageregistryaccounts''], pr_Verbs = [''get'', ''list'', ''watch'']\<rparr>]"

definition reconcileRole ::
  "'s ReconcileImageRegistry \<Rightarrow> ImageRegistry \<Rightarrow> ('s, (go_error option \<times> ImageRegistry) outcome) state" where
  "reconcileRole r cr =
     upsert r (up_Roles r) (Some cr) (new_Role (Namespace cr) (serviceAccountNameForCR cr))
       (sets (\<lambda>role. role\<lparr>Rules := account_rules\<rparr>)) cr"

text \<open>\<open>corev1.SchemeGroupVersion.Group\<close> is empty.\<close>

definition bind_account :: "RoleBinding \<Rightarrow> RoleBinding" where
  "bind_account rb = rb\<lparr>
     Subjects := [\<lparr>sub_APIGroup = [], sub_Kind = ''ServiceAccount'', sub_Name = Name rb\<rparr>],
     rb_RoleRef := \<lparr>rr_APIGroup = ''rbac.authorization.k8s.io'', rr_Kind = ''Role'', rr_Name = Name rb\<rparr>\<rparr>"

definition reconcileRoleBinding ::
  "'s ReconcileImageRegistry \<Rightarrow> ImageRegistry \<Rightarrow> ('s, (go_error option \<times> ImageRegistry) outcome) state" where
  "reconcileRoleBinding r cr =
     upsert r (up_RoleBindings r) (Some cr) (new_RoleBinding (Namespace cr) (serviceAccountNameForCR cr))
       (sets bind_account) cr"

end
