(* ===== verification/RegistryWorkload.thy ===== *)
theory RegistryWorkload
  imports RegistryReconciler
begin

text \<open>
  The workload of a registry (\<open>imageregistry_reconcile_svc.go\<close>): the service, the persistent
  volume claim and the stateful set with its three containers; and \<open>Reconcile\<close> of
  \<open>imageregistry_reconcile.go\<close>, which runs all tasks and updates the status. Resource
  quantities are represented by their texts.
\<close>

subsection \<open>Constants\<close>

definition annotationImageRegistry :: string where
  "annotationImageRegistry = ''registry.mgoltzsche.github.com/imageregistry''"
definition pvcAnnotationToRequest :: keyToRequest where
  "pvcAnnotationToRequest = AnnotationToRequest annotationImageRegistry"
definition annotationExternalDnsHostname :: string where
  "annotationExternalDnsHostname = ''external-dns.alpha.kubernetes.io/hostname''"
definition annotationImageRegistryGeneration :: string where
  "annotationImageRegistryGeneration = ''registry.mgoltzsche.github.com/generation''"
definition annotationStatefulSetExternalName :: string where
  "annotationStatefulSetExternalName = ''registry.mgoltzsche.github.com/externalName''"
definition internalPortRegistry :: int where "internalPortRegistry = 5000"
definition internalPortAuth :: int where "internalPortAuth = 5001"
definition internalPortNginx :: int where "internalPortNginx = 8443"
definition publicPortNginx :: int where "publicPortNginx = 443"
definition publicPortName :: string where "publicPortName = ''https''"

definition annotate :: "string \<Rightarrow> string \<Rightarrow> strmap \<Rightarrow> strmap" where
  "annotate k v a = Some ((case a of None \<Rightarrow> Map.empty | Some m \<Rightarrow> m)(k \<mapsto> v))"

subsection \<open>Service\<close>

definition service_for_cr :: "'s ReconcileImageRegistry \<Rightarrow> ImageRegistry \<Rightarrow> Service \<Rightarrow> Service" where
  "service_for_cr r cr svc =
     AddServicePort publicPortName publicPortNginx internalPortNginx ''TCP''
       (svc\<lparr>Annotations := annotate annotationExternalDnsHostname (externalHostnameForCR r cr) (Annotations svc),
         svc_Selector := selectorLabelsForCR cr, svc_Type := ''LoadBalancer''\<rparr>)"

definition reconcileService ::
  "'s ReconcileImageRegistry \<Rightarrow> ImageRegistry \<Rightarrow> ('s, (go_error option \<times> ImageRegistry) outcome) state" where
  "reconcileService r cr =
     upsert r (up_Services r) (Some cr) (new_Service (Namespace cr) (Name cr)) (sets (service_for_cr r cr)) cr"

subsection \<open>Persistent volume claim\<close>

definition new_Claim :: "string \<Rightarrow> string \<Rightarrow> PersistentVolumeClaim" where
  "new_Claim ns n = kobject.extend (named ns n) (PersistentVolumeClaim.fields None [] [])"

definition claim_for_cr :: "ImageRegistry \<Rightarrow> ImageRegistry option \<Rightarrow> PersistentVolumeClaim \<Rightarrow> PersistentVolumeClaim" where
  "claim_for_cr cr owner pvc =
     (let spec = reg_PVC cr;
          accessModes = (if length (AccessModes spec) = 0 then [''ReadWriteMany''] else AccessModes spec);
          pvc = (if owner = None then pvc\<lparr>Labels := selectorLabelsForCR cr, OwnerReferences := []\<rparr> else pvc);
          pvc = (case StorageClassName spec of None \<Rightarrow> pvc | Some c \<Rightarrow> pvc\<lparr>pvc_StorageClassName := Some c\<rparr>) in
      pvc\<lparr>pvc_AccessModes := accessModes, pvc_Resources := Resources spec,
        Annotations := annotate annotationImageRegistry (ToMapValue (NN (Namespace cr) (Name cr)))
          (Annotations pvc)\<rparr>)"

definition reconcilePersistentVolumeClaim ::
  "'s ReconcileImageRegistry \<Rightarrow> ImageRegistry \<Rightarrow> ('s, (go_error option \<times> ImageRegistry) outcome) state" where
  "reconcilePersistentVolumeClaim r cr =
     (let owner = (if DeleteClaim (reg_PVC cr) then Some cr else None) in
      upsert r (up_Claims r) owner (new_Claim (Namespace cr) (pvcNameForCR cr)) (sets (claim_for_cr cr owner)) cr)"

subsection \<open>The pods\<close>

definition httpProbe :: "int \<Rightarrow> string \<Rightarrow> Probe" where
  "httpProbe port path = HTTPProbe path port 3 3"

definition mount :: "string \<Rightarrow> string \<Rightarrow> VolumeMount" where
  "mount n path = \<lparr>vm_Name = n, vm_MountPath = path\<rparr>"

definition tcp_port :: "string \<Rightarrow> int \<Rightarrow> ContainerPort" where
  "tcp_port n p = \<lparr>cp_Name = n, cp_ContainerPort = p, cp_Protocol = ''TCP''\<rparr>"

definition registry_volumes :: "ImageRegistry \<Rightarrow> Volume list" where
  "registry_volumes cr =
     [\<lparr>v_Name = ''images'', v_Source = VolPVC (pvcNameForCR cr) False\<rparr>,
      \<lparr>v_Name = ''tls'', v_Source = VolSecret (tlsSecretNameForCR cr)\<rparr>,
      \<lparr>v_Name = ''registry-auth-token-ca'', v_Source = VolSecret (authCASecretNameForCR cr)\<rparr>] @
     (case AuthConfigMapName cr of
        None \<Rightarrow> []
      | Some n \<Rightarrow> [\<lparr>v_Name = ''auth-config'', v_Source = VolConfigMap n\<rparr>])"

definition auth_volume_mounts :: "ImageRegistry \<Rightarrow> VolumeMount list" where
  "auth_volume_mounts cr =
     mount ''registry-auth-token-ca'' ''/config/auth-cert'' #
     (case AuthConfigMapName cr of None \<Rightarrow> [] | Some _ \<Rightarrow> [mount ''auth-config'' ''/config''])"

definition auth_issuer_name :: "string \<Rightarrow> string" where
  "auth_issuer_name extHostname = ''Docker Registry Auth '' @ extHostname"

definition registry_container :: "'s ReconcileImageRegistry \<Rightarrow> string \<Rightarrow> Container" where
  "registry_container r extHostname =
     (let externalURL = ''https://'' @ extHostname in
      \<lparr>c_Name = ''registry'', c_Image = imageRegistry r, c_ImagePullPolicy = ''IfNotPresent'', c_Args = [],
       c_Ports = [tcp_port ''docker'' internalPortRegistry],
       c_Env = [(''REGISTRY_HTTP_ADDR'', '':'' @ FormatInt internalPortRegistry),
         (''REGISTRY_HTTP_HOST'', externalURL),
         (''REGISTRY_HTTP_RELATIVEURLS'', ''true''),
         (''REGISTRY_STORAGE_DELETE_ENABLED'', ''true''),
         (''REGISTRY_AUTH'', ''token''),
         (''REGISTRY_AUTH_TOKEN_REALM'', externalURL @ ''/auth/token''),
         (''REGISTRY_AUTH_TOKEN_AUTOREDIRECT'', ''true''),
         (''REGISTRY_AUTH_TOKEN_ISSUER'', auth_issuer_name extHostname),
         (''REGISTRY_AUTH_TOKEN_SERVICE'', ''Docker Registry '' @ extHostname),
         (''REGISTRY_AUTH_TOKEN_ROOTCERTBUNDLE'', ''/root/auth-cert/ca.crt'')],
       c_VolumeMounts = [mount ''images'' ''/var/lib/registry'', mount ''registry-auth-token-ca'' ''/root/auth-cert''],
       c_ReadinessProbe = Some (httpProbe internalPortRegistry ''/''),
       c_LivenessProbe = Some (httpProbe internalPortRegistry ''/''),
       c_Limits = [(''cpu'', ''100m''), (''memory'', ''128Mi'')],
       c_Requests = [(''cpu'', ''100m''), (''memory'', ''128Mi'')]\<rparr>)"

definition auth_container :: "'s ReconcileImageRegistry \<Rightarrow> ImageRegistry \<Rightarrow> string \<Rightarrow> Container" where
  "auth_container r cr extHostname =
     \<lparr>c_Name = ''auth'', c_Image = imageAuth r, c_ImagePullPolicy = ''IfNotPresent'', c_Args = [],
      c_Ports = [tcp_port ''auth'' internalPortAuth],
      c_Env = [(''NAMESPACE'', Namespace cr), (''AUTH_SERVER_ADDR'', '':'' @ FormatInt internalPortAuth),
        (''AUTH_TOKEN_ISSUER'', auth_issuer_name extHostname)],
      c_VolumeMounts = auth_volume_mounts cr,
      c_ReadinessProbe = Some (httpProbe internalPortAuth ''/''),
      c_LivenessProbe = Some (httpProbe internalPortAuth ''/''),
      c_Limits = [(''cpu'', ''200m''), (''memory'', ''128Mi'')],
      c_Requests = [(''cpu'', ''100m''), (''memory'', ''64Mi'')]\<rparr>"

definition nginx_container :: "'s ReconcileImageRegistry \<Rightarrow> Container" where
  "nginx_container r =
     \<lparr>c_Name = ''nginx'', c_Image = imageNginx r, c_ImagePullPolicy = ''IfNotPresent'', c_Args = [],
      c_Ports = [tcp_port ''https'' internalPortNginx, tcp_port ''http'' 8080],
      c_Env = [],
      c_VolumeMounts = [mount ''tls'' ''/etc/nginx/tls''],
      c_ReadinessProbe = Some (httpProbe 8080 ''/health''),
      c_LivenessProbe = Some (httpProbe 8080 ''/health''),
      c_Limits = [(''cpu'', ''200m''), (''memory'', ''128Mi'')],
      c_Requests = [(''cpu'', ''100m''), (''memory'', ''64Mi'')]\<rparr>"

definition replicas_for_cr :: "ImageRegistry \<Rightarrow> int" where
  "replicas_for_cr cr = (case reg_Replicas cr of None \<Rightarrow> 1 | Some n \<Rightarrow> n)"

definition updateStatefulSetForCR :: "'s ReconcileImageRegistry \<Rightarrow> ImageRegistry \<Rightarrow> StatefulSet \<Rightarrow> StatefulSet" where
  "updateStatefulSetForCR r cr statefulSet =
     (let extHostname = externalHostnameForCR r cr in
      statefulSet\<lparr>ss_Replicas := Some (replicas_for_cr cr), ss_ServiceName := serviceNameForCR cr,
        ss_UpdateStrategy := ''RollingUpdate'', ss_Selector := selectorLabelsForCR cr,
        ss_TemplateLabels := selectorLabelsForCR cr,
        ss_PodSpec := (ss_PodSpec statefulSet)\<lparr>
          ServiceAccountName := serviceAccountNameForCR cr, RestartPolicy := ''Always'',
          Volumes := registry_volumes cr,
          Containers := [registry_container r extHostname, auth_container r cr extHostname, nginx_container r]\<rparr>\<rparr>)"

subsection \<open>Stateful set\<close>

definition new_StatefulSet :: "string \<Rightarrow> string \<Rightarrow> StatefulSet" where
  "new_StatefulSet ns n = kobject.extend (named ns n)
     (StatefulSet.fields None [] [] None None new_podspec 0 0 0 0)"

text \<open>The replicas that count as updated: none while the set's status is of an older
  generation.\<close>

definition generation_observed :: "StatefulSet \<Rightarrow> bool" where
  "generation_observed sts \<longleftrightarrow> sts_ObservedGeneration sts = Generation sts"

definition updated_replicas :: "StatefulSet \<Rightarrow> int" where
  "updated_replicas sts = (if generation_observed sts then sts_UpdatedReplicas sts else 0)"

definition rollout_complete :: "ImageRegistry \<Rightarrow> StatefulSet \<Rightarrow> bool" where
  "rollout_complete cr sts \<longleftrightarrow> generation_observed sts \<and>
     map_get (Annotations sts) annotationImageRegistryGeneration = FormatInt (Generation cr) \<and>
     (\<exists>n. ss_Replicas sts = Some n \<and> n = replicas_for_cr cr) \<and>
     sts_Replicas sts = replicas_for_cr cr \<and> sts_ReadyReplicas sts = replicas_for_cr cr \<and>
     updated_replicas sts = replicas_for_cr cr"

definition ready_condition :: "ImageRegistry \<Rightarrow> StatefulSet \<Rightarrow> Condition" where
  "ready_condition cr sts =
     (if rollout_complete cr sts then mk_condition ConditionReady ConditionTrue [] []
      else mk_condition ConditionReady ConditionFalse ReasonUpdating
        (FormatInt (updated_replicas sts) @ ''/'' @ FormatInt (replicas_for_cr cr) @ '' pods updating''))"

definition modify_stateful_set :: "'s ReconcileImageRegistry \<Rightarrow> (StatefulSet, 's) modification" where
  "modify_stateful_set r statefulSet cr =
     (let sts = updateStatefulSetForCR r cr statefulSet in do {
     sc \<leftarrow> SetCondition (reg_lib r) (ready_condition cr sts) (reg_Conditions cr);
     ret (None,
       sts\<lparr>Annotations := annotate annotationStatefulSetExternalName (externalHostnameForCR r cr)
         (annotate annotationImageRegistryGeneration (FormatInt (Generation cr)) (Annotations sts))\<rparr>,
       cr\<lparr>reg_Conditions := fst sc\<rparr>)
     })"

definition reconcileStatefulSet ::
  "'s ReconcileImageRegistry \<Rightarrow> ImageRegistry \<Rightarrow> ('s, (go_error option \<times> ImageRegistry) outcome) state" where
  "reconcileStatefulSet r cr =
     upsert r (up_StatefulSets r) (Some cr) (new_StatefulSet (Namespace cr) (Name cr)) (modify_stateful_set r) cr"

subsection \<open>Reconcile\<close>

type_synonym 's reconcileTask = "ImageRegistry \<Rightarrow> ('s, (go_error option \<times> ImageRegistry) outcome) state"

definition reconcileTasks :: "'s ReconcileImageRegistry \<Rightarrow> 's reconcileTask list" where
  "reconcileTasks r = [reconcileTokenCert r, reconcileTLSCert r, reconcileServiceAccount r, reconcileRole r,
     reconcileRoleBinding r, reconcileService r, reconcileStatefulSet r, reconcilePersistentVolumeClaim r]"

text \<open>The loop over the tasks, until one fails.\<close>

fun run_tasks :: "'s reconcileTask list \<Rightarrow> ImageRegistry \<Rightarrow> ('s, (go_error option \<times> ImageRegistry) outcome) state" where
  "run_tasks [] cr = ret (Returned (None, cr))"
| "run_tasks (task # tasks) cr = do {
     t \<leftarrow> task cr;
     case t of
       Panicked p \<Rightarrow> ret (Panicked p)
     | Returned q \<Rightarrow> (case fst q of
         Some err \<Rightarrow> ret (Returned (Some err, snd q))
       | None \<Rightarrow> run_tasks tasks (snd q))
   }"

text \<open>The loop that sets the new conditions in the old ones.\<close>

fun merge_conditions :: "'s kube_lib \<Rightarrow> Condition list \<Rightarrow> Conditions \<Rightarrow> bool \<Rightarrow> ('s, Conditions \<times> bool) state" where
  "merge_conditions lib [] conditions changed = ret (conditions, changed)"
| "merge_conditions lib (c # cs) conditions changed = do {
     sc \<leftarrow> SetCondition lib c conditions;
     merge_conditions lib cs (fst sc) (if snd sc then True else changed)
   }"

definition sync_conditions :: "'s ReconcileImageRegistry \<Rightarrow> go_error option \<Rightarrow> Conditions \<Rightarrow> ('s, Conditions) state" where
  "sync_conditions r err cs = (case err of
     None \<Rightarrow> do {
       sc \<leftarrow> SetCondition (reg_lib r) (mk_condition ConditionSynced ConditionTrue [] []) cs;
       ret (fst sc)
     }
   | Some e \<Rightarrow> do {
       sc \<leftarrow> SetCondition (reg_lib r) (mk_condition ConditionSynced ConditionFalse [] (Error e)) cs;
       sc \<leftarrow> SetCondition (reg_lib r) (mk_condition ConditionReady ConditionFalse ReasonFailedSync []) (fst sc);
       ret (fst sc)
     })"

definition update_status ::
  "'s ReconcileImageRegistry \<Rightarrow> Conditions \<Rightarrow> ImageRegistry \<Rightarrow> go_error option \<Rightarrow> ('s, go_error option) state" where
  "update_status r conditions cr err = do {
     new \<leftarrow> sync_conditions r err (reg_Conditions cr);
     m \<leftarrow> merge_conditions (reg_lib r) (condition_order r new) conditions False;
     (let hostname = externalHostnameForCR r cr; tlsSecretName = tlsSecretNameForCR cr;
          cr = cr\<lparr>reg_Conditions := fst m\<rparr> in
      if snd m \<or> reg_ObservedGeneration cr \<noteq> Generation cr \<or> Hostname cr \<noteq> hostname \<or>
         TLSSecretName cr \<noteq> tlsSecretName
      then do {
        u \<leftarrow> StatusUpdate (reg_crs r) (cr\<lparr>reg_ObservedGeneration := Generation cr, Hostname := hostname,
          TLSSecretName := tlsSecretName\<rparr>);
        ret (case fst u of Some e \<Rightarrow> if err = None then Some e else err | None \<Rightarrow> err)
      }
      else ret err)
   }"

definition Reconcile :: "'s ReconcileImageRegistry \<Rightarrow> NamespacedName \<Rightarrow> ('s, reconciled outcome) state" where
  "Reconcile r request = do {
     g \<leftarrow> Get (reg_crs r) request;
     case g of
       Inl err \<Rightarrow> if IsNotFound err then ret (Returned (no_requeue, None)) else ret (Returned (no_requeue, Some err))
     | Inr instance0 \<Rightarrow> do {
         t \<leftarrow> run_tasks (reconcileTasks r) (instance0\<lparr>reg_Conditions := Map.empty\<rparr>);
         case t of
           Panicked p \<Rightarrow> ret (Panicked p)
         | Returned q \<Rightarrow> do {
             e \<leftarrow> update_status r (reg_Conditions instance0) (snd q) (fst q);
             ret (Returned (no_requeue, e))
           }
       }
   }"

end
