(* ===== verification/OwnerRefs.thy ===== *)
theory OwnerRefs
  imports Kube
begin

text \<open>
  \<open>pkg/backrefs/ownerrefs.go\<close>: the strategy that keeps back references as owner
  references, and the interface \<open>BackReferenceStrategy\<close> it implements. Both functions
  change the object \<open>from\<close> in place and report whether they did; both panic when the two
  objects are in different namespaces or when the owner has no kind.
\<close>

subsection \<open>The code\<close>

definition ref_equal :: "OwnerReference \<Rightarrow> 'b kobject_scheme \<Rightarrow> bool" where
  "ref_equal ref o' \<longleftrightarrow>
     or_Name ref = Name o' \<and> or_Kind ref = Kind o' \<and> or_APIVersion ref = APIVersion o'"

definition namespace_panic :: string where
  "namespace_panic = ''owner references across namespaces are not supported''"

definition kind_panic :: string where
  "kind_panic = ''ref.kind is empty - did you fetch it before passing it to Add/DelReference?''"

text \<open>The loop calls \<open>equal\<close>, which checks the kind, on every reference it looks at.\<close>

definition DelReference ::
  "'a kobject_scheme \<Rightarrow> 'b kobject_scheme \<Rightarrow> (bool \<times> 'a kobject_scheme) outcome" where
  "DelReference from to =
     (if Namespace from \<noteq> Namespace to then Panicked namespace_panic
      else if OwnerReferences from \<noteq> [] \<and> Kind to = [] then Panicked kind_panic
      else if list_ex (\<lambda>ref. ref_equal ref to) (OwnerReferences from)
      then Returned (True, from\<lparr>OwnerReferences :=
             remove_first (\<lambda>ref. ref_equal ref to) (OwnerReferences from)\<rparr>)
      else Returned (False, from))"

definition owner_ref :: "'b kobject_scheme \<Rightarrow> OwnerReference" where
  "owner_ref to = \<lparr>or_APIVersion = APIVersion to, or_Kind = Kind to, or_Name = Name to,
     or_UID = UID to, or_Controller = Some False, or_BlockOwnerDeletion = Some False\<rparr>"

definition AddReference ::
  "'a kobject_scheme \<Rightarrow> 'b kobject_scheme \<Rightarrow> (bool \<times> 'a kobject_scheme) outcome" where
  "AddReference from to =
     (if Namespace from \<noteq> Namespace to then Panicked namespace_panic
      else if list_ex (\<lambda>ref. or_UID ref = UID to) (OwnerReferences from)
      then Returned (False, from)
      else case DelReference from to of
        Panicked p \<Rightarrow> Panicked p
      | Returned (_, from') \<Rightarrow>
          if Kind to = [] then Panicked kind_panic
          else Returned (True, from'\<lparr>OwnerReferences := OwnerReferences from' @ [owner_ref to]\<rparr>))"

subsection \<open>References of an object\<close>

text \<open>
  An object refers to an owner when one of its references has the owner's UID. The
  references are consistent for an owner when at most one of them has the owner's
  identity (name, kind, API version), and one with the owner's UID has that identity: what
  the API server guarantees, since a UID belongs to one object for ever.
\<close>

definition refers_to :: "'a kobject_scheme \<Rightarrow> 'b kobject_scheme \<Rightarrow> bool" where
  "refers_to from to \<longleftrightarrow> (\<exists>r \<in> set (OwnerReferences from). or_UID r = UID to)"

definition refs_consistent :: "'a kobject_scheme \<Rightarrow> 'b kobject_scheme \<Rightarrow> bool" where
  "refs_consistent from to \<longleftrightarrow>
     Namespace from = Namespace to \<and> Kind to \<noteq> [] \<and>
     length (filter (\<lambda>r. ref_equal r to) (OwnerReferences from)) \<le> 1 \<and>
     (\<forall>r \<in> set (OwnerReferences from). or_UID r = UID to \<longrightarrow> ref_equal r to)"

lemma filter_remove_first:
  "filter p (remove_first p xs) = tl (filter p xs)"
  by (induction xs) auto

lemma remove_first_all:
  "length (filter p xs) \<le> 1 \<Longrightarrow> x \<in> set (remove_first p xs) \<Longrightarrow> \<not> p x"
proof -
  assume "length (filter p xs) \<le> 1" and x: "x \<in> set (remove_first p xs)"
  then have "filter p (remove_first p xs) = []"
    by (simp add: filter_remove_first) (metis One_nat_def diff_is_0_eq length_0_conv length_tl)
  with x show ?thesis by (auto simp: filter_empty_conv)
qed

lemma ref_equal_owner_ref [simp]: "ref_equal (owner_ref to) to"
  by (simp add: ref_equal_def owner_ref_def)

lemma owner_ref_UID [simp]: "or_UID (owner_ref to) = UID to"
  by (simp add: owner_ref_def)

lemma DelReference_consistent:
  assumes "refs_consistent from to"
  obtains b from' where "DelReference from to = Returned (b, from')"
    and "from' = from\<lparr>OwnerReferences :=
      remove_first (\<lambda>ref. ref_equal ref to) (OwnerReferences from)\<rparr>"
    and "b \<longleftrightarrow> (\<exists>r \<in> set (OwnerReferences from). ref_equal r to)"
  using assms by (auto simp: DelReference_def refs_consistent_def list_ex_iff
      remove_first_none split: if_splits)

lemma AddReference_consistent:
  assumes "refs_consistent from to"
  shows "AddReference from to =
    (if refers_to from to then Returned (False, from)
     else Returned (True, from\<lparr>OwnerReferences :=
       remove_first (\<lambda>ref. ref_equal ref to) (OwnerReferences from) @ [owner_ref to]\<rparr>))"
proof -
  obtain b from' where "DelReference from to = Returned (b, from')"
    and "from' = from\<lparr>OwnerReferences :=
      remove_first (\<lambda>ref. ref_equal ref to) (OwnerReferences from)\<rparr>"
    by (rule DelReference_consistent [OF assms])
  then show ?thesis
    using assms by (simp add: AddReference_def refs_consistent_def refers_to_def list_ex_iff)
qed

text \<open>
  Adding and removing owner references panics only for objects of different namespaces
  or an owner without a kind: in the same namespace and with a kind, both functions return.
\<close>

theorem ownerrefs_panic_free:
  assumes "Namespace from = Namespace to" and "Kind to \<noteq> []"
  shows "(\<exists>b from'. AddReference from to = Returned (b, from')) \<and>
    (\<exists>b from'. DelReference from to = Returned (b, from'))"
  using assms by (auto simp: AddReference_def DelReference_def)

theorem ownerrefs_panic_free_witness:
  "\<exists>b from'. AddReference (new_kobject\<lparr>Namespace := ''n''\<rparr>)
     (new_kobject\<lparr>Namespace := ''n'', Kind := ''K''\<rparr>) = Returned (b, from')"
  by (rule ownerrefs_panic_free [THEN conjunct1]) (simp_all add: new_kobject_def)

subsection \<open>The interface\<close>

text \<open>
  What the handler of back references needs from a strategy. \<open>refs_ok f t\<close> is the
  consistency that the operations assume and keep.
\<close>

locale back_reference_strategy =
  fixes add_reference :: "'a kobject_scheme \<Rightarrow> 'b kobject_scheme \<Rightarrow> (bool \<times> 'a kobject_scheme) outcome"
    and del_reference :: "'a kobject_scheme \<Rightarrow> 'b kobject_scheme \<Rightarrow> (bool \<times> 'a kobject_scheme) outcome"
    and has_reference :: "'a kobject_scheme \<Rightarrow> 'b kobject_scheme \<Rightarrow> bool"
    and refs_ok :: "'a kobject_scheme \<Rightarrow> 'b kobject_scheme \<Rightarrow> bool"
  assumes add_law: "refs_ok f t \<Longrightarrow> \<exists>b f'. add_reference f t = Returned (b, f') \<and>
      has_reference f' t \<and> refs_ok f' t \<and> object_key f' = object_key f \<and>
      (b \<longleftrightarrow> \<not> has_reference f t) \<and> (\<not> b \<longrightarrow> f' = f)"
    and del_law: "refs_ok f t \<Longrightarrow> \<exists>b f'. del_reference f t = Returned (b, f') \<and>
      \<not> has_reference f' t \<and> refs_ok f' t \<and> object_key f' = object_key f \<and>
      (\<not> b \<longrightarrow> f' = f)"
begin

lemma add_cases:
  assumes "refs_ok f t"
  obtains (added) f' where "add_reference f t = Returned (True, f')" "\<not> has_reference f t"
      "has_reference f' t" "refs_ok f' t" "object_key f' = object_key f"
    | (present) "add_reference f t = Returned (False, f)" "has_reference f t"
proof -
  from add_law [OF assms] obtain b f' where a: "add_reference f t = Returned (b, f')"
    "has_reference f' t" "refs_ok f' t" "object_key f' = object_key f"
    "b \<longleftrightarrow> \<not> has_reference f t" "\<not> b \<longrightarrow> f' = f" by blast
  show ?thesis by (cases b) (use a added present in auto)
qed

lemma del_cases:
  assumes "refs_ok f t"
  obtains (removed) f' where "del_reference f t = Returned (True, f')"
      "\<not> has_reference f' t" "refs_ok f' t" "object_key f' = object_key f"
    | (absent) "del_reference f t = Returned (False, f)" "\<not> has_reference f t"
proof -
  from del_law [OF assms] obtain b f' where d: "del_reference f t = Returned (b, f')"
    "\<not> has_reference f' t" "refs_ok f' t" "object_key f' = object_key f"
    "\<not> b \<longrightarrow> f' = f" by blast
  show ?thesis by (cases b) (use d removed absent in auto)
qed

text \<open>Adding twice is adding once; deleting what was added leaves no reference.\<close>

lemma add_twice:
  assumes "refs_ok f t" "add_reference f t = Returned (b, f')"
  shows "add_reference f' t = Returned (False, f')"
  using assms(1)
proof (cases rule: add_cases)
  case (added g)
  then have "f' = g" using assms(2) by simp
  with added add_law [of f' t] show ?thesis by auto
next
  case present
  with assms(2) show ?thesis by simp
qed

lemma del_after_add:
  assumes "refs_ok f t" "add_reference f t = Returned (b, f')" "del_reference f' t = Returned (c, f'')"
  shows "\<not> has_reference f'' t"
  using assms add_law [of f t] del_law [of f' t] by auto

end

lemma remaining_refs:
  assumes "refs_consistent from to"
  defines "rs \<equiv> remove_first (\<lambda>ref. ref_equal ref to) (OwnerReferences from)"
  shows "filter (\<lambda>r. ref_equal r to) rs = []" and "\<forall>r \<in> set rs. or_UID r \<noteq> UID to"
proof -
  have none: "\<forall>r \<in> set rs. \<not> ref_equal r to"
    using assms(1) remove_first_all [of "\<lambda>r. ref_equal r to"]
    unfolding refs_consistent_def rs_def by blast
  then show "filter (\<lambda>r. ref_equal r to) rs = []"
    by (simp add: filter_empty_conv)
  have "set rs \<subseteq> set (OwnerReferences from)"
    unfolding rs_def by (rule set_remove_first)
  with none show "\<forall>r \<in> set rs. or_UID r \<noteq> UID to"
    using assms(1) unfolding refs_consistent_def by blast
qed

lemma refs_consistent_remove:
  assumes "refs_consistent from to"
  defines "from' \<equiv> from\<lparr>OwnerReferences :=
      remove_first (\<lambda>ref. ref_equal ref to) (OwnerReferences from)\<rparr>"
  shows "refs_consistent from' to" and "\<not> refers_to from' to"
  using assms(1) remaining_refs [OF assms(1)]
  by (simp_all add: from'_def refs_consistent_def refers_to_def)

lemma refs_consistent_append:
  assumes "refs_consistent from to"
  defines "from' \<equiv> from\<lparr>OwnerReferences :=
      remove_first (\<lambda>ref. ref_equal ref to) (OwnerReferences from) @ [owner_ref to]\<rparr>"
  shows "refs_consistent from' to" and "refers_to from' to"
  using assms(1) remaining_refs [OF assms(1)]
  by (simp_all add: from'_def refs_consistent_def refers_to_def)

interpretation owner_refs: back_reference_strategy AddReference DelReference refers_to refs_consistent
proof
  fix f :: "'a kobject_scheme" and t :: "'b kobject_scheme"
  assume ok: "refs_consistent f t"
  show "\<exists>b f'. AddReference f t = Returned (b, f') \<and> refers_to f' t \<and> refs_consistent f' t \<and>
      object_key f' = object_key f \<and> (b \<longleftrightarrow> \<not> refers_to f t) \<and> (\<not> b \<longrightarrow> f' = f)"
    using ok AddReference_consistent [OF ok] refs_consistent_append [OF ok]
    by (cases "refers_to f t") auto
  obtain b f' where d: "DelReference f t = Returned (b, f')"
    and f': "f' = f\<lparr>OwnerReferences := remove_first (\<lambda>ref. ref_equal ref t) (OwnerReferences f)\<rparr>"
    and b: "b \<longleftrightarrow> (\<exists>r \<in> set (OwnerReferences f). ref_equal r t)"
    by (rule DelReference_consistent [OF ok])
  have "\<not> b \<longrightarrow> f' = f"
    using b f' by (auto simp: list_ex_iff remove_first_none)
  with d show "\<exists>b f'. DelReference f t = Returned (b, f') \<and> \<not> refers_to f' t \<and>
      refs_consistent f' t \<and> object_key f' = object_key f \<and> (\<not> b \<longrightarrow> f' = f)"
    using refs_consistent_remove [OF ok] unfolding f' by auto
qed

text \<open>
  The owner-reference strategy keeps a set of owners: adding an owner makes the object
  refer to it, replaces a stale reference of an owner with the same identity and an older
  UID, is reported as a change exactly when the object did not refer to the owner before,
  and is idempotent; removing the owner leaves no reference to it.
\<close>

theorem ownerrefs_add_del:
  assumes "refs_consistent from to"
    and "AddReference from to = Returned (b, from')"
    and "DelReference from' to = Returned (c, from'')"
  shows "refers_to from' to \<and> (b \<longleftrightarrow> \<not> refers_to from to) \<and>
    length (filter (\<lambda>r. ref_equal r to) (OwnerReferences from')) \<le> 1 \<and>
    AddReference from' to = Returned (False, from') \<and> \<not> refers_to from'' to"
proof (intro conjI)
  show "refers_to from' to" and "b \<longleftrightarrow> \<not> refers_to from to"
    and "length (filter (\<lambda>r. ref_equal r to) (OwnerReferences from')) \<le> 1"
    using owner_refs.add_law [OF assms(1)] assms(2) by (auto simp: refs_consistent_def)
  show "AddReference from' to = Returned (False, from')"
    using assms(1,2) by (rule owner_refs.add_twice)
  show "\<not> refers_to from'' to"
    using assms by (rule owner_refs.del_after_add)
qed

theorem ownerrefs_add_del_witness:
  defines "to \<equiv> new_kobject\<lparr>Namespace := ''n'', Kind := ''K'', Name := ''x'', UID := ''2''\<rparr>"
  defines "from \<equiv> new_kobject\<lparr>Namespace := ''n'', OwnerReferences := [(owner_ref to)\<lparr>or_UID := ''1''\<rparr>]\<rparr>"
  shows "refers_to (from\<lparr>OwnerReferences := [owner_ref to]\<rparr>) to"
proof (rule ownerrefs_add_del [THEN conjunct1])
  show "refs_consistent from to"
    by (simp add: from_def to_def refs_consistent_def new_kobject_def owner_ref_def)
  show "AddReference from to = Returned (True, from\<lparr>OwnerReferences := [owner_ref to]\<rparr>)"
    by (simp add: from_def to_def AddReference_def DelReference_def new_kobject_def owner_ref_def
        ref_equal_def)
  show "DelReference (from\<lparr>OwnerReferences := [owner_ref to]\<rparr>) to =
      Returned (True, from\<lparr>OwnerReferences := []\<rparr>)"
    by (simp add: from_def to_def DelReference_def new_kobject_def owner_ref_def ref_equal_def)
qed

end
