(* ===== verification/RefHandler.thy ===== *)
theory RefHandler
  imports OwnerRefs Store
begin

text \<open>
  \<open>pkg/backrefs/refhandler.go\<close>: an owner lists in its status the objects it refers to and
  every such object carries a back reference to the owner. \<open>UpdateReferences\<close> moves both
  to a new list of objects. The strategy and the owner's two status functions are
  interfaces in the code and parameters here (\<open>ref_env\<close>).
\<close>

subsection \<open>The code\<close>

text \<open>
  \<open>re_type\<close> is Go's \<open>%T\<close> of an object. \<open>'r\<close> is the type of the referenced objects and \<open>'w\<close>
  the owner's; the functions return the objects as the API calls left them.
\<close>

record ('r, 'w, 's) ref_env =
  re_refs :: "('r, 's) client"
  re_owners :: "('w, 's) client"
  re_add :: "'r \<Rightarrow> 'w \<Rightarrow> (bool \<times> 'r) outcome"
  re_del :: "'r \<Rightarrow> 'w \<Rightarrow> (bool \<times> 'r) outcome"
  re_get_status :: "'w \<Rightarrow> 'r list"
  re_set_status :: "'r list \<Rightarrow> 'w \<Rightarrow> 'w"
  re_key :: "'r \<Rightarrow> NamespacedName"
  re_type :: "'r \<Rightarrow> string"

definition refKey :: "('r, 'w, 's) ref_env \<Rightarrow> 'r \<Rightarrow> string" where
  "refKey env ref =
     re_type env ref @ '':'' @ nn_namespace (re_key env ref) @ ''/'' @ nn_name (re_key env ref)"

definition refKeys :: "('r, 'w, 's) ref_env \<Rightarrow> 'r list \<Rightarrow> string set" where
  "refKeys env refs = set (map (refKey env) refs)"

definition diffRefs :: "('r, 'w, 's) ref_env \<Rightarrow> 'r list \<Rightarrow> 'r list \<Rightarrow> 'r list \<times> 'r list" where
  "diffRefs env oldRefs newRefs =
     (filter (\<lambda>r. refKey env r \<notin> refKeys env newRefs) oldRefs,
      filter (\<lambda>r. refKey env r \<notin> refKeys env oldRefs) newRefs)"

fun deleteOldRefs ::
  "('r, 'w, 's) ref_env \<Rightarrow> 'w \<Rightarrow> 'r list \<Rightarrow> ('s, go_error option outcome) state" where
  "deleteOldRefs env owner [] = ret (Returned None)"
| "deleteOldRefs env owner (ref # rest) = do {
     g \<leftarrow> Get (re_refs env) (re_key env ref);
     case g of
       Inl err \<Rightarrow>
         if IsNotFound err then deleteOldRefs env owner rest else ret (Returned (Some err))
     | Inr ref' \<Rightarrow>
         (case re_del env ref' owner of
            Panicked p \<Rightarrow> ret (Panicked p)
          | Returned r \<Rightarrow>
              if fst r then do {
                u \<leftarrow> Update (re_refs env) (snd r);
                case fst u of
                  Some err \<Rightarrow>
                    if IsNotFound err then deleteOldRefs env owner rest
                    else ret (Returned (Some err))
                | None \<Rightarrow> deleteOldRefs env owner rest
              }
              else deleteOldRefs env owner rest)
   }"

fun addNewRefs ::
  "('r, 'w, 's) ref_env \<Rightarrow> 'w \<Rightarrow> 'r list \<Rightarrow> ('s, (go_error option \<times> 'r list) outcome) state" where
  "addNewRefs env owner [] = ret (Returned (None, []))"
| "addNewRefs env owner (ref # rest) =
     (case re_add env ref owner of
        Panicked p \<Rightarrow> ret (Panicked p)
      | Returned r \<Rightarrow> do {
          u \<leftarrow> (if fst r then Update (re_refs env) (snd r) else ret (None, snd r));
          case fst u of
            Some err \<Rightarrow> ret (Returned (Some err, snd u # rest))
          | None \<Rightarrow> do {
              more \<leftarrow> addNewRefs env owner rest;
              case more of
                Panicked p \<Rightarrow> ret (Panicked p)
              | Returned m \<Rightarrow> ret (Returned (fst m, snd u # snd m))
            }
        })"

definition UpdateReferences ::
  "('r, 'w, 's) ref_env \<Rightarrow> 'w \<Rightarrow> 'r list \<Rightarrow> ('s, (go_error option \<times> 'w \<times> 'r list) outcome) state" where
  "UpdateReferences env owner refs =
     (let lastRefs = re_get_status env owner;
          (delRefs, addRefs) = diffRefs env lastRefs refs in do {
        d \<leftarrow> deleteOldRefs env owner delRefs;
        case d of
          Panicked p \<Rightarrow> ret (Panicked p)
        | Returned (Some err) \<Rightarrow> ret (Returned (Some err, owner, refs))
        | Returned None \<Rightarrow> do {
            st \<leftarrow> (if delRefs \<noteq> [] \<or> addRefs \<noteq> []
                   then StatusUpdate (re_owners env) (re_set_status env refs owner)
                   else ret (None, owner));
            case fst st of
              Some err \<Rightarrow> ret (Returned (Some err, snd st, refs))
            | None \<Rightarrow> do {
                a \<leftarrow> addNewRefs env (snd st) refs;
                case a of
                  Panicked p \<Rightarrow> ret (Panicked p)
                | Returned r \<Rightarrow> ret (Returned (fst r, snd st, snd r))
              }
          }
      })"

lemma wp_case_outcome_option [simp]:
  "wp (case x of Panicked p \<Rightarrow> g p | Returned (Some e) \<Rightarrow> f e | Returned None \<Rightarrow> h) Q s =
   (case x of Panicked p \<Rightarrow> wp (g p) Q s | Returned (Some e) \<Rightarrow> wp (f e) Q s
      | Returned None \<Rightarrow> wp h Q s)"
  by (simp split: outcome.split option.split)

subsection \<open>The calls it makes, against any server\<close>

datatype ('r, 'w) ref_event =
    RefCall "'r call" "go_error option"
  | OwnerCall "'w call" "go_error option"

definition recorded_ref_env :: "('r, 'w, 's) ref_env \<Rightarrow> ('r, 'w, 's \<times> ('r, 'w) ref_event list) ref_env" where
  "recorded_ref_env env = \<lparr>
     re_refs = recorded_client RefCall (re_refs env),
     re_owners = recorded_client OwnerCall (re_owners env),
     re_add = re_add env, re_del = re_del env,
     re_get_status = re_get_status env, re_set_status = re_set_status env,
     re_key = re_key env, re_type = re_type env\<rparr>"

lemma recorded_ref_env_simps [simp]:
  "re_refs (recorded_ref_env env) = recorded_client RefCall (re_refs env)"
  "re_owners (recorded_ref_env env) = recorded_client OwnerCall (re_owners env)"
  "re_add (recorded_ref_env env) = re_add env" "re_del (recorded_ref_env env) = re_del env"
  "re_get_status (recorded_ref_env env) = re_get_status env"
  "re_set_status (recorded_ref_env env) = re_set_status env"
  "re_key (recorded_ref_env env) = re_key env" "re_type (recorded_ref_env env) = re_type env"
  "refKey (recorded_ref_env env) = refKey env" "refKeys (recorded_ref_env env) = refKeys env"
  "diffRefs (recorded_ref_env env) = diffRefs env"
  by (simp_all add: recorded_ref_env_def refKey_def refKeys_def diffRefs_def fun_eq_iff)

text \<open>The calls of the phase that deletes, and of the phase that adds.\<close>

fun deletes_reference :: "('r, 'w, 's) ref_env \<Rightarrow> 'w \<Rightarrow> 'r list \<Rightarrow> ('r, 'w) ref_event \<Rightarrow> bool" where
  "deletes_reference env owner refs (RefCall (CGet k) _) = (k \<in> re_key env ` set refs)"
| "deletes_reference env owner refs (RefCall (CUpdate ref') _) =
     (\<exists>ref. re_del env ref owner = Returned (True, ref'))"
| "deletes_reference env owner refs _ = False"

fun adds_reference :: "('r, 'w, 's) ref_env \<Rightarrow> 'w \<Rightarrow> 'r list \<Rightarrow> ('r, 'w) ref_event \<Rightarrow> bool" where
  "adds_reference env owner refs (RefCall (CUpdate ref') _) =
     (\<exists>ref \<in> set refs. re_add env ref owner = Returned (True, ref'))"
| "adds_reference env owner refs _ = False"

lemma deletes_reference_mono:
  assumes "list_all (deletes_reference env owner refs) l" and "set refs \<subseteq> set refs'"
  shows "list_all (deletes_reference env owner refs') l"
proof -
  have "deletes_reference env owner refs e \<Longrightarrow> deletes_reference env owner refs' e" for e
    using assms(2) by (cases "(env, owner, refs, e)" rule: deletes_reference.cases) auto
  then show ?thesis using assms(1) by (simp add: list_all_iff)
qed

lemma adds_reference_mono:
  assumes "list_all (adds_reference env owner refs) l" and "set refs \<subseteq> set refs'"
  shows "list_all (adds_reference env owner refs') l"
proof -
  have "adds_reference env owner refs e \<Longrightarrow> adds_reference env owner refs' e" for e
    using assms(2) by (cases "(env, owner, refs, e)" rule: adds_reference.cases) auto
  then show ?thesis using assms(1) by (simp add: list_all_iff)
qed

lemma deleteOldRefs_calls:
  assumes "\<And>r s' l1. list_all (deletes_reference env owner refs) l1 \<Longrightarrow> Q r (s', l @ l1)"
  shows "wp (deleteOldRefs (recorded_ref_env env) owner refs) Q (s, l)"
  using assms
proof (induction refs arbitrary: s l)
  case Nil
  have "Q (Returned None) (s, l @ [])" by (rule Nil) simp
  then show ?case by simp
next
  case (Cons ref refs)
  have stop: "Q r (s', l @ l1)" if "list_all (deletes_reference env owner (ref # refs)) l1" for r s' l1
    using that by (rule Cons.prems)
  have rec: "wp (deleteOldRefs (recorded_ref_env env) owner refs) Q (s', l @ l0)"
    if "list_all (deletes_reference env owner (ref # refs)) l0" for s' l0
  proof (rule Cons.IH)
    fix r s'' l1
    assume "list_all (deletes_reference env owner refs) l1"
    then have "list_all (deletes_reference env owner (ref # refs)) l1"
      by (rule deletes_reference_mono) auto
    with that stop [of "l0 @ l1"] show "Q r (s'', (l @ l0) @ l1)" by simp
  qed
  have get: "list_all (deletes_reference env owner (ref # refs)) [RefCall (CGet (re_key env ref)) e]" for e
    by simp
  have upd: "list_all (deletes_reference env owner (ref # refs))
      [RefCall (CGet (re_key env ref)) e, RefCall (CUpdate (snd b)) e']"
    if "re_del env a owner = Returned b" "fst b" for a b e e'
    using that by (cases b) auto
  show ?case
    using rec [OF get] stop [OF get] rec [OF upd] stop [OF upd]
    by (auto intro!: wp_rules split: sum.split outcome.split option.split)
qed

lemma addNewRefs_calls:
  assumes "\<And>r s' l1. list_all (adds_reference env owner refs) l1 \<Longrightarrow> Q r (s', l @ l1)"
  shows "wp (addNewRefs (recorded_ref_env env) owner refs) Q (s, l)"
  using assms
proof (induction refs arbitrary: s l Q)
  case Nil
  have "Q (Returned (None, [])) (s, l @ [])" by (rule Nil) simp
  then show ?case by simp
next
  case (Cons ref refs)
  have stop: "Q r (s', l @ l1)" if "list_all (adds_reference env owner (ref # refs)) l1" for r s' l1
    using that by (rule Cons.prems)
  have rec: "wp (addNewRefs (recorded_ref_env env) owner refs)
      (\<lambda>m. wp (case m of Panicked p \<Rightarrow> ret (Panicked p) | Returned m \<Rightarrow> ret (Returned (fst m, x # snd m))) Q)
      (s', l @ l0)"
    if "list_all (adds_reference env owner (ref # refs)) l0" for s' l0 x
  proof (rule Cons.IH)
    fix r s'' l1
    assume "list_all (adds_reference env owner refs) l1"
    then have "list_all (adds_reference env owner (ref # refs)) l1"
      by (rule adds_reference_mono) auto
    with that stop [of "l0 @ l1"]
    show "wp (case r of Panicked p \<Rightarrow> ret (Panicked p) | Returned m \<Rightarrow> ret (Returned (fst m, x # snd m)))
        Q (s'', (l @ l0) @ l1)"
      by (simp split: outcome.split)
  qed
  have upd: "list_all (adds_reference env owner (ref # refs)) [RefCall (CUpdate (snd b)) e]"
    if "re_add env ref owner = Returned b" "fst b" for b e
    using that by (cases b) auto
  show ?case
    using rec [of "[]"] stop [of "[]"] rec [OF upd] stop [OF upd]
    by (auto intro!: wp_rules split: sum.split outcome.split option.split)
qed

definition calls_in_order ::
  "('r, 'w, 's) ref_env \<Rightarrow> 'w \<Rightarrow> 'r list \<Rightarrow> ('r, 'w) ref_event list \<Rightarrow> bool" where
  "calls_in_order env owner refs l \<longleftrightarrow> (\<exists>dels adds owner'.
     list_all (deletes_reference env owner (re_get_status env owner)) dels \<and>
     list_all (adds_reference env owner' refs) adds \<and>
     (if refKeys env (re_get_status env owner) = refKeys env refs then l = adds
      else l = dels \<or>
        (\<exists>e. l = dels @ OwnerCall (CStatus (re_set_status env refs owner)) e # adds \<and>
           (e \<noteq> None \<longrightarrow> adds = []))))"

lemma calls_in_order_same:
  assumes "refKeys env (re_get_status env owner) = refKeys env refs"
    and "list_all (adds_reference env owner' refs) l"
  shows "calls_in_order env owner refs l"
  unfolding calls_in_order_def
  by (rule exI [of _ "[]"], rule exI [of _ l], rule exI [of _ owner']) (use assms in simp)

lemma calls_in_order_changed:
  assumes "refKeys env (re_get_status env owner) \<noteq> refKeys env refs"
    and "list_all (deletes_reference env owner (re_get_status env owner)) dels"
  shows "calls_in_order env owner refs dels"
    and "list_all (adds_reference env owner' refs) adds \<Longrightarrow> (e \<noteq> None \<longrightarrow> adds = []) \<Longrightarrow>
      calls_in_order env owner refs
        (dels @ OwnerCall (CStatus (re_set_status env refs owner)) e # adds)"
  unfolding calls_in_order_def
  by (rule exI [of _ dels], rule exI [of _ "[]"], use assms in simp)
    (rule exI [of _ dels], rule exI [of _ adds], rule exI [of _ owner'], use assms in auto)

text \<open> C26. Back references are only written after the owner's status lists them. In a run of
  \<open>UpdateReferences\<close> against any server, whatever it answers, the calls come in this order:
  reads and back-reference removals of objects that the status listed before, then one
  update that stores the new list in the owner's status, then updates that add the owner's
  back reference to an object of the new list. When the lists name the same objects, only
  the last phase runs; when the status update fails, nothing follows it. \<close>

theorem update_references_order:
  "wp (UpdateReferences (recorded_ref_env env) owner refs)
     (\<lambda>r (s', l). calls_in_order env owner refs l) (s, [])"
proof -
  let ?last = "re_get_status env owner"
  let ?del = "filter (\<lambda>r. refKey env r \<notin> refKeys env refs) ?last"
  let ?add = "filter (\<lambda>r. refKey env r \<notin> refKeys env ?last) refs"
  let ?done = "\<lambda>o' a. case a of Panicked p \<Rightarrow> ret (Panicked p)
      | Returned r \<Rightarrow> ret (Returned (fst r, o', snd r))"
  let ?Q = "\<lambda>r (s', l). calls_in_order env owner refs l"
  show ?thesis
  proof (cases "refKeys env ?last = refKeys env refs")
    case True
    then have none: "?del = []" "?add = []" by (auto simp: refKeys_def filter_empty_conv)
    have "wp (addNewRefs (recorded_ref_env env) owner refs) (\<lambda>a. wp (?done owner a) ?Q) (s, [])"
      by (rule addNewRefs_calls) (auto intro: calls_in_order_same [OF True] split: outcome.split)
    then show ?thesis by (simp add: UpdateReferences_def diffRefs_def none)
  next
    case False
    then have some: "?del \<noteq> [] \<or> ?add \<noteq> []" by (auto simp: refKeys_def filter_empty_conv)
    have del: "list_all (deletes_reference env owner ?last) dels"
      if "list_all (deletes_reference env owner ?del) dels" for dels
      using that by (rule deletes_reference_mono) auto
    have add: "wp (addNewRefs (recorded_ref_env env) o' refs) (\<lambda>a. wp (?done o' a) ?Q)
        (s', dels @ [OwnerCall (CStatus (re_set_status env refs owner)) None])"
      if "list_all (deletes_reference env owner ?del) dels" for o' s' dels
      by (rule addNewRefs_calls)
        (auto intro: calls_in_order_changed(2) [OF False del [OF that]] split: outcome.split)
    have stop: "calls_in_order env owner refs dels"
      "calls_in_order env owner refs (dels @ [OwnerCall (CStatus (re_set_status env refs owner)) e])"
      if "list_all (deletes_reference env owner ?del) dels" for dels e
      using calls_in_order_changed(1) [OF False del [OF that]]
        calls_in_order_changed(2) [OF False del [OF that], of _ "[]" e] by simp_all
    show ?thesis
      using some add stop
      by (auto simp: UpdateReferences_def diffRefs_def intro!: deleteOldRefs_calls wp_rules
          split: outcome.split option.split)
  qed
qed

subsection \<open>What it achieves, against a server that answers\<close>

locale referenced_objects =
  object_store "re_refs env" stored consistent +
  back_reference_strategy "re_add env" "re_del env" has_reference refs_ok
  for env :: "('a kobject_scheme, 'b kobject_scheme, 's) ref_env"
    and stored :: "'s \<Rightarrow> NamespacedName \<rightharpoonup> 'a kobject_scheme" and consistent :: "'s \<Rightarrow> bool"
    and has_reference :: "'a kobject_scheme \<Rightarrow> 'b kobject_scheme \<Rightarrow> bool"
    and refs_ok :: "'a kobject_scheme \<Rightarrow> 'b kobject_scheme \<Rightarrow> bool" +
  fixes owner_key :: NamespacedName and key_ok :: "NamespacedName \<Rightarrow> bool"
  assumes key_law: "re_key env = object_key"
    and refKey_inj: "key_ok (object_key x) \<Longrightarrow> key_ok (object_key y) \<Longrightarrow>
      refKey env x = refKey env y \<longleftrightarrow> object_key x = object_key y"
    and status_identity: "has_reference x (re_set_status env rs w) = has_reference x w"
      "refs_ok x (re_set_status env rs w) = refs_ok x w"
      "object_key (re_set_status env rs w) = object_key w"
    and status_update: "consistent s \<Longrightarrow> object_key w = owner_key \<Longrightarrow>
      \<exists>s'. run_state (StatusUpdate (re_owners env) w) s = ((None, w), s') \<and>
        stored s' = stored s \<and> consistent s'"
begin

definition fine :: "'b kobject_scheme \<Rightarrow> 's \<Rightarrow> bool" where
  "fine w s \<longleftrightarrow> consistent s \<and> object_key w = owner_key \<and> (\<forall>k x. key_ok k \<longrightarrow> stored s k = Some x \<longrightarrow> refs_ok x w)"

text \<open>The keys of the objects that refer to the owner.\<close>

definition referring :: "'b kobject_scheme \<Rightarrow> 's \<Rightarrow> NamespacedName set" where
  "referring w s = {k. \<exists>x. stored s k = Some x \<and> has_reference x w}"

lemma fine_upd:
  "fine w s \<Longrightarrow> refs_ok x w \<Longrightarrow> stored s' = (stored s)(object_key x \<mapsto> x) \<Longrightarrow> consistent s' \<Longrightarrow> fine w s'"
  by (auto simp: fine_def)

lemma deleteOldRefs_removes:
  "fine w s \<Longrightarrow> \<forall>x \<in> set refs. key_ok (object_key x) \<Longrightarrow> wp (deleteOldRefs env w refs) (\<lambda>r s'. r = Returned None \<and> fine w s' \<and>
     referring w s' = referring w s - object_key ` set refs \<and>
     (\<forall>k. k \<notin> object_key ` set refs \<longrightarrow> stored s' k = stored s k)) s"
proof (induction refs arbitrary: s)
  case Nil
  then show ?case by simp
next
  case (Cons ref refs)
  let ?post = "\<lambda>r s'. r = Returned None \<and> fine w s' \<and>
     referring w s' = referring w s - object_key ` set (ref # refs) \<and>
     (\<forall>k. k \<notin> object_key ` set (ref # refs) \<longrightarrow> stored s' k = stored s k)"
  have rec: "wp (deleteOldRefs env w refs) ?post s0"
    if "fine w s0" "referring w s0 = referring w s - {object_key ref}"
      "\<forall>k. k \<noteq> object_key ref \<longrightarrow> stored s0 k = stored s k" for s0
    by (rule wp_mono [OF Cons.IH [OF that(1)]]) (use that(2,3) Cons.prems in auto)
  have here: "wp (deleteOldRefs env w refs) ?post s" if "object_key ref \<notin> referring w s"
    by (rule rec) (use that Cons.prems in auto)
  show ?case
  proof (cases "stored s (object_key ref)")
    case None
    then obtain e where e: "IsNotFound e" and g: "run_state (Get (re_refs env) (object_key ref)) s = (Inl e, s)"
      using get_missing by blast
    have "object_key ref \<notin> referring w s" using None by (simp add: referring_def)
    from here [OF this] show ?thesis using e by (simp add: key_law wp_run [OF g])
  next
    case (Some x)
    note g = get_found [OF Some]
    have kx: "object_key x = object_key ref" and ok: "refs_ok x w"
      using Some Cons.prems stored_key by (auto simp: fine_def)
    from ok show ?thesis
    proof (cases rule: del_cases)
      case (removed y)
      then have ky: "object_key y = object_key ref" using kx by simp
      obtain s' where u: "run_state (Update (re_refs env) y) s = ((None, y), s')"
        "stored s' = (stored s)(object_key y \<mapsto> y)" "consistent s'"
        using update_found [of s y x] Some Cons.prems ky by (auto simp: fine_def)
      have "wp (deleteOldRefs env w refs) ?post s'"
        by (rule rec) (use removed u ky fine_upd [OF Cons.prems(1) _ u(2,3)] in \<open>auto simp: referring_def split: if_splits\<close>)
      then show ?thesis using removed by (simp add: key_law wp_run [OF g] wp_run [OF u(1)])
    next
      case absent
      then have "object_key ref \<notin> referring w s" using Some by (simp add: referring_def)
      from here [OF this] show ?thesis using absent by (simp add: key_law wp_run [OF g])
    qed
  qed
qed

lemma addNewRefs_adds:
  "fine w s \<Longrightarrow> distinct (map object_key refs) \<Longrightarrow> \<forall>x \<in> set refs. key_ok (object_key x) \<Longrightarrow>
   \<forall>x \<in> set refs. stored s (object_key x) = Some x \<Longrightarrow>
   wp (addNewRefs env w refs) (\<lambda>r s'. \<exists>rs. r = Returned (None, rs) \<and> fine w s' \<and>
     referring w s' = referring w s \<union> object_key ` set refs \<and>
     list_all2 (\<lambda>x y. \<exists>b. re_add env x w = Returned (b, y)) refs rs) s"
proof (induction refs arbitrary: s)
  case Nil
  then show ?case by simp
next
  case (Cons ref refs)
  have st: "stored s (object_key ref) = Some ref" and ok: "refs_ok ref w"
    using Cons.prems by (auto simp: fine_def)
  have rec: "wp (addNewRefs env w refs) (\<lambda>r s'. \<exists>rs. r = Returned (None, rs) \<and> fine w s' \<and>
      referring w s' = insert (object_key ref) (referring w s) \<union> object_key ` set refs \<and>
      list_all2 (\<lambda>x y. \<exists>b. re_add env x w = Returned (b, y)) refs rs) s0"
    if "fine w s0" "referring w s0 = insert (object_key ref) (referring w s)"
      "\<forall>x \<in> set refs. stored s0 (object_key x) = Some x" for s0
    by (rule wp_mono [OF Cons.IH [OF that(1) _ _ that(3)]]) (use Cons.prems(2,3) that(2) in auto)
  from ok show ?case
  proof (cases rule: add_cases)
    case (added y)
    then obtain s' where u: "run_state (Update (re_refs env) y) s = ((None, y), s')"
      "stored s' = (stored s)(object_key y \<mapsto> y)" "consistent s'"
      using update_found [of s y ref] st Cons.prems(1) by (auto simp: fine_def)
    have others: "\<forall>x \<in> set refs. stored s' (object_key x) = Some x"
      using Cons.prems(2,4) u(2) added by (auto simp: image_iff)
    have "referring w s' = insert (object_key ref) (referring w s)"
      using u(2) added by (auto simp: referring_def split: if_splits)
    note more = rec [OF fine_upd [OF Cons.prems(1) added(4) u(2,3)] this others]
    show ?thesis
      using added by (simp add: wp_run [OF u(1)], intro wp_mono [OF more]) auto
  next
    case present
    then have "referring w s = insert (object_key ref) (referring w s)"
      using st by (auto simp: referring_def)
    from rec [OF Cons.prems(1) this] Cons.prems(4)
    have r: "wp (addNewRefs env w refs) (\<lambda>r s'. \<exists>rs. r = Returned (None, rs) \<and> fine w s' \<and>
      referring w s' = insert (object_key ref) (referring w s) \<union> object_key ` set refs \<and>
      list_all2 (\<lambda>x y. \<exists>b. re_add env x w = Returned (b, y)) refs rs) s" by simp
    show ?thesis using present by (simp, intro wp_mono [OF r]) auto
  qed
qed

text \<open>
  What an undisturbed run achieves: of the objects that referred to the owner, those that
  its status listed no longer do, and those of the new list do.
\<close>

lemma update_references:
  assumes "fine w s" "distinct (map object_key refs)"
    and "\<forall>x \<in> set refs. stored s (object_key x) = Some x"
    and "\<forall>x \<in> set (re_get_status env w) \<union> set refs. key_ok (object_key x)"
  shows "wp (UpdateReferences env w refs) (\<lambda>r s'. \<exists>w' rs. r = Returned (None, w', rs) \<and>
      referring w s' = referring w s - object_key ` set (re_get_status env w) \<union> object_key ` set refs \<and>
      fine w s' \<and> list_all2 (\<lambda>x y. \<exists>b. re_add env x w' = Returned (b, y)) refs rs \<and>
      w' = (if refKeys env (re_get_status env w) = refKeys env refs then w else re_set_status env refs w)) s"
proof -
  let ?last = "re_get_status env w"
  let ?del = "filter (\<lambda>r. refKey env r \<notin> refKeys env refs) ?last"
  let ?add = "filter (\<lambda>r. refKey env r \<notin> refKeys env ?last) refs"
  have keys: "refKey env r \<in> refKeys env refs \<longleftrightarrow> object_key r \<in> object_key ` set refs" if "r \<in> set ?last" for r
    using assms(4) that by (auto simp: refKeys_def refKey_inj image_iff)
  have del: "set ?del = {r \<in> set ?last. object_key r \<notin> object_key ` set refs}"
    using keys by auto
  have kept: "x \<in> set refs \<Longrightarrow> object_key x \<notin> object_key ` set ?del" for x
    unfolding del by (force simp: image_iff)
  have gone: "referring w s - object_key ` set ?del \<union> object_key ` set refs =
      referring w s - object_key ` set ?last \<union> object_key ` set refs"
    unfolding del by auto
  have fine': "fine (re_set_status env rs w) s' \<longleftrightarrow> fine w s'"
    "referring (re_set_status env rs w) s' = referring w s'" for rs s'
    by (simp_all add: fine_def referring_def status_identity)
  show ?thesis
    unfolding UpdateReferences_def Let_def diffRefs_def prod.case wp_bind
  proof (rule wp_mono [OF deleteOldRefs_removes [OF assms(1)]], goal_cases)
    case 1
    then show ?case using assms(4) by auto
  next
    case (2 r s')
    then have r: "r = Returned None" and f: "fine w s'"
      and ref: "referring w s' \<union> object_key ` set refs = referring w s - object_key ` set ?last \<union> object_key ` set refs"
      and st: "\<forall>x \<in> set refs. stored s' (object_key x) = Some x"
      using gone kept assms(3) by auto
    let ?R = "referring w s - object_key ` set ?last \<union> object_key ` set refs"
    have add: "wp (addNewRefs env w' refs) (\<lambda>r s''. \<exists>rs. r = Returned (None, rs) \<and>
        referring w s'' = ?R \<and> fine w s'' \<and> list_all2 (\<lambda>x y. \<exists>b. re_add env x w' = Returned (b, y)) refs rs) s0"
      if "fine w s0" "referring w s0 = referring w s'" "w' = w \<or> w' = re_set_status env refs w"
        "stored s0 = stored s'" for w' s0
    proof (rule wp_mono [OF addNewRefs_adds [OF _ assms(2)]])
      show "\<forall>x \<in> set refs. key_ok (object_key x)" using assms(4) by simp
      show "fine w' s0" using that(1,3) fine' by auto
      show "\<forall>x \<in> set refs. stored s0 (object_key x) = Some x" using st that(4) by simp
    qed (use that(2,3) fine' ref in auto)
    have same: "?del = [] \<and> ?add = [] \<longleftrightarrow> refKeys env ?last = refKeys env refs"
      by (auto simp: filter_empty_conv refKeys_def)
    show ?case
    proof (cases "refKeys env ?last = refKeys env refs")
      case True
      with same show ?thesis
        using r by (auto intro: wp_mono [OF add [OF f]])
    next
      case False
      obtain s'' where u: "run_state (StatusUpdate (re_owners env) (re_set_status env refs w)) s' =
          ((None, re_set_status env refs w), s'')" "stored s'' = stored s'" "consistent s''"
        using status_update [of s' "re_set_status env refs w"] f by (auto simp: fine_def status_identity)
      have "fine w s''" "referring w s'' = referring w s'"
        using u f by (auto simp: fine_def referring_def)
      with False same u(2) show ?thesis
        using r by (auto simp: wp_run [OF u(1)] simp del: filter_empty_conv intro: wp_mono [OF add])
    qed
  qed
qed

end

end
