(* ===== verification/BuildEnvReconciler.thy ===== *)
theory BuildEnvReconciler
  imports ApiTypes Merge RegistriesConf PasswordGen RefHandler
begin

text \<open>
  \<open>pkg/controller/imagebuildenv\<close>: the controller behind \<open>ImageBuildEnv\<close>. It merges the
  credentials of the listed input secrets into one secret, which it owns, optionally with a
  Redis pod, service and password, and keeps an owner reference in every input secret, so
  that a change of an input is seen. The code is in this theory, its theorems are in
  \<open>BuildEnvMerge\<close>, \<open>BuildEnvRefs\<close> and \<open>BuildEnvStatus\<close>.
\<close>

subsection \<open>Configuration\<close>

definition redisPort :: int where "redisPort = 6379"
definition redisPortName :: string where "redisPortName = ''redis''"
definition secretKeyConfigJson :: string where "secretKeyConfigJson = ''config.json''"
definition finalizer :: string where "finalizer = ''registry.mgoltzsche.github.com/inputrefs''"

text \<open>The reconciler; its client is split by kind.\<close>

record 's ReconcileImageBuildEnv =
  env_crs :: "(ImageBuildEnv, 's) client"
  env_secrets :: "(Secret, 's) client"
  env_pods :: "(Pod, 's) client"
  up_env_Secrets :: "(Secret, 's) upserter"
  up_env_Services :: "(Service, 's) upserter"
  env_lib :: "'s kube_lib"
  env_codecs :: codecs
  env_random :: "'s random"

subsection \<open>The owner of the input references\<close>

text \<open>\<open>inputstatusrefs.go\<close>: the objects a build environment refers to are the secrets its
  status names.\<close>

definition GetStatusReferences :: "ImageBuildEnv \<Rightarrow> Secret list" where
  "GetStatusReferences cr = map (new_secret (Namespace cr)) (SecretRefs cr)"

definition SetStatusReferences :: "Secret list \<Rightarrow> ImageBuildEnv \<Rightarrow> ImageBuildEnv" where
  "SetStatusReferences refs cr = cr\<lparr>SecretRefs := map Name refs\<rparr>"

text \<open>\<open>backrefs.NewBackReferencesHandler(client, backrefs.OwnerReferences())\<close>, as the
  controller uses it: for secrets and a build environment.\<close>

definition secretRefs :: "'s ReconcileImageBuildEnv \<Rightarrow> (Secret, ImageBuildEnv, 's) ref_env" where
  "secretRefs r = \<lparr>re_refs = env_secrets r, re_owners = env_crs r,
     re_add = AddReference, re_del = DelReference,
     re_get_status = GetStatusReferences, re_set_status = SetStatusReferences,
     re_key = object_key, re_type = (\<lambda>_. ''*v1.Secret'')\<rparr>"

subsection \<open>Names\<close>

definition redisNameForCR :: "ImageBuildEnv \<Rightarrow> string" where
  "redisNameForCR cr = ''imagebuildenv-'' @ Name cr @ ''-redis''"

definition redisLabelsForCR :: "ImageBuildEnv \<Rightarrow> strmap" where
  "redisLabelsForCR cr = Some [''app'' \<mapsto> redisNameForCR cr]"

definition redisSecretName :: "ImageBuildEnv \<Rightarrow> string" where
  "redisSecretName cr = redisNameForCR cr @ ''-conf''"

definition mergedSecretName :: "ImageBuildEnv \<Rightarrow> string" where
  "mergedSecretName cr = ''imagebuildenv-'' @ Name cr @ ''-conf''"

subsection \<open>Input secrets\<close>

text \<open>\<open>loadInputSecretsForCR\<close> stops at the first secret that it cannot read.\<close>

fun load_secrets :: "'s ReconcileImageBuildEnv \<Rightarrow> string \<Rightarrow> string list \<Rightarrow> ('s, Secret list result) state" where
  "load_secrets r ns [] = ret (Inr [])"
| "load_secrets r ns (n # names) = do {
     g \<leftarrow> Get (env_secrets r) (NN ns n);
     case g of
       Inl err \<Rightarrow> ret (Inl err)
     | Inr secret \<Rightarrow> do {
         more \<leftarrow> load_secrets r ns names;
         ret (map_sum id ((#) secret) more)
       }
   }"

definition loadInputSecretsForCR ::
  "'s ReconcileImageBuildEnv \<Rightarrow> ImageBuildEnv \<Rightarrow> ('s, Secret list result) state" where
  "loadInputSecretsForCR r cr = load_secrets r (Namespace cr) (env_Secrets cr)"

text \<open>\<open>%q\<close> puts the key into quotes.\<close>

definition quoted :: "string \<Rightarrow> string" where
  "quoted s = quote # s @ [quote]"

definition no_key :: "string \<Rightarrow> string \<Rightarrow> go_error" where
  "no_key n k = ErrOther (''secret '' @ n @ '' does not specify key '' @ quoted k)"

definition dockerConfigFromSecret :: "codecs \<Rightarrow> Secret \<Rightarrow> DockerConfig result" where
  "dockerConfigFromSecret cd secret =
     (if Data secret = None
      then Inl (ErrOther (''secret '' @ Name secret @ '' does not specify data''))
      else if SecretType secret = SecretTypeDockerConfigJson then
        (let configJson = map_get (Data secret) DockerConfigJsonKey in
         if length configJson = 0 then Inl (no_key (Name secret) DockerConfigJsonKey)
         else ParseDockerConfig cd configJson)
      else if SecretType secret = SecretTypeOpaque then
        (let configJson = map_get (Data secret) secretKeyConfigJson in
         if length configJson = 0 then Inl (no_key (Name secret) secretKeyConfigJson)
         else ParseDockerConfig cd configJson)
      else Inl (ErrOther (''secret '' @ Name secret @ '' has unsupported type '' @ SecretType secret @
        '', expected '' @ SecretTypeDockerConfigJson @ '' or '' @ SecretTypeOpaque)))"

text \<open>\<open>mergeSecretData\<close>: the inner loop visits the entries of one input, the outer loop the
  inputs; both fill the two configurations.\<close>

fun merge_auths ::
  "string \<Rightarrow> (string \<times> string) list \<Rightarrow> (string \<times> string) list \<times> MakisuRegistries
     \<Rightarrow> ((string \<times> string) list \<times> MakisuRegistries) result" where
  "merge_auths n [] acc = Inr acc"
| "merge_auths n ((k, v) # es) acc =
     (case ToMakisuBasicAuth v of
        Inl e \<Rightarrow> Inl (ErrWrap (''secret '' @ n @ '' basic auth: '') e)
      | Inr auth \<Rightarrow>
          merge_auths n es (AList.update k v (fst acc), AddRegistry k ''.*'' auth (snd acc)))"

fun merge_inputs ::
  "codecs \<Rightarrow> Secret list \<Rightarrow> (string \<times> string) list \<times> MakisuRegistries
     \<Rightarrow> ((string \<times> string) list \<times> MakisuRegistries) result" where
  "merge_inputs cd [] acc = Inr acc"
| "merge_inputs cd (secret # secrets) acc =
     (case dockerConfigFromSecret cd secret of
        Inl err \<Rightarrow> Inl (ErrWrap (''secret '' @ Name secret @ '': '') err)
      | Inr inputConf \<Rightarrow>
          (case Auths inputConf of
             None \<Rightarrow> merge_inputs cd secrets acc
           | Some es \<Rightarrow>
               (case merge_auths (Name secret) es acc of
                  Inl err \<Rightarrow> Inl err
                | Inr acc' \<Rightarrow> merge_inputs cd secrets acc')))"

definition mergeSecretData :: "codecs \<Rightarrow> Secret list \<Rightarrow> (string \<rightharpoonup> string) result outcome" where
  "mergeSecretData cd secrets =
     (case merge_inputs cd secrets ([], Map.empty) of
        Inl err \<Rightarrow> Returned (Inl err)
      | Inr (dockerAuths, makisuConf) \<Rightarrow>
          (let data = (case secrets of
                 [] \<Rightarrow> Map.empty
               | s # _ \<Rightarrow> (case Data s of None \<Rightarrow> Map.empty | Some m \<Rightarrow> m));
               data = data(DockerConfigJsonKey \<mapsto> JSON \<lparr>Auths = Some dockerAuths\<rparr>) in
           case YAML cd makisuConf of
             Panicked p \<Rightarrow> Panicked p
           | Returned y \<Rightarrow> Returned (Inr (data(SecretKeyMakisuYAML \<mapsto> y)))))"

subsection \<open>Redis\<close>

text \<open>The callback sets the secret's data and the variable \<open>password\<close>.\<close>

definition redis_callback ::
  "'s ReconcileImageBuildEnv \<Rightarrow> Secret \<Rightarrow> string \<Rightarrow> ('s, (go_error option \<times> Secret \<times> string) outcome) state" where
  "redis_callback r secret _ = do {
     p \<leftarrow> (if Data secret \<noteq> None \<and> length (map_get (Data secret) ''redis_password'') > 0
          then ret (Returned (map_get (Data secret) SecretKeyRedisPassword))
          else GeneratePassword (env_random r));
     case p of
       Panicked m \<Rightarrow> ret (Panicked m)
     | Returned password \<Rightarrow>
         ret (Returned (None, secret\<lparr>Data := Some [SecretKeyRedisPassword \<mapsto> password,
           ''redis.conf'' \<mapsto> ''requirepass '' @ password]\<rparr>, password))
   }"

definition upsertRedisSecretForCR ::
  "'s ReconcileImageBuildEnv \<Rightarrow> ImageBuildEnv \<Rightarrow> ('s, (go_error option \<times> string) outcome) state" where
  "upsertRedisSecretForCR r cr =
     (let secret = (new_secret (Namespace cr) (redisSecretName cr))\<lparr>SecretType := SecretTypeOpaque\<rparr> in
      case SetControllerReference (env_lib r) (kobject.truncate cr) (kobject.truncate secret) of
        Inl err \<Rightarrow> ret (Returned (Some err, []))
      | Inr refs \<Rightarrow> do {
          u \<leftarrow> CreateOrUpdate (up_env_Secrets r) (secret\<lparr>OwnerReferences := refs\<rparr>) (redis_callback r) [];
          case u of
            Panicked p \<Rightarrow> ret (Panicked p)
          | Returned (_, err, _, password) \<Rightarrow> ret (Returned (err, password))
        })"

definition isPodReady :: "Pod \<Rightarrow> bool" where
  "isPodReady pod = list_ex (\<lambda>c. fst c = ''Ready'' \<and> snd c = ConditionTrue) (pod_Conditions pod)"

definition redis_container :: Container where
  "redis_container = \<lparr>c_Name = ''redis'', c_Image = ''redis:6-alpine'', c_ImagePullPolicy = ''IfNotPresent'',
     c_Args = [''redis-server'', ''/conf/redis.conf''],
     c_Ports = [\<lparr>cp_Name = redisPortName, cp_ContainerPort = redisPort, cp_Protocol = ''TCP''\<rparr>],
     c_Env = [(''MASTER'', ''true'')],
     c_VolumeMounts = [\<lparr>vm_Name = ''redis-conf'', vm_MountPath = ''/conf''\<rparr>],
     c_ReadinessProbe = Some (TCPProbe redisPort 3 3), c_LivenessProbe = Some (TCPProbe redisPort 5 30),
     c_Limits = [], c_Requests = []\<rparr>"

definition redis_pod :: "ImageBuildEnv \<Rightarrow> Pod" where
  "redis_pod cr =
     (let pod = (new_Pod (Namespace cr) (redisNameForCR cr))\<lparr>Labels := redisLabelsForCR cr\<rparr> in
      pod\<lparr>pod_Spec := AddContainer redis_container
        (AddVolume \<lparr>v_Name = ''redis-conf'', v_Source = VolSecret (Name pod @ ''-conf'')\<rparr> (pod_Spec pod))\<rparr>)"

text \<open>A pod that could not be read is the empty one, which is not ready.\<close>

definition createRedisPodForCR ::
  "'s ReconcileImageBuildEnv \<Rightarrow> ImageBuildEnv \<Rightarrow> ('s, bool \<times> go_error option) state" where
  "createRedisPodForCR r cr = do {
     g \<leftarrow> Get (env_pods r) (NN (Namespace cr) (redisNameForCR cr));
     case g of
       Inr pod \<Rightarrow> ret (isPodReady pod, None)
     | Inl err \<Rightarrow>
         if \<not> IsNotFound err then ret (False, Some err)
         else (case SetControllerReference (env_lib r) (kobject.truncate cr) (kobject.truncate (redis_pod cr)) of
            Inl err \<Rightarrow> ret (False, Some err)
          | Inr refs \<Rightarrow> do {
              c \<leftarrow> Create (env_pods r) ((redis_pod cr)\<lparr>OwnerReferences := refs\<rparr>);
              ret (False, fst c)
            })
   }"

definition redis_service_callback ::
  "'s ReconcileImageBuildEnv \<Rightarrow> ImageBuildEnv \<Rightarrow> Service \<Rightarrow> unit
     \<Rightarrow> ('s, (go_error option \<times> Service \<times> unit) outcome) state" where
  "redis_service_callback r cr svc x =
     (let svc = AddServicePort redisPortName redisPort redisPort ''TCP''
            (svc\<lparr>svc_Selector := redisLabelsForCR cr, svc_Type := ''ClusterIP''\<rparr>) in
      case SetControllerReference (env_lib r) (kobject.truncate cr) (kobject.truncate svc) of
        Inl err \<Rightarrow> ret (Returned (Some err, svc, x))
      | Inr refs \<Rightarrow> ret (Returned (None, svc\<lparr>OwnerReferences := refs\<rparr>, x)))"

definition upsertRedisServiceForCR ::
  "'s ReconcileImageBuildEnv \<Rightarrow> ImageBuildEnv \<Rightarrow> ('s, go_error option outcome) state" where
  "upsertRedisServiceForCR r cr = do {
     u \<leftarrow> CreateOrUpdate (up_env_Services r) (new_Service (Namespace cr) (redisNameForCR cr))
       (redis_service_callback r cr) ();
     case u of
       Panicked p \<Rightarrow> ret (Panicked p)
     | Returned (_, err, _) \<Rightarrow> ret (Returned err)
   }"

text \<open>\<open>configureRedis\<close> also fills in \<open>data\<close>, which is returned.\<close>

definition configureRedis ::
  "'s ReconcileImageBuildEnv \<Rightarrow> ImageBuildEnv \<Rightarrow> (string \<rightharpoonup> string)
     \<Rightarrow> ('s, (bool \<times> go_error option \<times> (string \<rightharpoonup> string)) outcome) state" where
  "configureRedis r cr data =
     (if env_Redis cr then do {
        s \<leftarrow> upsertRedisSecretForCR r cr;
        case s of
          Panicked p \<Rightarrow> ret (Panicked p)
        | Returned (Some err, _) \<Rightarrow> ret (Returned (False, Some err, data))
        | Returned (None, password) \<Rightarrow>
            (let data = data(SecretKeyRedis \<mapsto> redisNameForCR cr @ '':'' @ FormatInt redisPort,
                   SecretKeyRedisPassword \<mapsto> password) in do {
             p \<leftarrow> createRedisPodForCR r cr;
             case p of
               (ready, Some err) \<Rightarrow> ret (Returned (ready, Some err, data))
             | (ready, None) \<Rightarrow> do {
                 v \<leftarrow> upsertRedisServiceForCR r cr;
                 case v of
                   Panicked m \<Rightarrow> ret (Panicked m)
                 | Returned err \<Rightarrow> ret (Returned (ready, err, data))
               }
             })
      }
      else ret (Returned (True, None, data)))"

subsection \<open>Output\<close>

definition updateStatus ::
  "'s ReconcileImageBuildEnv \<Rightarrow> ImageBuildEnv \<Rightarrow> ConditionStatus \<Rightarrow> string \<Rightarrow> string
     \<Rightarrow> ('s, go_error option) state" where
  "updateStatus r cr ready reason msg = do {
     c \<leftarrow> SetCondition (env_lib r) (mk_condition ConditionReady ready reason msg) (env_Conditions cr);
     (if snd c then do {
        u \<leftarrow> StatusUpdate (env_crs r) (cr\<lparr>env_Conditions := fst c\<rparr>);
        ret (fst u)
      }
      else ret None)
   }"

definition merged_callback ::
  "(string \<rightharpoonup> string) \<Rightarrow> Secret \<Rightarrow> unit \<Rightarrow> ('s, (go_error option \<times> Secret \<times> unit) outcome) state" where
  "merged_callback data secret x = ret (Returned (None, secret\<lparr>Data := Some data\<rparr>, x))"

definition upsertMergedSecretForCR ::
  "'s ReconcileImageBuildEnv \<Rightarrow> ImageBuildEnv \<Rightarrow> (string \<rightharpoonup> string) \<Rightarrow> ('s, go_error option outcome) state" where
  "upsertMergedSecretForCR r cr data =
     (let mergedSecret = (new_secret (Namespace cr) (mergedSecretName cr))\<lparr>SecretType := SecretTypeOpaque\<rparr> in
      case SetControllerReference (env_lib r) (kobject.truncate cr) (kobject.truncate mergedSecret) of
        Inl err \<Rightarrow> ret (Returned (Some err))
      | Inr refs \<Rightarrow> do {
          u \<leftarrow> CreateOrUpdate (up_env_Secrets r) (mergedSecret\<lparr>OwnerReferences := refs\<rparr>)
            (merged_callback data) ();
          case u of
            Panicked p \<Rightarrow> ret (Panicked p)
          | Returned (_, err, _) \<Rightarrow> ret (Returned err)
        })"

subsection \<open>Reconcile\<close>

definition finalize_env ::
  "'s ReconcileImageBuildEnv \<Rightarrow> ImageBuildEnv \<Rightarrow> ('s, reconciled outcome) state" where
  "finalize_env r instance0 =
     (if HasFinalizer instance0 finalizer then do {
        u \<leftarrow> UpdateReferences (secretRefs r) instance0 [];
        case u of
          Panicked p \<Rightarrow> ret (Panicked p)
        | Returned (Some err, _) \<Rightarrow> ret (Returned (no_requeue, Some err))
        | Returned (None, cr, _) \<Rightarrow> do {
            w \<leftarrow> Update (env_crs r) (cr\<lparr>Finalizers := RemoveFinalizer (env_lib r) finalizer (Finalizers cr)\<rparr>);
            ret (Returned (no_requeue, fst w))
          }
      }
      else ret (Returned (no_requeue, None)))"

definition add_env_finalizer ::
  "'s ReconcileImageBuildEnv \<Rightarrow> ImageBuildEnv \<Rightarrow> ('s, reconciled outcome) state" where
  "add_env_finalizer r cr = do {
     w \<leftarrow> Update (env_crs r) (cr\<lparr>Finalizers := AddFinalizer (env_lib r) finalizer (Finalizers cr)\<rparr>);
     case fst w of
       Some err \<Rightarrow> do {
         _ \<leftarrow> updateStatus r (snd w) ConditionFalse ReasonFailedUpdate (Error err);
         ret (Returned (no_requeue, Some err))
       }
     | None \<Rightarrow> ret (Returned (no_requeue, None))
   }"

text \<open>The steps after the references are in place.\<close>

definition publish ::
  "'s ReconcileImageBuildEnv \<Rightarrow> ImageBuildEnv \<Rightarrow> (string \<rightharpoonup> string) \<Rightarrow> ('s, reconciled outcome) state" where
  "publish r cr data = do {
     k \<leftarrow> configureRedis r cr data;
     case k of
       Panicked p \<Rightarrow> ret (Panicked p)
     | Returned (ready, e, data) \<Rightarrow>
         if e = None \<and> \<not> ready then do {
           err \<leftarrow> updateStatus r cr ConditionFalse ReasonPending ''waiting for redis to become ready'';
           ret (Returned (no_requeue, err))
         }
         else do {
           m \<leftarrow> (if e = None then upsertMergedSecretForCR r cr data else ret (Returned e));
           case m of
             Panicked p \<Rightarrow> ret (Panicked p)
           | Returned (Some err) \<Rightarrow> do {
               e \<leftarrow> updateStatus r cr ConditionFalse ReasonFailedUpdate (Error err);
               ret (Returned (no_requeue, e))
             }
           | Returned None \<Rightarrow> do {
               e \<leftarrow> updateStatus r cr ConditionTrue [] [];
               ret (Returned (no_requeue, e))
             }
         }
   }"

definition merge_and_publish ::
  "'s ReconcileImageBuildEnv \<Rightarrow> ImageBuildEnv \<Rightarrow> Secret list \<Rightarrow> ('s, reconciled outcome) state" where
  "merge_and_publish r cr secrets =
     (case mergeSecretData (env_codecs r) secrets of
        Panicked p \<Rightarrow> ret (Panicked p)
      | Returned (Inl err) \<Rightarrow> do {
          e \<leftarrow> updateStatus r cr ConditionFalse ReasonInvalidSecret (Error err);
          ret (Returned (no_requeue, e))
        }
      | Returned (Inr data) \<Rightarrow> publish r cr data)"

definition update_and_publish ::
  "'s ReconcileImageBuildEnv \<Rightarrow> ImageBuildEnv \<Rightarrow> Secret list \<Rightarrow> ('s, reconciled outcome) state" where
  "update_and_publish r instance0 secrets = do {
     u \<leftarrow> UpdateReferences (secretRefs r) instance0 secrets;
     case u of
       Panicked p \<Rightarrow> ret (Panicked p)
     | Returned (Some err, cr, _) \<Rightarrow> do {
         e \<leftarrow> updateStatus r cr ConditionFalse ReasonFailedUpdate (Error err);
         ret (Returned (no_requeue, e))
       }
     | Returned (None, cr, secrets) \<Rightarrow> merge_and_publish r cr secrets
   }"

definition sync_env ::
  "'s ReconcileImageBuildEnv \<Rightarrow> ImageBuildEnv \<Rightarrow> ('s, reconciled outcome) state" where
  "sync_env r instance0 = do {
     l \<leftarrow> loadInputSecretsForCR r instance0;
     case l of
       Inl err \<Rightarrow> do {
         e \<leftarrow> updateStatus r instance0 ConditionFalse ReasonMissingSecret (Error err);
         ret (Returned (Result (30 * Second), e))
       }
     | Inr secrets \<Rightarrow> update_and_publish r instance0 secrets
   }"

definition Reconcile ::
  "'s ReconcileImageBuildEnv \<Rightarrow> NamespacedName \<Rightarrow> ('s, reconciled outcome) state" where
  "Reconcile r request = do {
     g \<leftarrow> Get (env_crs r) request;
     case g of
       Inl err \<Rightarrow>
         if IsNotFound err then ret (Returned (no_requeue, None))
         else ret (Returned (no_requeue, Some err))
     | Inr instance0 \<Rightarrow>
         if \<not> IsZero (DeletionTimestamp instance0) then finalize_env r instance0
         else if \<not> HasFinalizer instance0 finalizer then add_env_finalizer r instance0
         else sync_env r instance0
   }"

end
