(* ===== verification/Controllers.thy ===== *)
theory Controllers
  imports CaRoot RegistryWorkload BuildEnvReconciler AccountController SecretReconciler
begin

text \<open>
  How the operator is put together: \<open>Add\<close> of every package under \<open>pkg/controller\<close>, which
  creates a controller and says which events of which objects it handles, \<open>controller.go\<close>,
  which calls them, and \<open>cmd/manager/main.go\<close>, which does so after it has become the leader.
  The manager of controller-runtime and the libraries that \<open>main\<close> calls are parameters.
\<close>

subsection \<open>Event handlers\<close>

text \<open>
  The handlers of controller-runtime that the code uses: the request names the object of the
  event, its owners of a kind (or only the one that is its controller), or what a function
  of the repository maps the object to. What requests a handler makes is up to the library.
\<close>

datatype handler =
    EnqueueRequestForObject
  | EnqueueRequestForOwner (IsController: bool) (OwnerType: string)
  | EnqueueRequestsFromMapFunc (ToRequests: "kobject \<Rightarrow> NamespacedName list")

type_synonym watch = "string \<times> handler"

text \<open>
  The reconcilers of the controllers. They run in states \<open>'w\<close>, when the manager has been
  started; what is set up before runs in states \<open>'s\<close>.
\<close>

datatype 'w reconciler =
    CaRoot_reconciler "'w ReconcileCARootSecret"
  | BuildEnv_reconciler "'w ReconcileImageBuildEnv"
  | Secret_reconciler "'w ReconcileImageSecret"
  | Registry_reconciler "'w ReconcileImageRegistry"
  | Account_reconciler "'w ReconcileImageRegistryAccount"

text \<open>
  The manager. What a reconciler gets from it and from the libraries (clients, scheme, cache)
  is in the \<open>base\<close> of its kind, which \<open>newReconciler\<close> completes. \<open>m_certs\<close> is the certificate
  manager with a client of its own.
\<close>

record ('s, 'w) manager =
  m_Getenv :: "string \<Rightarrow> string"
  m_GetOperatorNamespace :: "string result"
  m_ParseDuration :: "string \<Rightarrow> duration result"
  m_NewClient :: "('s, go_error option) state"
  m_NewController :: "string \<Rightarrow> 'w reconciler \<Rightarrow> ('s, go_error option) state"
  m_Watch :: "string \<Rightarrow> string \<Rightarrow> handler \<Rightarrow> ('s, go_error option) state"
  m_certs :: "'s CertManager"
  m_caroot_base :: "'w ReconcileCARootSecret"
  m_env_base :: "'w ReconcileImageBuildEnv"
  m_secret_base :: "'w ReconcileImageSecret"
  m_registry_base :: "'w ReconcileImageRegistry"
  m_account_base :: "'w ReconcileImageRegistryAccount"

text \<open>Calls in a sequence of which each is made when the one before has succeeded, and the
  watches of a controller.\<close>

definition and_then :: "('s, go_error option) state \<Rightarrow> ('s, go_error option) state \<Rightarrow> ('s, go_error option) state" where
  "and_then m m' = do {
     err \<leftarrow> m;
     case err of Some e \<Rightarrow> ret (Some e) | None \<Rightarrow> m'
   }"

fun watch_all :: "('s, 'w) manager \<Rightarrow> string \<Rightarrow> watch list \<Rightarrow> ('s, go_error option) state" where
  "watch_all mgr c [] = ret None"
| "watch_all mgr c ((kind, h) # ws) = and_then (m_Watch mgr c kind h) (watch_all mgr c ws)"

subsection \<open>The controllers\<close>

definition imagebuildenv_watches :: "watch list" where
  "imagebuildenv_watches = [
     (''ImageBuildEnv'', EnqueueRequestForObject),
     (''Pod'', EnqueueRequestForOwner True ''ImageBuildEnv''),
     (''Service'', EnqueueRequestForOwner True ''ImageBuildEnv''),
     (''Secret'', EnqueueRequestForOwner False ''ImageBuildEnv'')]"

definition imagebuildenv_Add :: "('s, 'w) manager \<Rightarrow> ('s, go_error option outcome) state" where
  "imagebuildenv_Add mgr = do {
     err \<leftarrow> and_then (m_NewController mgr ''imagebuildenv-controller'' (BuildEnv_reconciler (m_env_base mgr)))
       (watch_all mgr ''imagebuildenv-controller'' imagebuildenv_watches);
     ret (Returned err)
   }"

definition imageregistry_watches :: "watch list" where
  "imageregistry_watches = [
     (''ImageRegistry'', EnqueueRequestForObject),
     (''StatefulSet'', EnqueueRequestForOwner True ''ImageRegistry''),
     (''Service'', EnqueueRequestForOwner True ''ImageRegistry''),
     (''Secret'', EnqueueRequestForOwner True ''ImageRegistry''),
     (''PersistentVolumeClaim'', EnqueueRequestsFromMapFunc (Map pvcAnnotationToRequest)),
     (''ServiceAccount'', EnqueueRequestForOwner True ''ImageRegistry''),
     (''Role'', EnqueueRequestForOwner True ''ImageRegistry''),
     (''RoleBinding'', EnqueueRequestForOwner True ''ImageRegistry'')]"

definition imageregistry_Add :: "('s, 'w) manager \<Rightarrow> ('s, go_error option outcome) state" where
  "imageregistry_Add mgr =
     (case newReconciler (m_Getenv mgr) (m_GetOperatorNamespace mgr) (m_registry_base mgr) of
        Panicked p \<Rightarrow> ret (Panicked p)
      | Returned r \<Rightarrow> do {
          err \<leftarrow> and_then (m_NewController mgr ''imageregistry-controller'' (Registry_reconciler r))
            (watch_all mgr ''imageregistry-controller'' imageregistry_watches);
          ret (Returned err)
        })"

text \<open>\<open>imagesecret.WatchSecondaryResources\<close>, and the two controllers that use it.\<close>

definition secondary_watches :: "string \<Rightarrow> ReconcileImageSecretConfig \<Rightarrow> watch list" where
  "secondary_watches ownerType c = [
     (''Secret'', EnqueueRequestForOwner True ownerType),
     (''ImageRegistryAccount'', EnqueueRequestForOwner True ownerType),
     (''ImageRegistryAccount'', EnqueueRequestsFromMapFunc (Map (accountToSecret c)))]"

definition WatchSecondaryResources ::
  "('s, 'w) manager \<Rightarrow> string \<Rightarrow> string \<Rightarrow> ReconcileImageSecretConfig \<Rightarrow> ('s, go_error option) state" where
  "WatchSecondaryResources mgr ctrl ownerType c = watch_all mgr ctrl (secondary_watches ownerType c)"

definition imagesecret_Add ::
  "('s, 'w) manager \<Rightarrow> string \<Rightarrow> string \<Rightarrow> ReconcileImageSecretConfig \<Rightarrow> ('s, go_error option outcome) state" where
  "imagesecret_Add mgr ctrl ownerType c =
     (case NewReconciler (m_Getenv mgr) (m_GetOperatorNamespace mgr) (m_ParseDuration mgr) c (m_secret_base mgr) of
        Panicked p \<Rightarrow> ret (Panicked p)
      | Returned r \<Rightarrow> do {
          err \<leftarrow> and_then (m_NewController mgr ctrl (Secret_reconciler r))
            (and_then (m_Watch mgr ctrl ownerType EnqueueRequestForObject)
              (WatchSecondaryResources mgr ctrl ownerType c));
          ret (Returned err)
        })"

definition imagepullsecret_Add :: "('s, 'w) manager \<Rightarrow> ('s, go_error option outcome) state" where
  "imagepullsecret_Add mgr = imagesecret_Add mgr ''imagepullsecret-controller'' ''ImagePullSecret'' pull_config"

definition imagepushsecret_Add :: "('s, 'w) manager \<Rightarrow> ('s, go_error option outcome) state" where
  "imagepushsecret_Add mgr = imagesecret_Add mgr ''imagepushsecret-controller'' ''ImagePushSecret'' push_config"

definition imageregistryaccount_Add :: "('s, 'w) manager \<Rightarrow> ('s, go_error option outcome) state" where
  "imageregistryaccount_Add mgr = do {
     err \<leftarrow> and_then (m_NewController mgr ''imageregistryaccount-controller'' (Account_reconciler (m_account_base mgr)))
       (m_Watch mgr ''imageregistryaccount-controller'' ''ImageRegistryAccount'' EnqueueRequestForObject);
     ret (Returned err)
   }"

text \<open>
  \<open>caroot.Add\<close> makes the root certificate before the manager runs, with a client of its own.
  \<open>newReconciler\<close> and the filter read the name of the root secret again, from the same
  environment.
\<close>

definition caroot_newReconciler ::
  "NamespacedName \<Rightarrow> 'w ReconcileCARootSecret \<Rightarrow> 'w ReconcileCARootSecret" where
  "caroot_newReconciler n base = base\<lparr>certManager := (certManager base)\<lparr>rootCASecretName := n\<rparr>\<rparr>"

definition caroot_Add :: "('s, 'w) manager \<Rightarrow> ('s, go_error option outcome) state" where
  "caroot_Add mgr = do {
     e \<leftarrow> m_NewClient mgr;
     case e of
       Some err \<Rightarrow> ret (Returned (Some err))
     | None \<Rightarrow>
         (case RootCASecretName (m_Getenv mgr) (m_GetOperatorNamespace mgr) of
            Panicked p \<Rightarrow> ret (Panicked p)
          | Returned n \<Rightarrow> do {
              c \<leftarrow> RenewRootCACertSecret ((m_certs mgr)\<lparr>rootCASecretName := n\<rparr>);
              case c of
                Panicked p \<Rightarrow> ret (Panicked p)
              | Returned q \<Rightarrow>
                  (case snd q of
                     Some err \<Rightarrow> ret (Returned (Some err))
                   | None \<Rightarrow> do {
                       err \<leftarrow> and_then (m_NewController mgr ''caroot-controller''
                           (CaRoot_reconciler (caroot_newReconciler n (m_caroot_base mgr))))
                         (m_Watch mgr ''caroot-controller'' ''Secret''
                           (EnqueueRequestsFromMapFunc (\<lambda>o'. secretNameFilter_Map n (Some o'))));
                       ret (Returned err)
                     })
            })
   }"

subsection \<open>All controllers\<close>

text \<open>
  \<open>pkg/controller\<close>: the \<open>init\<close> functions of the files \<open>add_*.go\<close> append to
  \<open>AddToManagerFuncs\<close>, in the order of the files' names.
\<close>

definition AddToManagerFuncs :: "(('s, 'w) manager \<Rightarrow> ('s, go_error option outcome) state) list" where
  "AddToManagerFuncs = [caroot_Add, imagebuildenv_Add, imagepullsecret_Add, imagepushsecret_Add,
     imageregistry_Add, imageregistryaccount_Add]"

fun add_all ::
  "(('s, 'w) manager \<Rightarrow> ('s, go_error option outcome) state) list \<Rightarrow> ('s, 'w) manager \<Rightarrow> ('s, go_error option outcome) state" where
  "add_all [] m = ret (Returned None)"
| "add_all (f # fs) m = do {
     r \<leftarrow> f m;
     case r of
       Panicked p \<Rightarrow> ret (Panicked p)
     | Returned (Some err) \<Rightarrow> ret (Returned (Some err))
     | Returned None \<Rightarrow> add_all fs m
   }"

definition AddToManager :: "('s, 'w) manager \<Rightarrow> ('s, go_error option outcome) state" where
  "AddToManager m = add_all AddToManagerFuncs m"

subsection \<open>The process\<close>

definition metricsHost :: string where "metricsHost = ''0.0.0.0''"
definition metricsPort :: int where "metricsPort = 8383"
definition operatorMetricsPort :: int where "operatorMetricsPort = 8686"

text \<open>
  What \<open>main\<close> calls: the libraries, and the manager that \<open>manager.New\<close> makes for the namespace
  it watches and the address of its metrics. \<open>GetGVKsFromAddToScheme\<close> yields kinds. The
  metrics service is given its ports, whose names are the library's; a service that could
  not be created is \<open>nil\<close>, and passed on.
\<close>

record ('s, 'w) process =
  p_GetWatchNamespace :: "('s, string result) state"
  p_GetConfig :: "('s, go_error option) state"
  p_BecomeLeader :: "string \<Rightarrow> ('s, go_error option) state"
  p_NewManager :: "string \<Rightarrow> string \<Rightarrow> ('s, go_error option) state"
  p_AddAPIs :: "('s, go_error option) state"
  p_AddCertManager :: "('s, go_error option) state"
  p_GetGVKs :: "('s, string list result) state"
  p_GetOperatorNamespace :: "('s, string result) state"
  p_GenerateAndServeCRMetrics :: "string list \<Rightarrow> string list \<Rightarrow> string \<Rightarrow> int \<Rightarrow> ('s, go_error option) state"
  p_CreateMetricsService :: "int list \<Rightarrow> ('s, Service option \<times> go_error option) state"
  p_CreateServiceMonitors :: "string \<Rightarrow> Service option list \<Rightarrow> ('s, go_error option) state"
  p_Start :: "('s, go_error option) state"
  p_manager :: "('s, 'w) manager"

definition serveCRMetrics :: "('s, 'w) process \<Rightarrow> ('s, go_error option) state" where
  "serveCRMetrics pr = do {
     g \<leftarrow> p_GetGVKs pr;
     case g of
       Inl err \<Rightarrow> ret (Some err)
     | Inr filteredGVK \<Rightarrow> do {
         o' \<leftarrow> p_GetOperatorNamespace pr;
         case o' of
           Inl err \<Rightarrow> ret (Some err)
         | Inr operatorNs \<Rightarrow>
             p_GenerateAndServeCRMetrics pr [operatorNs] filteredGVK metricsHost operatorMetricsPort
       }
   }"

text \<open>The part of \<open>main\<close> that serves metrics: its errors are logged only.\<close>

definition serve_metrics :: "('s, 'w) process \<Rightarrow> string \<Rightarrow> ('s, unit) state" where
  "serve_metrics pr namespace = do {
     _ \<leftarrow> serveCRMetrics pr;
     service \<leftarrow> p_CreateMetricsService pr [metricsPort, operatorMetricsPort];
     _ \<leftarrow> p_CreateServiceMonitors pr namespace [fst service];
     ret ()
   }"

text \<open>\<open>main\<close> returns the exit code of the process.\<close>

definition exit_on_error :: "('s, go_error option) state \<Rightarrow> ('s, nat outcome) state \<Rightarrow> ('s, nat outcome) state" where
  "exit_on_error m m' = do {
     err \<leftarrow> m;
     case err of Some _ \<Rightarrow> ret (Returned 1) | None \<Rightarrow> m'
   }"

definition start_manager :: "('s, 'w) process \<Rightarrow> string \<Rightarrow> ('s, nat outcome) state" where
  "start_manager pr namespace = do {
     a \<leftarrow> AddToManager (p_manager pr);
     case a of
       Panicked p \<Rightarrow> ret (Panicked p)
     | Returned (Some err) \<Rightarrow> ret (Returned 1)
     | Returned None \<Rightarrow> do {
         _ \<leftarrow> serve_metrics pr namespace;
         exit_on_error (p_Start pr) (ret (Returned 0))
       }
   }"

definition manager_main :: "('s, 'w) process \<Rightarrow> ('s, nat outcome) state" where
  "manager_main pr = do {
     n \<leftarrow> p_GetWatchNamespace pr;
     case n of
       Inl err \<Rightarrow> ret (Returned 1)
     | Inr namespace \<Rightarrow>
         exit_on_error (p_GetConfig pr)
        (exit_on_error (p_BecomeLeader pr ''image-registry-operator-lock'')
        (exit_on_error (p_NewManager pr namespace (metricsHost @ '':'' @ FormatInt metricsPort))
        (exit_on_error (p_AddAPIs pr)
        (exit_on_error (p_AddCertManager pr)
        (start_manager pr namespace)))))
   }"

end
