(* ===== verification/RegistryReadiness.thy ===== *)
theory RegistryReadiness
  imports RegistryWorkload CertRenewal
begin

text \<open>
  Theorems about the registry controller: the status it writes is true (\<open>registry_status\<close>),
  the pods it describes are well formed, the names in the certificate are those that
  clients use, and events of the volume claim find the registry.
\<close>

subsection \<open>Recording the status\<close>

datatype registry_event = FoundSet StatefulSet | StatusWritten ImageRegistry "go_error option"

definition lifted_certs :: "'s CertManager \<Rightarrow> ('s \<times> 'e list) CertManager" where
  "lifted_certs m = \<lparr>cm_secrets = lifted_client (cm_secrets m), cm_upsert = lifted_upserter (cm_upsert m),
     cm_lib = recorded_lib (cm_lib m), cm_crypto = recorded_crypto (cm_crypto m),
     rootCASecretName = rootCASecretName m\<rparr>"

definition recorded_registry ::
  "'s ReconcileImageRegistry \<Rightarrow> ('s \<times> registry_event list) ReconcileImageRegistry" where
  "recorded_registry r = \<lparr>
     reg_crs = (lifted_client (reg_crs r))\<lparr>StatusUpdate :=
       (\<lambda>x. recorded (\<lambda>a. StatusWritten x (fst a)) (StatusUpdate (reg_crs r) x))\<rparr>,
     up_Certificates = lifted_upserter (up_Certificates r),
     up_ServiceAccounts = lifted_upserter (up_ServiceAccounts r), up_Roles = lifted_upserter (up_Roles r),
     up_RoleBindings = lifted_upserter (up_RoleBindings r), up_Services = lifted_upserter (up_Services r),
     up_StatefulSets = (lifted_upserter (up_StatefulSets r))\<lparr>up_fetch :=
       (\<lambda>x. recorded (\<lambda>a. FoundSet (snd a)) (up_fetch (up_StatefulSets r) x))\<rparr>,
     up_Claims = lifted_upserter (up_Claims r),
     reg_lib = recorded_lib (reg_lib r), reg_certManager = lifted_certs (reg_certManager r),
     condition_order = condition_order r, reg_dnsZone = reg_dnsZone r,
     imageAuth = imageAuth r, imageNginx = imageNginx r, imageRegistry = imageRegistry r\<rparr>"

lemma lifted_simps [simp]:
  "cm_secrets (lifted_certs m) = lifted_client (cm_secrets m)"
  "cm_upsert (lifted_certs m) = lifted_upserter (cm_upsert m)"
  "cm_crypto (lifted_certs m) = recorded_crypto (cm_crypto m)"
  by (simp_all add: lifted_upserter_def lifted_client_def lifted_certs_def)

lemma recorded_registry_simps [simp]:
  "Get (reg_crs (recorded_registry r)) k = unrecorded (Get (reg_crs r) k)"
  "StatusUpdate (reg_crs (recorded_registry r)) x =
     recorded (\<lambda>a. StatusWritten x (fst a)) (StatusUpdate (reg_crs r) x)"
  "up_Certificates (recorded_registry r) = lifted_upserter (up_Certificates r)"
  "up_ServiceAccounts (recorded_registry r) = lifted_upserter (up_ServiceAccounts r)"
  "up_Roles (recorded_registry r) = lifted_upserter (up_Roles r)"
  "up_RoleBindings (recorded_registry r) = lifted_upserter (up_RoleBindings r)"
  "up_Services (recorded_registry r) = lifted_upserter (up_Services r)"
  "up_fetch (up_StatefulSets (recorded_registry r)) o' =
     recorded (\<lambda>a. FoundSet (snd a)) (up_fetch (up_StatefulSets r) o')"
  "up_write (up_StatefulSets (recorded_registry r)) o' p = unrecorded (up_write (up_StatefulSets r) o' p)"
  "up_Claims (recorded_registry r) = lifted_upserter (up_Claims r)"
  "reg_lib (recorded_registry r) = recorded_lib (reg_lib r)"
  "reg_certManager (recorded_registry r) = lifted_certs (reg_certManager r)"
  "condition_order (recorded_registry r) = condition_order r"
  "externalHostnameForCR (recorded_registry r) = externalHostnameForCR r"
  by (auto simp: recorded_registry_def lifted_upserter_def lifted_client_def externalHostnameForCR_def)

subsection \<open>Tasks that leave the instance alone\<close>

definition quiet :: "('s \<times> 'e list) reconcileTask \<Rightarrow> bool" where
  "quiet task \<longleftrightarrow> (\<forall>cr s l. wp (task cr) (\<lambda>res (s', l'). l' = l \<and> (\<forall>e cr'. res = Returned (e, cr') \<longrightarrow> cr' = cr)) (s, l))"

lemma upsert_sets_quiet:
  "wp (upsert r (lifted_upserter u) owner obj (sets f) cr)
     (\<lambda>res (s', l'). l' = l \<and> (\<forall>e cr'. res = Returned (e, cr') \<longrightarrow> cr' = cr)) (s, l)"
  unfolding upsert_def wp_bind
  by (intro wp_CreateOrUpdate)
    (auto simp: upsert_callback_def sets_def wp_unrecorded Let_def split: option.split outcome.split sum.split
      intro!: wp_any)

text \<open>Renewals write no event.\<close>

lemma recorded_crypto_silent: "crypto_frame snd (recorded_crypto cr)"
  by (simp add: crypto_frame_def recorded_crypto_def)

lemma renew_callback_silent:
  assumes "reads_only snd factory"
  shows "reads_only snd (renew_callback (lifted_certs m) owner lbls cond factory x c)"
  unfolding renew_callback_def refuse_unmanaged_def renew_managed_def NeedsRenewal_def Let_def
  using assms by (auto split: outcome.split option.split sum.split intro!: reads_only_bind)

lemma renewCertSecret_silent:
  assumes "reads_only snd factory"
  shows "reads_only snd (renewCertSecret (lifted_certs m) k owner lbls cond factory)"
  unfolding renewCertSecret_def CreateOrUpdate_def
  by (auto split: outcome.split option.split prod.split intro!: reads_only_bind renew_callback_silent assms)

lemma renewals_silent:
  "reads_only snd (RenewCACertSecret (lifted_certs m) k owner lbls cn)"
  "reads_only snd (RenewServerCertSecret (lifted_certs m) k owner lbls dns ca)"
  "reads_only snd (RootCACert (lifted_certs m))"
  using genKeyPair_frame [OF recorded_crypto_silent]
  by (auto simp: RenewCACertSecret_def RenewServerCertSecret_def NewSelfSignedCAKeyPair_def NewServerKeyPair_def
      RootCACert_def KeyPair_of_def split: sum.split outcome.split option.split intro!: reads_only_bind renewCertSecret_silent)

lemma wp_silent:
  assumes "reads_only snd m" "\<And>a s'. Q a (s', l)"
  shows "wp m Q (s, l)"
  using assms(2) by (auto intro!: wp_runI dest!: reads_only_run [OF assms(1)])

lemma tasks_quiet:
  "quiet (reconcileTokenCert (recorded_registry r))" "quiet (reconcileTLSCert (recorded_registry r))"
  "quiet (reconcileServiceAccount (recorded_registry r))" "quiet (reconcileRole (recorded_registry r))"
  "quiet (reconcileRoleBinding (recorded_registry r))" "quiet (reconcileService (recorded_registry r))"
  "quiet (reconcilePersistentVolumeClaim (recorded_registry r))"
  unfolding quiet_def reconcileTokenCert_def reconcileTLSCert_def reconcileServiceAccount_def reconcileRole_def
    reconcileRoleBinding_def reconcileService_def reconcilePersistentVolumeClaim_def Let_def renewal_error_def
  by (auto simp: upsert_sets_quiet split: option.split outcome.split sum.split
      intro!: wp_silent [OF renewals_silent(1)] wp_silent [OF renewals_silent(2)] wp_silent [OF renewals_silent(3)])

subsection \<open>Readiness\<close>

text \<open>
  The rollout of a stateful set is complete for a registry: its controller has seen its
  spec, which was written for the registry's current generation, and all replicas the
  registry asks for exist, are ready and are updated.
\<close>

definition rolled_out :: "ImageRegistry \<Rightarrow> StatefulSet \<Rightarrow> bool" where
  "rolled_out cr sts \<longleftrightarrow> sts_ObservedGeneration sts = Generation sts \<and>
     map_get (Annotations sts) annotationImageRegistryGeneration = FormatInt (Generation cr) \<and>
     sts_Replicas sts = replicas_for_cr cr \<and> sts_ReadyReplicas sts = replicas_for_cr cr \<and>
     sts_UpdatedReplicas sts = replicas_for_cr cr"

lemma rollout_complete_update [simp]:
  "rollout_complete cr (updateStatefulSetForCR r cr sts) \<longleftrightarrow> rolled_out cr sts"
  by (auto simp: rollout_complete_def rolled_out_def generation_observed_def updated_replicas_def
      updateStatefulSetForCR_def Let_def)

lemma rolled_out_prepare [simp]:
  "rolled_out cr (prepare sts) = rolled_out cr sts"
  "rolled_out cr (sts\<lparr>Labels := ls\<rparr>) = rolled_out cr sts"
  "rolled_out cr (sts\<lparr>OwnerReferences := rs\<rparr>) = rolled_out cr sts"
  "rolled_out (cr\<lparr>reg_Conditions := C\<rparr>) sts = rolled_out cr sts"
  by (auto simp: rolled_out_def prepare_def replicas_for_cr_def map_get_def)

lemma wp_SetCondition_recorded:
  assumes "condition_contract lib"
    and "\<And>c' s'. same_condition c' c \<Longrightarrow>
      Q (cs(CondType c \<mapsto> c'), case cs (CondType c) of None \<Rightarrow> True | Some d \<Rightarrow> \<not> same_condition d c) (s', l)"
  shows "wp (unrecorded (SetCondition lib c cs)) Q (s, l)"
  by (simp add: wp_unrecorded, rule wp_SetCondition [OF assms(1)]) (rule assms(2))

definition ready_backed :: "ImageRegistry \<Rightarrow> ImageRegistry \<Rightarrow> registry_event list \<Rightarrow> bool" where
  "ready_backed cr0 cr l \<longleftrightarrow> cr = cr0\<lparr>reg_Conditions := reg_Conditions cr\<rparr> \<and>
     dom (reg_Conditions cr) \<subseteq> {ConditionReady} \<and>
     (\<forall>c. reg_Conditions cr ConditionReady = Some c \<longrightarrow> CondType c = ConditionReady \<and>
        (CondStatus c = ConditionTrue \<longrightarrow> (\<exists>sts. FoundSet sts \<in> set l \<and> rolled_out cr0 sts))) \<and>
     (\<forall>x e. StatusWritten x e \<notin> set l)"

lemma rolled_out_instance:
  "cr = cr0\<lparr>reg_Conditions := C\<rparr> \<Longrightarrow> rolled_out cr sts = rolled_out cr0 sts"
  by simp

definition backed_result ::
  "ImageRegistry \<Rightarrow> (go_error option \<times> ImageRegistry) outcome \<Rightarrow> registry_event list \<Rightarrow> bool" where
  "backed_result cr0 res l \<longleftrightarrow> (\<forall>x e. StatusWritten x e \<notin> set l) \<and>
     (\<forall>e cr'. res = Returned (e, cr') \<longrightarrow> ready_backed cr0 cr' l \<and>
        (e = None \<longrightarrow> reg_Conditions cr' ConditionReady \<noteq> None))"

lemma backed_panic: "ready_backed cr0 cr l \<Longrightarrow> backed_result cr0 (Panicked p) l"
  by (simp add: backed_result_def ready_backed_def)

lemma backed_error: "ready_backed cr0 cr l \<Longrightarrow> backed_result cr0 (Returned (Some e, cr)) l"
  by (simp add: backed_result_def ready_backed_def)

lemma same_condition_ready:
  "same_condition c (ready_condition cr sts) \<Longrightarrow> CondType c = ConditionReady \<and>
   (CondStatus c = ConditionTrue \<longleftrightarrow> rollout_complete cr sts)"
  by (auto simp: same_condition_def ready_condition_def mk_condition_def)

lemma stateful_set_backed:
  assumes "condition_contract (reg_lib r)" "ready_backed cr0 cr l"
  shows "wp (reconcileStatefulSet (recorded_registry r) cr)
     (\<lambda>res (s', l'). backed_result cr0 res l') (s, l)"
proof -
  have more: "ready_backed cr0 cr (l @ [FoundSet sts])" for sts
    using assms(2) by (auto simp: ready_backed_def)
  have set: "ready_backed cr0 (cr\<lparr>reg_Conditions := (reg_Conditions cr)(ConditionReady \<mapsto> c')\<rparr>) (l @ [FoundSet sts])"
    if "CondType c' = ConditionReady" "CondStatus c' = ConditionTrue \<longrightarrow> rolled_out cr sts" for c' sts
    using assms(2) that rolled_out_instance [of cr "reg_Conditions cr" cr0 sts] unfolding ready_backed_def
    by (cases cr, cases cr0) auto
  have modify: "wp (upsert_callback (recorded_registry r) (Some ow) (modify_stateful_set (recorded_registry r)) sts cr)
     (\<lambda>res (s', l'). l' = l @ [FoundSet sts] \<and> (\<forall>e x cr'. res = Returned (e, x, cr') \<longrightarrow>
        ready_backed cr0 cr' l' \<and> (e = None \<longrightarrow> reg_Conditions cr' ConditionReady \<noteq> None)))
     (s1, l @ [FoundSet sts])" for ow sts s1
    unfolding upsert_callback_def modify_stateful_set_def Let_def
    by (auto simp: more split: option.split sum.split)
      (rule wp_SetCondition_recorded [OF assms(1)], drule same_condition_ready,
        auto intro!: set simp: ready_condition_def)
  show ?thesis
    unfolding reconcileStatefulSet_def upsert_def wp_bind
    by (intro wp_CreateOrUpdate, simp, intro wp_recordedI)
      (use more in \<open>auto simp: backed_result_def ready_backed_def split: outcome.split option.split
        intro!: wp_mono [OF modify] wp_unrecordedI\<close>)
qed

text \<open>The tasks one after the other.\<close>

lemma run_quiet:
  assumes "quiet task" "ready_backed cr0 cr l"
    and "\<And>s'. wp (run_tasks tasks cr) (\<lambda>res (s', l'). backed_result cr0 res l') (s', l)"
  shows "wp (run_tasks (task # tasks) cr) (\<lambda>res (s', l'). backed_result cr0 res l') (s, l)"
proof -
  have q: "wp (task cr) (\<lambda>res (s', l'). l' = l \<and> (\<forall>e cr'. res = Returned (e, cr') \<longrightarrow> cr' = cr)) (s, l)"
    using assms(1) unfolding quiet_def by blast
  show ?thesis
    by (simp, rule wp_mono [OF q])
      (use assms(3) backed_panic [OF assms(2)] backed_error [OF assms(2)] in
        \<open>auto split: outcome.split option.split\<close>)
qed

lemma tasks_backed:
  assumes "condition_contract (reg_lib r)" "ready_backed cr0 cr l"
  shows "wp (run_tasks (reconcileTasks (recorded_registry r)) cr) (\<lambda>res (s', l'). backed_result cr0 res l') (s, l)"
proof -
  have last: "wp (run_tasks [reconcilePersistentVolumeClaim (recorded_registry r)] cr2)
     (\<lambda>res (s', l'). backed_result cr0 res l') (s2, l2)"
    if "backed_result cr0 (Returned (None, cr2)) l2" for cr2 s2 l2
    by (rule run_quiet [OF tasks_quiet(7)]) (use that in \<open>auto simp: backed_result_def\<close>)
  have sts: "wp (run_tasks [reconcileStatefulSet (recorded_registry r), reconcilePersistentVolumeClaim (recorded_registry r)] cr)
     (\<lambda>res (s', l'). backed_result cr0 res l') (s2, l)" for s2
    by (subst run_tasks.simps, simp only: wp_bind, rule wp_mono [OF stateful_set_backed [OF assms]])
      (auto simp del: run_tasks.simps split: outcome.split option.split intro!: last)
  show ?thesis
    unfolding reconcileTasks_def by (intro run_quiet tasks_quiet assms(2) sts)
qed

subsection \<open>The status\<close>

text \<open>Ranging over the new conditions visits each of them once.\<close>

definition order_contract :: "(Conditions \<Rightarrow> Condition list) \<Rightarrow> bool" where
  "order_contract order \<longleftrightarrow> (\<forall>m. dom m \<subseteq> {ConditionReady, ConditionSynced} \<longrightarrow>
     (\<forall>k c. m k = Some c \<longrightarrow> CondType c = k) \<longrightarrow>
     distinct (map CondType (order m)) \<and> set (order m) = ran m)"

lemma merge_sets:
  assumes "condition_contract lib" "distinct (map CondType cs)"
  shows "wp (merge_conditions (recorded_lib lib) cs C ch) (\<lambda>(C', ch') (s', l').
     l' = l \<and> (\<forall>c \<in> set cs. \<exists>c'. C' (CondType c) = Some c' \<and> same_condition c' c) \<and>
     (\<forall>k. k \<notin> CondType ` set cs \<longrightarrow> C' k = C k)) (s, l)"
  using assms(2)
proof (induction cs arbitrary: C ch s)
  case (Cons c cs)
  show ?case
    by (simp, rule wp_SetCondition_recorded [OF assms(1)], rule wp_mono [OF Cons.IH])
      (use Cons.prems in \<open>force+\<close>)
qed simp

definition status_true ::
  "'s ReconcileImageRegistry \<Rightarrow> ImageRegistry \<Rightarrow> go_error option \<Rightarrow> go_error option \<Rightarrow> registry_event list \<Rightarrow> bool" where
  "status_true r cr write_err err l \<longleftrightarrow> (\<exists>synced ready.
     reg_Conditions cr ConditionSynced = Some synced \<and> reg_Conditions cr ConditionReady = Some ready \<and>
     (CondStatus ready = ConditionTrue \<longrightarrow> CondStatus synced = ConditionTrue \<and>
        (\<exists>sts. FoundSet sts \<in> set l \<and> rolled_out cr sts)) \<and>
     (if CondStatus synced = ConditionTrue then err = write_err
      else (\<exists>e. err = Some e \<and> CondMessage synced = Error e)) \<and>
     reg_ObservedGeneration cr = Generation cr \<and> Hostname cr = externalHostnameForCR r cr \<and>
     TLSSecretName cr = tlsSecretNameForCR cr)"

lemma wp_sync_conditions:
  assumes "condition_contract lib" and "reg_lib r = recorded_lib lib"
  shows "wp (sync_conditions r err C) (\<lambda>C' (s', l'). l' = l \<and>
     (\<exists>synced. same_condition synced (mk_condition ConditionSynced
        (if err = None then ConditionTrue else ConditionFalse) [] (case err of None \<Rightarrow> [] | Some e \<Rightarrow> Error e)) \<and>
       C' ConditionSynced = Some synced) \<and>
     (case err of None \<Rightarrow> C' = C(ConditionSynced := C' ConditionSynced)
      | Some _ \<Rightarrow> C' = C(ConditionSynced := C' ConditionSynced, ConditionReady := C' ConditionReady) \<and>
          (\<exists>ready. C' ConditionReady = Some ready \<and> CondType ready = ConditionReady \<and> CondStatus ready = ConditionFalse)))
     (s, l)"
  unfolding sync_conditions_def assms(2)
  by (auto split: option.split intro!: wp_SetCondition_recorded [OF assms(1)] simp: same_condition_def)

text \<open>Conditions that tell the truth about the tasks.\<close>

definition conditions_true :: "ImageRegistry \<Rightarrow> go_error option \<Rightarrow> registry_event list \<Rightarrow> Conditions \<Rightarrow> bool" where
  "conditions_true cr0 err l C \<longleftrightarrow>
     (\<exists>synced ready. C ConditionSynced = Some synced \<and> C ConditionReady = Some ready \<and>
        (CondStatus ready = ConditionTrue \<longrightarrow> err = None \<and> (\<exists>sts. FoundSet sts \<in> set l \<and> rolled_out cr0 sts)) \<and>
        (CondStatus synced = ConditionTrue \<longleftrightarrow> err = None) \<and>
        (\<forall>e. err = Some e \<longrightarrow> CondMessage synced = Error e))"

definition keyed_conditions :: "Conditions \<Rightarrow> bool" where
  "keyed_conditions C \<longleftrightarrow> dom C \<subseteq> {ConditionReady, ConditionSynced} \<and> (\<forall>k c. C k = Some c \<longrightarrow> CondType c = k)"

lemma sync_conditions_true:
  assumes c: "condition_contract (reg_lib r)" and b: "ready_backed cr0 cr l"
    and ok: "err = None \<longrightarrow> reg_Conditions cr ConditionReady \<noteq> None"
  shows "wp (sync_conditions (recorded_registry r) err (reg_Conditions cr))
     (\<lambda>C (s', l'). l' = l \<and> keyed_conditions C \<and> conditions_true cr0 err l C) (s, l)"
proof (rule wp_mono [OF wp_sync_conditions [OF c recorded_registry_simps(11)]], clarify)
  fix C :: Conditions and synced
  assume y: "same_condition synced (mk_condition ConditionSynced
      (if err = None then ConditionTrue else ConditionFalse) [] (case err of None \<Rightarrow> [] | Some e \<Rightarrow> Error e))"
    "C ConditionSynced = Some synced"
    and C: "case err of None \<Rightarrow> C = (reg_Conditions cr)(ConditionSynced := C ConditionSynced)
      | Some _ \<Rightarrow> C = (reg_Conditions cr)(ConditionSynced := C ConditionSynced, ConditionReady := C ConditionReady) \<and>
        (\<exists>ready. C ConditionReady = Some ready \<and> CondType ready = ConditionReady \<and> CondStatus ready = ConditionFalse)"
  have rest: "C k = reg_Conditions cr k" if "k \<noteq> ConditionSynced" "k \<noteq> ConditionReady \<or> err = None" for k
    using C that by (auto split: option.splits) (metis fun_upd_other)+
  have d: "dom C \<subseteq> {ConditionReady, ConditionSynced}"
  proof (rule subsetI)
    fix k assume k: "k \<in> dom C"
    show "k \<in> {ConditionReady, ConditionSynced}"
    proof (rule ccontr)
      assume n: "k \<notin> {ConditionReady, ConditionSynced}"
      with k rest have "k \<in> dom (reg_Conditions cr)" by auto
      with b n show False by (auto simp: ready_backed_def)
    qed
  qed
  have r: "\<exists>ready. C ConditionReady = Some ready \<and> CondType ready = ConditionReady \<and>
      (CondStatus ready = ConditionTrue \<longrightarrow> err = None \<and> (\<exists>sts. FoundSet sts \<in> set l \<and> rolled_out cr0 sts))"
    using b ok rest [of ConditionReady] C unfolding ready_backed_def by (cases err) auto
  have "CondType x = k" if "C k = Some x" for k x
  proof -
    from d that have "k = ConditionReady \<or> k = ConditionSynced" by auto
    with r y that show ?thesis by (auto simp: same_condition_def)
  qed
  with d have "keyed_conditions C" by (simp add: keyed_conditions_def)
  moreover have "conditions_true cr0 err l C"
    using r y by (cases err) (auto simp: conditions_true_def same_condition_def)
  ultimately show "l = l \<and> keyed_conditions C \<and> conditions_true cr0 err l C" by simp
qed

lemma merge_conditions_true:
  assumes c: "condition_contract lib" and o: "order_contract order"
    and k: "keyed_conditions C" and g: "conditions_true cr0 err l C"
  shows "wp (merge_conditions (recorded_lib lib) (order C) conds ch)
     (\<lambda>(C', ch') (s', l'). l' = l \<and> conditions_true cr0 err l C') (s, l)"
proof -
  from k o have ord: "distinct (map CondType (order C))" "set (order C) = ran C"
    by (auto simp: keyed_conditions_def order_contract_def)
  from g obtain synced ready where y: "C ConditionSynced = Some synced" "C ConditionReady = Some ready"
    "CondStatus ready = ConditionTrue \<longrightarrow> err = None \<and> (\<exists>sts. FoundSet sts \<in> set l \<and> rolled_out cr0 sts)"
    "CondStatus synced = ConditionTrue \<longleftrightarrow> err = None" "\<forall>e. err = Some e \<longrightarrow> CondMessage synced = Error e"
    unfolding conditions_true_def by blast
  then have "synced \<in> set (order C)" "ready \<in> set (order C)"
    using ord(2) by (auto simp: ran_def)
  moreover have "CondType synced = ConditionSynced" "CondType ready = ConditionReady"
    using y k by (auto simp: keyed_conditions_def)
  ultimately have "conditions_true cr0 err l C'"
    if "\<forall>c \<in> set (order C). \<exists>c'. C' (CondType c) = Some c' \<and> same_condition c' c" for C'
    using y that unfolding conditions_true_def same_condition_def by metis
  then show ?thesis
    by (intro wp_mono [OF merge_sets [OF c ord(1)]]) auto
qed

lemma update_status_true:
  assumes c: "condition_contract (reg_lib r)" and o: "order_contract (condition_order r)"
    and b: "ready_backed cr0 cr l" and ok: "err = None \<longrightarrow> reg_Conditions cr ConditionReady \<noteq> None"
  shows "wp (update_status (recorded_registry r) conds cr err)
     (\<lambda>e' (s', l'). \<forall>x e. StatusWritten x e \<in> set l' \<longrightarrow> status_true r x e e' l') (s, l)"
proof -
  have inst: "rolled_out (cr\<lparr>reg_Conditions := C, reg_ObservedGeneration := Generation cr,
      Hostname := externalHostnameForCR r cr, TLSSecretName := tlsSecretNameForCR cr\<rparr>) sts = rolled_out cr0 sts" for C sts
  proof -
    have "cr = cr0\<lparr>reg_Conditions := reg_Conditions cr\<rparr>"
      using b unfolding ready_backed_def by (rule conjunct1)
    from rolled_out_instance [OF this] show ?thesis
      by (simp add: rolled_out_def replicas_for_cr_def)
  qed
  have st: "status_true r (cr\<lparr>reg_Conditions := C, reg_ObservedGeneration := Generation cr,
      Hostname := externalHostnameForCR r cr, TLSSecretName := tlsSecretNameForCR cr\<rparr>) e
      (case e of Some e \<Rightarrow> if err = None then Some e else err | None \<Rightarrow> err) (l @ [StatusWritten x e])"
    if "conditions_true cr0 err l C" for C x e
  proof -
    from that obtain synced ready where y: "C ConditionSynced = Some synced" "C ConditionReady = Some ready"
      "CondStatus ready = ConditionTrue \<Longrightarrow> err = None \<and> (\<exists>sts. FoundSet sts \<in> set l \<and> rolled_out cr0 sts)"
      "CondStatus synced = ConditionTrue \<longleftrightarrow> err = None" "\<And>e. err = Some e \<Longrightarrow> CondMessage synced = Error e"
      unfolding conditions_true_def by blast
    show ?thesis
      unfolding status_true_def inst
      by (rule exI [of _ synced], rule exI [of _ ready], cases err)
        (use y in \<open>simp_all add: externalHostnameForCR_def RegistryHostname_def serviceNameForCR_def tlsSecretNameForCR_def split: option.split\<close>, blast?)
  qed
  have "StatusWritten x e \<notin> set l" for x e
    using b unfolding ready_backed_def by blast
  with st show ?thesis
    unfolding update_status_def wp_bind Let_def
    by - (rule wp_mono [OF sync_conditions_true [OF c b ok]], clarsimp,
        rule wp_mono [OF merge_conditions_true [OF c o]], assumption+,
        auto intro!: wp_recordedI)
qed

text \<open>
  C13. The status of a registry tells the truth. In every run of a reconciliation, whatever the
  API server answers, a status is only written with both conditions set, and: Ready is true
  only when all tasks succeeded and the run found a stateful set whose rollout is complete
  for the registry's current generation; Synced is true only when no task failed, and
  otherwise has the message of the error that the reconciliation returns; and the observed
  generation, host name and name of the TLS secret are the current ones. A Ready condition
  of an earlier reconciliation never survives.
\<close>

theorem registry_status:
  assumes "condition_contract (reg_lib r)" and "order_contract (condition_order r)"
  shows "wp (RegistryWorkload.Reconcile (recorded_registry r) request)
     (\<lambda>res (s', l). \<forall>cr e. StatusWritten cr e \<in> set l \<longrightarrow>
        (\<exists>err. res = Returned (no_requeue, err) \<and> status_true r cr e err l)) (s, [])"
proof -
  have run: "wp (run_tasks (reconcileTasks (recorded_registry r)) (cr0\<lparr>reg_Conditions := Map.empty\<rparr>))
     (\<lambda>res (s', l'). backed_result cr0 res l') (s1, [])" for cr0 s1
    by (rule tasks_backed [OF assms(1)]) (simp add: ready_backed_def)
  have status: "wp (update_status (recorded_registry r) conds cr err)
     (\<lambda>e' (s', l'). \<forall>x e. StatusWritten x e \<in> set l' \<longrightarrow> status_true r x e e' l') (s1, l)"
    if "backed_result cr0 (Returned (err, cr)) l" for conds cr err cr0 s1 l
    by (rule update_status_true [OF assms]) (use that in \<open>auto simp: backed_result_def\<close>)
  show ?thesis
    unfolding RegistryWorkload.Reconcile_def wp_bind
    by (simp, intro wp_unrecordedI)
      (auto simp: backed_result_def [of _ "Panicked p" for p] split: sum.split outcome.split
        intro!: wp_mono [OF run] wp_mono [OF status])
qed

end
