(* ===== verification/Startup.thy ===== *)
theory Startup
  imports Controllers RegistryReadiness
begin

text \<open>
  The start of the operator against any libraries: what has happened before what. The calls
  that matter are recorded; serving metrics is not one of them.
\<close>

subsection \<open>Recording\<close>

datatype 'w startup_step =
    ReadNamespace
  | ReadConfig
  | BecomeLeader
  | MakeManager
  | RegisterAPIs
  | RegisterCertManager
  | MakeClient
  | MakeController string "'w reconciler"
  | MakeWatch string string handler
  | StartManager

type_synonym 'w startup_event = "'w startup_step \<times> go_error option"

definition recorded_manager ::
  "('s, 'w) manager \<Rightarrow> ('s \<times> 'w startup_event list, 'w) manager" where
  "recorded_manager m = \<lparr>m_Getenv = m_Getenv m, m_GetOperatorNamespace = m_GetOperatorNamespace m,
     m_ParseDuration = m_ParseDuration m,
     m_NewClient = recorded (Pair MakeClient) (m_NewClient m),
     m_NewController = (\<lambda>c r. recorded (Pair (MakeController c r)) (m_NewController m c r)),
     m_Watch = (\<lambda>c k h. recorded (Pair (MakeWatch c k h)) (m_Watch m c k h)),
     m_certs = lifted_certs (m_certs m), m_caroot_base = m_caroot_base m,
     m_env_base = m_env_base m, m_secret_base = m_secret_base m, m_registry_base = m_registry_base m,
     m_account_base = m_account_base m\<rparr>"

definition recorded_process ::
  "('s, 'w) process \<Rightarrow> ('s \<times> 'w startup_event list, 'w) process" where
  "recorded_process pr = \<lparr>
     p_GetWatchNamespace = recorded (\<lambda>r. (ReadNamespace, err_of r)) (p_GetWatchNamespace pr),
     p_GetConfig = recorded (Pair ReadConfig) (p_GetConfig pr),
     p_BecomeLeader = (\<lambda>n. recorded (Pair BecomeLeader) (p_BecomeLeader pr n)),
     p_NewManager = (\<lambda>n a. recorded (Pair MakeManager) (p_NewManager pr n a)),
     p_AddAPIs = recorded (Pair RegisterAPIs) (p_AddAPIs pr),
     p_AddCertManager = recorded (Pair RegisterCertManager) (p_AddCertManager pr),
     p_GetGVKs = unrecorded (p_GetGVKs pr),
     p_GetOperatorNamespace = unrecorded (p_GetOperatorNamespace pr),
     p_GenerateAndServeCRMetrics = (\<lambda>ns ks h p. unrecorded (p_GenerateAndServeCRMetrics pr ns ks h p)),
     p_CreateMetricsService = (\<lambda>ps. unrecorded (p_CreateMetricsService pr ps)),
     p_CreateServiceMonitors = (\<lambda>n ss. unrecorded (p_CreateServiceMonitors pr n ss)),
     p_Start = recorded (Pair StartManager) (p_Start pr),
     p_manager = recorded_manager (p_manager pr)\<rparr>"

lemma recorded_manager_simps [simp]:
  "m_Getenv (recorded_manager m) = m_Getenv m"
  "m_GetOperatorNamespace (recorded_manager m) = m_GetOperatorNamespace m"
  "m_ParseDuration (recorded_manager m) = m_ParseDuration m"
  "m_NewClient (recorded_manager m) = recorded (Pair MakeClient) (m_NewClient m)"
  "m_NewController (recorded_manager m) c r = recorded (Pair (MakeController c r)) (m_NewController m c r)"
  "m_Watch (recorded_manager m) c k h = recorded (Pair (MakeWatch c k h)) (m_Watch m c k h)"
  "m_certs (recorded_manager m) = lifted_certs (m_certs m)"
  "m_caroot_base (recorded_manager m) = m_caroot_base m" "m_env_base (recorded_manager m) = m_env_base m"
  "m_secret_base (recorded_manager m) = m_secret_base m" "m_registry_base (recorded_manager m) = m_registry_base m"
  "m_account_base (recorded_manager m) = m_account_base m"
  by (simp_all add: recorded_manager_def)

lemma recorded_process_simps [simp]:
  "p_GetWatchNamespace (recorded_process pr) = recorded (\<lambda>r. (ReadNamespace, err_of r)) (p_GetWatchNamespace pr)"
  "p_GetConfig (recorded_process pr) = recorded (Pair ReadConfig) (p_GetConfig pr)"
  "p_BecomeLeader (recorded_process pr) n = recorded (Pair BecomeLeader) (p_BecomeLeader pr n)"
  "p_NewManager (recorded_process pr) n a = recorded (Pair MakeManager) (p_NewManager pr n a)"
  "p_AddAPIs (recorded_process pr) = recorded (Pair RegisterAPIs) (p_AddAPIs pr)"
  "p_AddCertManager (recorded_process pr) = recorded (Pair RegisterCertManager) (p_AddCertManager pr)"
  "p_Start (recorded_process pr) = recorded (Pair StartManager) (p_Start pr)"
  "p_manager (recorded_process pr) = recorded_manager (p_manager pr)"
  by (simp_all add: recorded_process_def)

subsection \<open>Following a plan\<close>

text \<open>
  A run that finishes has made all steps of its plan, in order and with success. One that
  does not has made some of the first steps with success, but not all, and perhaps the next
  one without.
\<close>

abbreviation succeeded :: "'w startup_step list \<Rightarrow> 'w startup_event list" where
  "succeeded steps \<equiv> map (\<lambda>st. (st, None)) steps"

definition halted :: "'w startup_step list \<Rightarrow> 'w startup_event list \<Rightarrow> bool" where
  "halted plan l \<longleftrightarrow> (\<exists>done st todo. plan = done @ st # todo \<and>
     (l = succeeded done \<or> (\<exists>e. l = succeeded done @ [(st, Some e)])))"

definition follows :: "'w startup_step list \<Rightarrow> bool \<Rightarrow> 'w startup_event list \<Rightarrow> bool" where
  "follows plan finished l \<longleftrightarrow> (if finished then l = succeeded plan else halted plan l)"

lemma halted_unfinished: "\<not> halted plan (succeeded plan)"
proof
  assume "halted plan (succeeded plan)"
  then obtain made st todo where plan: "plan = made @ st # todo"
    and l: "succeeded plan = succeeded made \<or> (\<exists>e. succeeded plan = succeeded made @ [(st, Some e)])"
    unfolding halted_def by blast
  from l show False
  proof
    assume "succeeded plan = succeeded made"
    from arg_cong [OF this, of length] show False by (simp add: plan)
  qed (simp add: plan)
qed

lemma follows_exactly:
  "follows plan finished l \<longleftrightarrow> (finished \<longleftrightarrow> l = succeeded plan) \<and> (finished \<or> halted plan l)"
  using halted_unfinished by (auto simp: follows_def)

definition runs :: "'w startup_step list \<Rightarrow> ('r \<Rightarrow> bool) \<Rightarrow> ('s \<times> 'w startup_event list, 'r) state \<Rightarrow> bool" where
  "runs plan fin m \<longleftrightarrow> (\<forall>s l0. wp m (\<lambda>r (s', l). \<exists>l1. l = l0 @ l1 \<and> follows plan (fin r) l1) (s, l0))"

lemma halted_first: "halted p l \<Longrightarrow> halted (p @ q) l"
  unfolding halted_def by (metis append.assoc append_Cons)

lemma halted_second: "halted q l \<Longrightarrow> halted (p @ q) (succeeded p @ l)"
  unfolding halted_def by (metis append.assoc map_append)

lemma halted_nothing [simp]: "p \<noteq> [] \<Longrightarrow> halted p []"
  unfolding halted_def by (metis append_Nil list.exhaust list.map(1))

lemma runs_bind:
  assumes "runs p fin m"
    and "\<And>r. fin r \<Longrightarrow> runs q fin' (f r)" "\<And>r. \<not> fin r \<Longrightarrow> \<exists>r'. f r = ret r' \<and> \<not> fin' r'"
  shows "runs (p @ q) fin' (State_Monad.bind m f)"
  unfolding runs_def wp_bind
proof (intro allI, rule wp_mono [OF assms(1) [unfolded runs_def, rule_format]], clarify)
  fix s l0 r s' l1
  assume f: "follows p (fin r) l1"
  show "wp (f r) (\<lambda>r (s', l). \<exists>l1. l = l0 @ l1 \<and> follows (p @ q) (fin' r) l1) (s', l0 @ l1)"
  proof (cases "fin r")
    case True
    with f have l1: "l1 = succeeded p" by (simp add: follows_def)
    show ?thesis
      by (rule wp_mono [OF assms(2) [OF True, unfolded runs_def, rule_format]])
        (auto simp: follows_def l1 split: if_splits intro: halted_second)
  next
    case False
    with assms(3) [OF False] f show ?thesis by (auto simp: follows_def halted_first)
  qed
qed

lemma runs_recorded_result: "runs [st] (\<lambda>r. err r = None) (recorded (\<lambda>r. (st, err r)) m)"
  unfolding runs_def
proof (intro allI)
  fix s l0
  have "halted [st] [(st, Some e)]" for e
    unfolding halted_def by (rule exI [of _ "[]"], rule exI [of _ st], rule exI [of _ "[]"]) simp
  then show "wp (recorded (\<lambda>r. (st, err r)) m)
      (\<lambda>r (s', l). \<exists>l1. l = l0 @ l1 \<and> follows [st] (err r = None) l1) (s, l0)"
    by (intro wp_recordedI) (auto simp: follows_def)
qed

lemma runs_recorded: "runs [st] (\<lambda>r. r = None) (recorded (Pair st) m)"
  by (rule runs_recorded_result [of st "\<lambda>r. r"])

lemma runs_nothing: "fin r \<Longrightarrow> runs [] fin (ret r)" "\<not> fin r \<Longrightarrow> p \<noteq> [] \<Longrightarrow> runs p fin (ret r)"
  by (simp_all add: runs_def follows_def)

lemma runs_silent:
  assumes "reads_only snd m" "\<And>r. runs p fin (f r)"
  shows "runs p fin (State_Monad.bind m f)"
  unfolding runs_def
proof (intro allI)
  fix s l0
  show "wp (State_Monad.bind m f) (\<lambda>r (s', l). \<exists>l1. l = l0 @ l1 \<and> follows p (fin r) l1) (s, l0)"
    unfolding wp_bind
    by (rule wp_silent [OF assms(1)]) (rule assms(2) [unfolded runs_def, rule_format])
qed

lemma runs_and_then:
  assumes "runs p (\<lambda>r. r = None) m" "runs q (\<lambda>r. r = None) m'"
  shows "runs (p @ q) (\<lambda>r. r = None) (and_then m m')"
  unfolding and_then_def by (rule runs_bind [OF assms(1)]) (auto simp: assms(2))

lemma runs_returned:
  assumes "runs p (\<lambda>r. r = None) m"
  shows "runs p (\<lambda>r. r = Returned None) (do { err \<leftarrow> m; ret (Returned err) })"
  using runs_bind [OF assms, of "[]" "\<lambda>r. r = Returned None" "\<lambda>err. ret (Returned err)"]
  by (force simp: runs_nothing)

lemma runs_exit_on_error:
  assumes "runs q (\<lambda>r. r = Returned 0) m'"
  shows "runs (st # q) (\<lambda>r. r = Returned 0) (exit_on_error (recorded (Pair st) m) m')"
proof -
  have "runs ([st] @ q) (\<lambda>r. r = Returned 0) (exit_on_error (recorded (Pair st) m) m')"
    unfolding exit_on_error_def by (rule runs_bind [OF runs_recorded]) (auto simp: assms)
  then show ?thesis by simp
qed

subsection \<open>The controllers\<close>

definition watch_plan :: "string \<Rightarrow> watch list \<Rightarrow> 'w startup_step list" where
  "watch_plan c ws = map (\<lambda>(k, h). MakeWatch c k h) ws"

definition controller_plan :: "string \<Rightarrow> 'w reconciler \<Rightarrow> watch list \<Rightarrow> 'w startup_step list" where
  "controller_plan c r ws = MakeController c r # watch_plan c ws"

definition secret_watches :: "string \<Rightarrow> ReconcileImageSecretConfig \<Rightarrow> watch list" where
  "secret_watches ownerType c = (ownerType, EnqueueRequestForObject) # secondary_watches ownerType c"

lemma controller_plan_steps [simp]: "controller_plan c r ws \<noteq> []"
  by (simp add: controller_plan_def)

text \<open>What a configuration yields, and a default for one that panics.\<close>

definition configured :: "'a \<Rightarrow> 'a outcome \<Rightarrow> 'a" where
  "configured d c = (case c of Returned x \<Rightarrow> x | Panicked _ \<Rightarrow> d)"

definition root_name :: "('s, 'w) manager \<Rightarrow> NamespacedName" where
  "root_name m = configured (NN [] []) (RootCASecretName (m_Getenv m) (m_GetOperatorNamespace m))"

definition caroot_reconciler :: "('s, 'w) manager \<Rightarrow> 'w reconciler" where
  "caroot_reconciler m = CaRoot_reconciler (caroot_newReconciler (root_name m) (m_caroot_base m))"

definition secret_reconciler :: "('s, 'w) manager \<Rightarrow> ReconcileImageSecretConfig \<Rightarrow> 'w reconciler" where
  "secret_reconciler m c = Secret_reconciler (configured (m_secret_base m)
     (NewReconciler (m_Getenv m) (m_GetOperatorNamespace m) (m_ParseDuration m) c (m_secret_base m)))"

definition registry_reconciler :: "('s, 'w) manager \<Rightarrow> 'w reconciler" where
  "registry_reconciler m = Registry_reconciler (configured (m_registry_base m)
     (newReconciler (m_Getenv m) (m_GetOperatorNamespace m) (m_registry_base m)))"

lemma configured_Returned [simp]: "configured d (Returned x) = x"
  by (simp add: configured_def)

definition root_watches :: "NamespacedName \<Rightarrow> watch list" where
  "root_watches n = [(''Secret'', EnqueueRequestsFromMapFunc (\<lambda>o'. secretNameFilter_Map n (Some o')))]"

definition controller_plans :: "('s, 'w) manager \<Rightarrow> 'w startup_step list list" where
  "controller_plans m = [
     MakeClient # controller_plan ''caroot-controller'' (caroot_reconciler m) (root_watches (root_name m)),
     controller_plan ''imagebuildenv-controller'' (BuildEnv_reconciler (m_env_base m)) imagebuildenv_watches,
     controller_plan ''imagepullsecret-controller'' (secret_reconciler m pull_config)
       (secret_watches ''ImagePullSecret'' pull_config),
     controller_plan ''imagepushsecret-controller'' (secret_reconciler m push_config)
       (secret_watches ''ImagePushSecret'' push_config),
     controller_plan ''imageregistry-controller'' (registry_reconciler m) imageregistry_watches,
     controller_plan ''imageregistryaccount-controller'' (Account_reconciler (m_account_base m))
       [(''ImageRegistryAccount'', EnqueueRequestForObject)]]"

lemma runs_watch_all:
  "runs (watch_plan c ws) (\<lambda>r. r = None) (watch_all (recorded_manager m) c ws)"
proof (induction ws)
  case Nil
  then show ?case by (simp add: watch_plan_def runs_nothing)
next
  case (Cons w ws)
  then show ?case
    using runs_and_then [OF runs_recorded [of "MakeWatch c (fst w) (snd w)"] Cons]
    by (cases w) (simp add: watch_plan_def)
qed

lemma runs_controller:
  "runs (controller_plan c r ws) (\<lambda>r. r = None)
     (and_then (recorded (Pair (MakeController c r)) x) (watch_all (recorded_manager m) c ws))"
  using runs_and_then [OF runs_recorded [of "MakeController c r"] runs_watch_all]
  by (simp add: controller_plan_def)

lemma renew_root_silent: "reads_only snd (RenewRootCACertSecret ((lifted_certs m)\<lparr>rootCASecretName := n\<rparr>))"
proof -
  have eq: "(lifted_certs m)\<lparr>rootCASecretName := n\<rparr> = lifted_certs (m\<lparr>rootCASecretName := n\<rparr>)"
    by (simp add: lifted_certs_def)
  show ?thesis
    unfolding eq RenewRootCACertSecret_def
    by (auto intro!: reads_only_bind renewals_silent(1) split: outcome.split option.split)
qed

lemma runs_one_watch:
  "runs (controller_plan c r [(k, h)]) (\<lambda>r. r = None)
     (and_then (recorded (Pair (MakeController c r)) x) (recorded (Pair (MakeWatch c k h)) y))"
  using runs_and_then [OF runs_recorded [of "MakeController c r"] runs_recorded [of "MakeWatch c k h"]]
  by (simp add: controller_plan_def watch_plan_def)

lemma runs_caroot:
  "runs (MakeClient # controller_plan ''caroot-controller'' (caroot_reconciler m) (root_watches (root_name m)))
     (\<lambda>r. r = Returned None) (caroot_Add (recorded_manager m))"
proof -
  have "runs ([MakeClient] @ controller_plan ''caroot-controller'' (caroot_reconciler m) (root_watches (root_name m)))
     (\<lambda>r. r = Returned None) (caroot_Add (recorded_manager m))"
    unfolding caroot_Add_def
  proof (rule runs_bind)
    show "runs [MakeClient] (\<lambda>r. r = None) (m_NewClient (recorded_manager m))"
      by (simp add: runs_recorded)
  qed (auto simp: root_name_def root_watches_def caroot_reconciler_def intro!: runs_silent [OF renew_root_silent]
      runs_nothing(2) runs_returned [OF runs_one_watch] split: outcome.split option.split)
  then show ?thesis by simp
qed

lemma runs_imageregistry:
  "runs (controller_plan ''imageregistry-controller'' (registry_reconciler m) imageregistry_watches)
     (\<lambda>r. r = Returned None) (imageregistry_Add (recorded_manager m))"
  unfolding imageregistry_Add_def registry_reconciler_def
  by (auto intro: runs_nothing(2) runs_returned [OF runs_controller] split: outcome.split)

lemma runs_imagesecret:
  "runs (controller_plan c (secret_reconciler m conf) (secret_watches k conf))
     (\<lambda>r. r = Returned None) (imagesecret_Add (recorded_manager m) c k conf)"
proof -
  have "and_then (m_Watch (recorded_manager m) c k EnqueueRequestForObject)
      (WatchSecondaryResources (recorded_manager m) c k conf) =
      watch_all (recorded_manager m) c (secret_watches k conf)"
    by (simp add: WatchSecondaryResources_def secret_watches_def)
  then show ?thesis
    unfolding imagesecret_Add_def secret_reconciler_def
    by (auto simp del: watch_all.simps intro: runs_nothing(2) runs_returned [OF runs_controller]
        split: outcome.split)
qed

lemma runs_plans:
  "list_all2 (\<lambda>p f. runs p (\<lambda>r. r = Returned None) (f (recorded_manager m)))
     (controller_plans m) AddToManagerFuncs"
  unfolding controller_plans_def AddToManagerFuncs_def imagepullsecret_Add_def imagepushsecret_Add_def
  by (auto simp: imagebuildenv_Add_def imageregistryaccount_Add_def simp del: watch_all.simps
      intro!: runs_caroot runs_imageregistry runs_imagesecret runs_returned [OF runs_controller]
      runs_returned [OF runs_one_watch])

lemma runs_add_all:
  assumes "list_all2 (\<lambda>p f. runs p (\<lambda>r. r = Returned None) (f m)) plans fs"
  shows "runs (concat plans) (\<lambda>r. r = Returned None) (add_all fs m)"
  using assms
proof (induction plans fs rule: list_all2_induct)
  case Nil
  show ?case by (simp add: runs_nothing)
next
  case (Cons p plans f fs)
  show ?case
    unfolding concat.simps add_all.simps
    by (rule runs_bind [OF Cons(1)]) (auto simp: Cons.IH split: outcome.split option.split)
qed

subsection \<open>The process\<close>

lemma serve_metrics_silent: "reads_only snd (serve_metrics (recorded_process pr) n)"
  unfolding serve_metrics_def serveCRMetrics_def recorded_process_def
  by (auto intro!: reads_only_bind split: sum.split)

lemma runs_start_manager:
  "runs (concat (controller_plans (p_manager pr)) @ [StartManager])
     (\<lambda>r. r = Returned 0) (start_manager (recorded_process pr) n)"
  unfolding start_manager_def AddToManager_def recorded_process_simps
proof (rule runs_bind [OF runs_add_all [OF runs_plans]], goal_cases)
  case (1 r)
  have "runs [StartManager] (\<lambda>r. r = Returned 0)
      (exit_on_error (recorded (Pair StartManager) (p_Start pr)) (ret (Returned 0)))"
    by (rule runs_exit_on_error) (simp add: runs_nothing)
  with 1 show ?case by (auto intro: runs_silent [OF serve_metrics_silent])
next
  case (2 r)
  then show ?case by (auto split: outcome.split option.split)
qed

text \<open>The plan of the process.\<close>

definition startup_plan :: "('s, 'w) manager \<Rightarrow> 'w startup_step list" where
  "startup_plan m = [ReadNamespace, ReadConfig, BecomeLeader, MakeManager, RegisterAPIs, RegisterCertManager] @
     concat (controller_plans m) @ [StartManager]"

text \<open>
  C9. The operator starts in order, or not at all. Whatever the libraries and the API server
  answer, the calls of \<open>main\<close> and of the functions that add the controllers follow the plan:
  the process becomes the leader before it makes a manager; all six controllers are there when
  the manager starts, each with the reconciler of its kind, configured from the environment,
  and with all its watches; and each call is made only when all calls before have succeeded.
  The process ends with exit code 0 exactly when all the calls of the plan were made and
  succeeded; otherwise some of them were not made, or the last one made has failed. The
  metrics have no part in it.
\<close>

theorem startup_follows_plan:
  "wp (manager_main (recorded_process pr))
     (\<lambda>res (_, l). (res = Returned 0 \<longleftrightarrow> l = succeeded (startup_plan (p_manager pr))) \<and>
        (res = Returned 0 \<or> halted (startup_plan (p_manager pr)) l)) (s, [])"
proof -
  have "runs ([ReadNamespace] @ [ReadConfig, BecomeLeader, MakeManager, RegisterAPIs,
      RegisterCertManager] @ concat (controller_plans (p_manager pr)) @ [StartManager])
      (\<lambda>res. res = Returned 0) (manager_main (recorded_process pr))"
    unfolding manager_main_def
  proof (rule runs_bind)
    show "runs [ReadNamespace] (\<lambda>r. err_of r = None) (p_GetWatchNamespace (recorded_process pr))"
      by (simp add: runs_recorded_result)
  qed (auto intro!: runs_exit_on_error runs_start_manager split: sum.splits)
  then have "runs (startup_plan (p_manager pr)) (\<lambda>res. res = Returned 0) (manager_main (recorded_process pr))"
    by (simp add: startup_plan_def)
  from this [unfolded runs_def, rule_format, of "[]" s] show ?thesis
    by (rule wp_mono) (auto simp: follows_exactly)
qed

end
