(* ===== verification/RegistryPods.thy ===== *)
theory RegistryPods
  imports RegistryReadiness CaRoot
begin

text \<open>
  What the registry controller's objects are for: pods whose volumes and ports fit, a volume
  claim that outlives the registry when it should, and a TLS secret whose certificate is
  for the host name that clients get.
\<close>

subsection \<open>Pods\<close>

text \<open>
  What Kubernetes asks of a pod: containers and volumes have distinct names, every mount is
  of a volume of the pod, and no two ports are the same.
\<close>

definition well_formed_pod :: "PodSpec \<Rightarrow> bool" where
  "well_formed_pod p \<longleftrightarrow> distinct (map c_Name (Containers p)) \<and> distinct (map v_Name (Volumes p)) \<and>
     distinct (map cp_ContainerPort (concat (map c_Ports (Containers p)))) \<and>
     list_all (\<lambda>c. list_all (\<lambda>m. vm_Name m \<in> v_Name ` set (Volumes p)) (c_VolumeMounts c) \<and>
       distinct (map vm_MountPath (c_VolumeMounts c))) (Containers p)"

text \<open>
  C30. The pods of a registry are well formed, whatever the pod template was before: names
  and ports do not clash and every mount has its volume, with and without a configuration
  for the authenticator. The selector of the stateful set and of the service is the set of
  labels of the pods, the service's HTTPS port leads to a port of the pod, and the pod
  mounts the TLS secret whose name the status gives to clients.
\<close>

theorem pods_well_formed:
  "let sts' = updateStatefulSetForCR r cr sts; p = ss_PodSpec sts'; svc' = service_for_cr r cr svc in
     well_formed_pod p \<and> ss_Selector sts' = ss_TemplateLabels sts' \<and> svc_Selector svc' = ss_TemplateLabels sts' \<and>
     list_ex (\<lambda>q. sp_Port q = publicPortNginx \<and>
       list_ex (\<lambda>c. list_ex (\<lambda>t. cp_ContainerPort t = sp_TargetPort q) (c_Ports c)) (Containers p)) (svc_Ports svc') \<and>
     list_ex (\<lambda>v. v_Source v = VolSecret (tlsSecretNameForCR cr)) (Volumes p)"
proof -
  have "\<exists>q \<in> set (svc_Ports (service_for_cr r cr svc)). sp_Port q = publicPortNginx \<and> sp_TargetPort q = internalPortNginx"
    unfolding service_for_cr_def using AddServicePort_present by blast
  then have "list_ex (\<lambda>q. sp_Port q = publicPortNginx \<and> (internalPortNginx = sp_TargetPort q)) (svc_Ports (service_for_cr r cr svc))"
    by (auto simp: list_ex_iff)
  then show ?thesis
    by (cases "AuthConfigMapName cr")
      (auto simp: Let_def updateStatefulSetForCR_def well_formed_pod_def registry_container_def auth_container_def
        nginx_container_def registry_volumes_def auth_volume_mounts_def mount_def tcp_port_def service_for_cr_def
        internalPortRegistry_def internalPortAuth_def internalPortNginx_def list_ex_iff)
qed

subsection \<open>The volume claim\<close>

lemma map_get_annotate [simp]: "map_get (annotate k v a) k = v"
  by (cases a) (simp_all add: annotate_def)

lemma claim_annotation:
  "map_get (Annotations (claim_for_cr cr owner pvc)) annotationImageRegistry = ToMapValue (object_key cr)"
  by (simp add: claim_for_cr_def Let_def object_key_def)

lemma claim_references:
  "OwnerReferences (claim_for_cr cr owner pvc) = (if owner = None then [] else OwnerReferences pvc)"
  by (simp add: claim_for_cr_def Let_def split: option.split)

text \<open>
  C34. The volume claim of a registry belongs to the registry without being lost with it.
  Whatever claim is found, the one that is written has no owner reference when the registry
  says that the claim is to be kept, so deleting the registry does not delete the images;
  otherwise it has the registry as its controller. In both cases it has the registry's
  labels, and every event of the claim makes the controller look at this registry, whose name
  has no dot, as the name of its service has none.
\<close>

theorem claim_ownership:
  assumes "mappable (object_key cr)"
  shows "wp (upsert_callback r (if DeleteClaim (reg_PVC cr) then Some cr else None)
       (sets (claim_for_cr cr (if DeleteClaim (reg_PVC cr) then Some cr else None))) pvc cr)
     (\<lambda>res s'. \<forall>pvc' cr'. res = Returned (None, pvc', cr') \<longrightarrow>
        (if DeleteClaim (reg_PVC cr)
         then \<exists>x. SetControllerReference (reg_lib r) (kobject.truncate cr) x = Inr (OwnerReferences pvc')
         else OwnerReferences pvc' = []) \<and>
        Labels pvc' = selectorLabelsForCR cr \<and>
        Map pvcAnnotationToRequest (kobject.truncate pvc') = [object_key cr]) s"
proof -
  have "Map pvcAnnotationToRequest (kobject.truncate (claim_for_cr cr owner x)) = [object_key cr]" for owner x
    by (rule Map_ToMapValue [OF _ assms])
      (simp add: pvcAnnotationToRequest_def AnnotationToRequest_def kobject.defs claim_annotation)
  then show ?thesis
    by (auto simp: upsert_callback_def sets_def Let_def claim_references split: sum.split)
      (auto simp: claim_for_cr_def Let_def selectorLabelsForCR_def split: option.split)
qed

subsection \<open>The TLS secret\<close>

lemma dnsNames_hostname: "hd (dnsNamesForCR r cr) = RegistryHostname cr (reg_dnsZone r)"
  by (auto simp: dnsNamesForCR_def RegistryHostname_def serviceNameForCR_def Let_def)

lemma dnsNames_nonempty [simp]: "dnsNamesForCR r cr \<noteq> []"
  by (simp add: dnsNamesForCR_def Let_def)

text \<open>
  C27. Clients can trust a registry by its host name, when the operator makes its certificate.
  For a registry that names neither an issuer of cert-manager nor a TLS secret of its own, the
  secret that its status names holds, after the TLS task has succeeded, a server certificate
  whose first name, and common name, is the host name that image secrets give to clients, and
  it is not due for renewal by its names. For a registry that names a TLS secret, the status
  names this secret, and the task leaves everything as it is. What an issuer makes of the
  names it is asked for is not the operator's.
\<close>

theorem tls_secret_fits_hostname:
  assumes "renewal_world stored (reg_certManager r)"
    and "\<And>n. reads_only stored (Get (cm_secrets (reg_certManager r)) n)"
    and "\<And>k x. stored s k = Some x \<Longrightarrow> object_key x = k"
    and "cs_IssuerRef (reg_TLS cr) = None"
    and "run_state (reconcileTLSCert r cr) s = (Returned (None, cr'), s1)"
  shows "case cs_SecretName (reg_TLS cr) of
      Some n \<Rightarrow> tlsSecretNameForCR cr = n \<and> s1 = s
    | None \<Rightarrow> \<exists>x c. stored s1 (NN (Namespace cr) (tlsSecretNameForCR cr)) = Some x \<and>
        certFromMap (cm_crypto (reg_certManager r)) (Data x) = Returned (Some c) \<and>
        hd (DNSNames c) = RegistryHostname cr (reg_dnsZone r) \<and> \<not> condServerCert (dnsNamesForCR r cr) c"
proof (cases "cs_SecretName (reg_TLS cr)")
  case (Some n)
  with assms(4,5) show ?thesis by (auto simp: reconcileTLSCert_def tlsSecretNameForCR_def Let_def)
next
  case None
  let ?k = "NN (Namespace cr) (tlsSecretNameForCR cr)" and ?m = "reg_certManager r"
  obtain kp s2 where root: "run_state (RootCACert ?m) s = (Returned (Inr kp), s2)"
    and run: "run_state (do {
        c \<leftarrow> RenewServerCertSecret ?m ?k (Some (kobject.truncate cr)) (selectorLabelsForCR cr) (dnsNamesForCR r cr) (Some kp);
        ret (renewal_error cr c) }) s2 = (Returned (None, cr'), s1)"
    using assms(5) by (auto simp: reconcileTLSCert_def assms(4) None Let_def split: prod.splits outcome.splits sum.splits)
  have "reads_only stored (RootCACert ?m)"
    unfolding RootCACert_def KeyPair_of_def
    by (intro reads_only_bind assms(2)) (auto split: sum.split outcome.split option.split)
  from reads_only_run [OF this root] have s2: "stored s2 = stored s" .
  from run obtain c where server: "run_state (RenewServerCertSecret ?m ?k (Some (kobject.truncate cr))
      (selectorLabelsForCR cr) (dnsNamesForCR r cr) (Some kp)) s2 = (Returned (c, None), s1)"
    by (auto simp: renewal_error_def split: prod.splits outcome.splits)
  have "wp (RenewServerCertSecret ?m ?k (Some (kobject.truncate cr)) (selectorLabelsForCR cr) (dnsNamesForCR r cr) (Some kp))
     (\<lambda>res s'. \<forall>c. res = Returned (c, None) \<longrightarrow> (\<exists>d c' x. c = Some d \<and> c' \<in> {d, reread d} \<and> stored s' ?k = Some x \<and>
        cert_in_place ?m ?k (Some (kobject.truncate cr)) (selectorLabelsForCR cr) (condServerCert (dnsNamesForCR r cr)) c' x)) s2"
    unfolding RenewServerCertSecret_def
    by (rule server_profile.renewal_establishes [OF assms(1) refl]) (simp add: s2 assms(3))
  then obtain c' x where x: "stored s1 ?k = Some x"
    "cert_in_place ?m ?k (Some (kobject.truncate cr)) (selectorLabelsForCR cr) (condServerCert (dnsNamesForCR r cr)) c' x"
    by (simp add: wp_run [OF server]) blast
  then show ?thesis
    unfolding None option.case
    by (intro exI [of _ x] exI [of _ c']) (auto simp: cert_in_place_def condServerCert_def dnsNames_hostname)
qed

subsection \<open>A registry controller on the cluster\<close>

definition ready_first :: "Conditions \<Rightarrow> Condition list" where
  "ready_first C = (case C ConditionReady of None \<Rightarrow> [] | Some c \<Rightarrow> [c]) @
     (case C ConditionSynced of None \<Rightarrow> [] | Some c \<Rightarrow> [c])"

lemma ready_first_order: "order_contract ready_first"
  unfolding order_contract_def
proof (intro allI impI)
  fix m :: Conditions
  assume d: "dom m \<subseteq> {ConditionReady, ConditionSynced}" and k: "\<forall>k c. m k = Some c \<longrightarrow> CondType c = k"
  then have "ran m = set (ready_first m)"
    by (auto simp: ready_first_def ran_def split: option.splits)
  with k show "distinct (map CondType (ready_first m)) \<and> set (ready_first m) = ran m"
    by (auto simp: ready_first_def split: option.splits)
qed

definition cluster_registry :: "Certificate list \<Rightarrow> cluster ReconcileImageRegistry" where
  "cluster_registry certs = \<lparr>reg_crs = cluster_registries, up_Certificates = accepting,
     up_ServiceAccounts = accepting, up_Roles = accepting, up_RoleBindings = accepting,
     up_Services = accepting, up_StatefulSets = accepting, up_Claims = accepting, reg_lib = cluster_lib,
     reg_certManager = cluster_certs certs, condition_order = ready_first, reg_dnsZone = ''svc.cluster.local'',
     imageAuth = ''auth'', imageNginx = ''nginx'', imageRegistry = ''registry''\<rparr>"

text \<open>A registry with an authentication certificate of its own, in a cluster without a root
  certificate: the second task fails, and the status says so.\<close>

definition demo_own_registry :: ImageRegistry where
  "demo_own_registry = (new_ImageRegistry ''ns'' ''r'')\<lparr>
     AuthCA := \<lparr>cs_IssuerRef = None, cs_SecretName = Some ''ca''\<rparr>\<rparr>"

lemma demo_own_registry_simps:
  "cs_IssuerRef (AuthCA demo_own_registry) = None" "cs_SecretName (AuthCA demo_own_registry) = Some ''ca''"
  "cs_IssuerRef (reg_TLS demo_own_registry) = None" "cs_SecretName (reg_TLS demo_own_registry) = None"
  "Hostname demo_own_registry = []" "reg_Conditions demo_own_registry = Map.empty"
  by (simp_all add: demo_own_registry_def new_ImageRegistry_def no_cert_spec_def kobject.defs ImageRegistry.defs)

lemma demo_status_written:
  "\<exists>res cr e s l. run_state (RegistryWorkload.Reconcile (recorded_registry (cluster_registry [])) (NN ''ns'' ''r''))
     (empty_cluster\<lparr>all_registries := [NN ''ns'' ''r'' \<mapsto> demo_own_registry]\<rparr>, []) = (res, (s, l)) \<and>
     StatusWritten cr e \<in> set l"
  by (simp add: RegistryWorkload.Reconcile_def cluster_registry_def cluster_registries_def mem_client_def
      reconcileTasks_def reconcileTokenCert_def reconcileTLSCert_def demo_own_registry_simps Let_def
      RootCACert_def KeyPair_of_def cluster_certs_def cluster_secrets_def empty_cluster_def
      update_status_def sync_conditions_def cluster_lib_def externalHostnameForCR_def RegistryHostname_def
      recorded_registry_def lifted_upserter_def lifted_client_def lifted_certs_def ready_first_def
      same_condition_def)

lemma registry_status_witness:
  "\<exists>cr e err synced. run_state (RegistryWorkload.Reconcile (recorded_registry (cluster_registry [])) (NN ''ns'' ''r''))
     (empty_cluster\<lparr>all_registries := [NN ''ns'' ''r'' \<mapsto> demo_own_registry]\<rparr>, []) \<in>
       {(Returned (no_requeue, err), (s, l)) | s l. StatusWritten cr e \<in> set l} \<and>
     reg_Conditions cr ConditionSynced = Some synced \<and> Hostname cr = externalHostnameForCR (cluster_registry []) cr"
proof -
  obtain res cr e s l where run: "run_state (RegistryWorkload.Reconcile (recorded_registry (cluster_registry []))
      (NN ''ns'' ''r'')) (empty_cluster\<lparr>all_registries := [NN ''ns'' ''r'' \<mapsto> demo_own_registry]\<rparr>, []) = (res, (s, l))"
    and w: "StatusWritten cr e \<in> set l"
    using demo_status_written by blast
  have c: "condition_contract (reg_lib (cluster_registry []))" "order_contract (condition_order (cluster_registry []))"
    by (simp_all add: cluster_registry_def cluster_lib_contracts ready_first_order)
  have "(\<lambda>(s', l). \<forall>cr e. StatusWritten cr e \<in> set l \<longrightarrow>
      (\<exists>err. res = Returned (no_requeue, err) \<and> status_true (cluster_registry []) cr e err l)) (s, l)"
    using registry_status [OF c, of "NN ''ns'' ''r''"
      "empty_cluster\<lparr>all_registries := [NN ''ns'' ''r'' \<mapsto> demo_own_registry]\<rparr>"]
    unfolding wp_run [OF run] .
  with w obtain err where "res = Returned (no_requeue, err)" "status_true (cluster_registry []) cr e err l"
    by auto
  with run w show ?thesis unfolding status_true_def by blast
qed

lemma claim_ownership_witness:
  "wp (upsert_callback (cluster_registry []) None (sets (claim_for_cr (new_ImageRegistry ''ns'' ''r'') None))
       (new_Claim ''ns'' ''c'') (new_ImageRegistry ''ns'' ''r''))
     (\<lambda>res s'. \<forall>pvc' cr'. res = Returned (None, pvc', cr') \<longrightarrow> OwnerReferences pvc' = []) empty_cluster"
proof -
  have m: "mappable (object_key (new_ImageRegistry ''ns'' ''r''))"
    and d: "\<not> DeleteClaim (reg_PVC (new_ImageRegistry ''ns'' ''r''))"
    by (simp_all add: mappable_def object_key_def new_ImageRegistry_def new_kobject_def kobject.defs
        ImageRegistry.defs separator_def)
  show ?thesis
    using claim_ownership [OF m, of "cluster_registry []" "new_Claim ''ns'' ''c''" empty_cluster]
    unfolding if_not_P [OF d] by (rule wp_mono) simp
qed

definition demo_tls_registry :: "cluster ReconcileImageRegistry" where
  "demo_tls_registry = cluster_registry [ca_template rootCACommonName 0,
     server_template [''r.ns.svc.cluster.local'', ''r.ns.svc''] 0]"

lemma demo_tls_run:
  "\<exists>s. (\<forall>k x. all_secrets s k = Some x \<longrightarrow> object_key x = k) \<and>
     (\<exists>cr' s1. run_state (reconcileTLSCert demo_tls_registry demo_own_registry) s = (Returned (None, cr'), s1))"
proof -
  let ?root = "(new_secret ''op'' ''image-registry-root-ca'')\<lparr>Data :=
     Some [''ca.crt'' \<mapsto> ''C'', ''tls.crt'' \<mapsto> ''C'', ''tls.key'' \<mapsto> ''Kkey'']\<rparr>"
  let ?s = "empty_cluster\<lparr>all_secrets := [NN ''op'' ''image-registry-root-ca'' \<mapsto> ?root]\<rparr>"
  let ?m = "reg_certManager demo_tls_registry"
  obtain kp where root: "run_state (RootCACert ?m) ?s = (Returned (Inr kp), ?s)"
    by (simp add: demo_tls_registry_def cluster_registry_def RootCACert_def KeyPair_of_def cluster_certs_def
        cluster_secrets_def mem_client_def certFromMap_def X509KeyPair_def table_crypto_def secretKeyTLSKey_def
        secretKeyTLSCrt_def secretKeyCACrt_def map_get_def)
  have names: "dnsNamesForCR demo_tls_registry demo_own_registry = [''r.ns.svc.cluster.local'', ''r.ns.svc'']"
    and key: "NN (Namespace demo_own_registry) (tlsSecretNameForCR demo_own_registry) =
      NN ''ns'' ''imageregistry-r-selfsigned-tls''"
    by (simp_all add: dnsNamesForCR_def demo_tls_registry_def cluster_registry_def tlsSecretNameForCR_def
        demo_own_registry_simps) (simp_all add: demo_own_registry_def new_ImageRegistry_def kobject.defs)
  have "\<exists>c s1. run_state (RenewServerCertSecret ?m (NN ''ns'' ''imageregistry-r-selfsigned-tls'')
     (Some (kobject.truncate demo_own_registry)) (selectorLabelsForCR demo_own_registry)
     [''r.ns.svc.cluster.local'', ''r.ns.svc''] (Some kp)) ?s = (Returned (c, None), s1)"
    by (simp add: demo_tls_registry_def cluster_registry_def demo_run RenewServerCertSecret_def NewServerKeyPair_def
        cluster_lib_def OwnerReferences_truncate new_secret_def new_kobject_def Secret.defs kobject.defs)
  then have "\<exists>cr' s1. run_state (reconcileTLSCert demo_tls_registry demo_own_registry) ?s = (Returned (None, cr'), s1)"
    by (auto simp: reconcileTLSCert_def demo_own_registry_simps(3,4) Let_def root names key renewal_error_def)
  then show ?thesis
    by (intro exI [of _ ?s] conjI) (auto simp: empty_cluster_def object_key_def)
qed

lemma tls_secret_fits_hostname_witness:
  "\<exists>s s1 cr' x c. run_state (reconcileTLSCert demo_tls_registry demo_own_registry) s = (Returned (None, cr'), s1) \<and>
     all_secrets s1 (NN ''ns'' ''imageregistry-r-selfsigned-tls'') = Some x \<and>
     certFromMap (cm_crypto (reg_certManager demo_tls_registry)) (Data x) = Returned (Some c) \<and>
     hd (DNSNames c) = ''r.ns.svc.cluster.local''"
proof -
  obtain s cr' s1 where k: "\<And>k x. all_secrets s k = Some x \<Longrightarrow> object_key x = k"
    and run: "run_state (reconcileTLSCert demo_tls_registry demo_own_registry) s = (Returned (None, cr'), s1)"
    using demo_tls_run by blast
  have w: "renewal_world all_secrets (reg_certManager demo_tls_registry)"
    by (simp add: demo_tls_registry_def cluster_registry_def cluster_renewal_world)
  have g: "reads_only all_secrets (Get (cm_secrets (reg_certManager demo_tls_registry)) n)" for n
    by (simp add: demo_tls_registry_def cluster_registry_def cluster_certs_def cluster_secrets_def mem_client_def
        reads_only_def)
  have names: "NN (Namespace demo_own_registry) (tlsSecretNameForCR demo_own_registry) =
      NN ''ns'' ''imageregistry-r-selfsigned-tls''"
    by (simp add: tlsSecretNameForCR_def demo_own_registry_simps)
      (simp add: demo_own_registry_def new_ImageRegistry_def kobject.defs)
  have host: "RegistryHostname demo_own_registry (reg_dnsZone demo_tls_registry) = ''r.ns.svc.cluster.local''"
    by (simp add: RegistryHostname_def demo_own_registry_simps demo_tls_registry_def cluster_registry_def)
      (simp add: serviceNameForCR_def demo_own_registry_def new_ImageRegistry_def kobject.defs)
  from tls_secret_fits_hostname [OF w g k demo_own_registry_simps(3) run] run show ?thesis
    unfolding names host demo_own_registry_simps(4) option.case by blast
qed

end
