(* ===== verification/BuildEnvRefs.thy ===== *)
theory BuildEnvRefs
  imports BuildEnvReconciler Cluster
begin

text \<open>
  The input references of a build environment: \<open>UpdateReferences\<close> with the owner-reference
  strategy, on a server that answers, implements the assignment of a set of input secrets.
  The interface of \<open>RefHandler\<close> is interpreted on the model's own strategy and owner.
\<close>

subsection \<open>The interface on the model\<close>

lemma secretRefs_simps [simp]:
  "re_refs (secretRefs r) = env_secrets r" "re_owners (secretRefs r) = env_crs r"
  "re_add (secretRefs r) = AddReference" "re_del (secretRefs r) = DelReference"
  "re_get_status (secretRefs r) = GetStatusReferences" "re_set_status (secretRefs r) = SetStatusReferences"
  "re_key (secretRefs r) = object_key"
  by (simp_all add: secretRefs_def)

text \<open>A name that the API server accepts has no slash, so the keys of the handler identify a
  secret.\<close>

lemma refKey_secrets:
  "refKey (secretRefs r) x = ''*v1.Secret:'' @ Namespace x @ ''/'' @ Name x"
  by (simp add: refKey_def secretRefs_def object_key_def)

lemma SetStatusReferences_simps [simp]:
  "refers_to x (SetStatusReferences rs w) = refers_to x w"
  "refs_consistent x (SetStatusReferences rs w) = refs_consistent x w"
  "object_key (SetStatusReferences rs w) = object_key w"
  "Namespace (SetStatusReferences rs w) = Namespace w" "Name (SetStatusReferences rs w) = Name w"
  by (simp_all add: SetStatusReferences_def refers_to_def refs_consistent_def ref_equal_def object_key_def)


text \<open>A server that answers: the secrets it stores and the namespace and name of the owner.\<close>

abbreviation input_world ::
  "('s \<Rightarrow> NamespacedName \<rightharpoonup> Secret) \<Rightarrow> ('s \<Rightarrow> bool) \<Rightarrow> NamespacedName \<Rightarrow> 's ReconcileImageBuildEnv \<Rightarrow> bool" where
  "input_world stored consistent k r \<equiv>
     referenced_objects (secretRefs r) stored consistent refers_to refs_consistent k
       (\<lambda>n. nn_namespace n = nn_namespace k)"

lemma input_worldI:
  assumes "object_store (env_secrets r) stored consistent"
    and "\<And>(w :: ImageBuildEnv) s. consistent s \<Longrightarrow> object_key w = k \<Longrightarrow>
      \<exists>s'. run_state (StatusUpdate (env_crs r) w) s = ((None, w), s') \<and> stored s' = stored s \<and> consistent s'"
  shows "input_world stored consistent k r"
  unfolding referenced_objects_def referenced_objects_axioms_def
  using assms owner_refs.back_reference_strategy_axioms
  by (auto simp: refKey_secrets object_key_def)

text \<open>The controller on the cluster; it has no pods and forgets the services it is given.\<close>

definition cluster_build :: "codecs \<Rightarrow> cluster random \<Rightarrow> cluster ReconcileImageBuildEnv" where
  "cluster_build cd rnd = \<lparr>env_crs = cluster_envs, env_secrets = cluster_secrets,
     env_pods = mem_client (\<lambda>_. Map.empty) (\<lambda>_ s. s) (\<lambda>_ x. x),
     up_env_Secrets = mem_upserter cluster_secrets, up_env_Services = accepting,
     env_lib = cluster_lib, env_codecs = cd, env_random = rnd\<rparr>"

definition env_stored :: "NamespacedName \<Rightarrow> cluster \<Rightarrow> bool" where
  "env_stored k s \<longleftrightarrow> keyed (all_secrets s) \<and> all_envs s k \<noteq> None"

interpretation cluster_inputs: referenced_objects "secretRefs (cluster_build cd rnd)" all_secrets
  "env_stored k" refers_to refs_consistent k "\<lambda>n. nn_namespace n = nn_namespace k"
proof (rule input_worldI)
  have "object_store cluster_secrets all_secrets (\<lambda>s. keyed (all_secrets s) \<and> all_envs s k \<noteq> None)"
    unfolding cluster_secrets_def by (rule mem_client_store_with) simp_all
  then show "object_store (env_secrets (cluster_build cd rnd)) all_secrets (env_stored k)"
    by (simp add: cluster_build_def env_stored_def [abs_def])
  fix w :: ImageBuildEnv and s
  assume "env_stored k s" "object_key w = k"
  then show "\<exists>s'. run_state (StatusUpdate (env_crs (cluster_build cd rnd)) w) s = ((None, w), s') \<and>
      all_secrets s' = all_secrets s \<and> env_stored k s'"
    by (auto simp: cluster_build_def cluster_envs_def mem_client_def env_stored_def)
qed

subsection \<open>The references of an environment\<close>

text \<open>
  The abstract state of an environment: the secrets it lists in its status, and those that
  refer to it. The abstract operation assigns a new set of inputs. An object that refers to
  the environment without being listed (a secret that it owns) is not touched.
\<close>

record reference_state =
  listed :: "NamespacedName set"
  referring_keys :: "NamespacedName set"

definition abs_refs :: "(NamespacedName \<rightharpoonup> Secret) \<Rightarrow> ImageBuildEnv \<Rightarrow> reference_state" where
  "abs_refs m cr = \<lparr>listed = object_key ` set (GetStatusReferences cr),
     referring_keys = {k. \<exists>x. m k = Some x \<and> refers_to x cr}\<rparr>"

definition assign_refs :: "NamespacedName set \<Rightarrow> reference_state \<Rightarrow> reference_state" where
  "assign_refs n a = \<lparr>listed = n, referring_keys = referring_keys a - listed a \<union> n\<rparr>"

text \<open>The state from which references are updated: the references in the owner's namespace
  are consistent.\<close>

definition refs_sane :: "(NamespacedName \<rightharpoonup> Secret) \<Rightarrow> ImageBuildEnv \<Rightarrow> bool" where
  "refs_sane m cr \<longleftrightarrow> (\<forall>k x. nn_namespace k = Namespace cr \<longrightarrow> m k = Some x \<longrightarrow> refs_consistent x cr)"

lemma listed_status: "object_key ` set (GetStatusReferences cr) = NN (Namespace cr) ` set (SecretRefs cr)"
  by (auto simp: GetStatusReferences_def object_key_def image_image)

lemma status_of_inputs:
  assumes "\<forall>x \<in> set refs. nn_namespace (object_key x) = Namespace cr"
  shows "NN (Namespace cr) ` Name ` set refs = object_key ` set refs"
  using assms by (auto simp: object_key_def image_image image_iff)

lemma refKeys_secrets:
  assumes "\<forall>x \<in> set xs \<union> set ys. Namespace x = ns"
    and "refKeys (secretRefs r) xs = refKeys (secretRefs r) ys"
  shows "object_key ` set xs = object_key ` set ys"
proof -
  let ?f = "\<lambda>n. ''*v1.Secret:'' @ ns @ ''/'' @ n"
  have "refKeys (secretRefs r) zs = ?f ` Name ` set zs" "object_key ` set zs = NN ns ` Name ` set zs"
    if "\<forall>x \<in> set zs. Namespace x = ns" for zs
    using that by (auto simp: refKeys_def refKey_secrets object_key_def image_image image_iff)
  with assms have "?f ` Name ` set xs = ?f ` Name ` set ys" by auto
  then have "Name ` set xs = Name ` set ys"
    by (simp add: inj_image_eq_iff inj_def)
  then show ?thesis
    using assms(1) \<open>\<And>zs. \<forall>x \<in> set zs. Namespace x = ns \<Longrightarrow> object_key ` set zs = NN ns ` Name ` set zs\<close> by auto
qed

lemma update_inputs:
  assumes "input_world stored consistent k r" "consistent s" "object_key cr = k" "refs_sane (stored s) cr"
    and "distinct (map object_key refs)" "\<forall>x \<in> set refs. stored s (object_key x) = Some x"
    and "\<forall>x \<in> set refs. nn_namespace (object_key x) = Namespace cr"
  shows "wp (UpdateReferences (secretRefs r) cr refs) (\<lambda>res s'. \<exists>cr' rs. res = Returned (None, cr', rs) \<and>
      cr' \<in> {cr, SetStatusReferences refs cr} \<and>
      abs_refs (stored s') cr' = assign_refs (object_key ` set refs) (abs_refs (stored s) cr) \<and>
      list_all2 (\<lambda>x y. \<exists>b. AddReference x cr' = Returned (b, y)) refs rs \<and> consistent s' \<and>
      refs_sane (stored s') cr') s"
proof -
  have ns: "nn_namespace k = Namespace cr" using assms(3) by (auto simp: object_key_def)
  have f: "referenced_objects.fine stored consistent refs_consistent k (\<lambda>n. nn_namespace n = nn_namespace k) w s' \<longleftrightarrow>
      consistent s' \<and> object_key w = k \<and> refs_sane (stored s') w" if "Namespace w = Namespace cr" for w s'
    unfolding referenced_objects.fine_def [OF assms(1)] unfolding refs_sane_def that ns by auto
  have keys: "\<forall>x \<in> set (GetStatusReferences cr) \<union> set refs. nn_namespace (object_key x) = nn_namespace k"
    using assms(7) by (auto simp: ns GetStatusReferences_def object_key_def)
  have same: "object_key ` set (GetStatusReferences cr) = object_key ` set refs"
    if "refKeys (secretRefs r) (GetStatusReferences cr) = refKeys (secretRefs r) refs"
    using that keys by (intro refKeys_secrets) (auto simp: ns object_key_def)
  have status: "object_key ` set (GetStatusReferences (SetStatusReferences refs cr)) = object_key ` set refs"
    using status_of_inputs [OF assms(7)] by (simp add: listed_status) (simp add: SetStatusReferences_def)
  have "fine cr s" if "fine = referenced_objects.fine stored consistent refs_consistent k
      (\<lambda>n. nn_namespace n = nn_namespace k)" for fine
    using that f [of cr s] assms(2-4) by simp
  from referenced_objects.update_references [OF assms(1) this [OF refl] assms(5,6), unfolded secretRefs_simps, OF keys]
  show ?thesis
  proof (rule wp_mono, elim exE conjE)
    fix res s' w' rs
    assume res: "res = Returned (None, w', rs)"
      and ref: "referenced_objects.referring stored refers_to cr s' =
        referenced_objects.referring stored refers_to cr s - object_key ` set (GetStatusReferences cr) \<union> object_key ` set refs"
      and fine: "referenced_objects.fine stored consistent refs_consistent k (\<lambda>n. nn_namespace n = nn_namespace k) cr s'"
      and rs: "list_all2 (\<lambda>x y. \<exists>b. AddReference x w' = Returned (b, y)) refs rs"
      and w': "w' = (if refKeys (secretRefs r) (GetStatusReferences cr) = refKeys (secretRefs r) refs then cr
        else SetStatusReferences refs cr)"
    have "abs_refs (stored s') w' = assign_refs (object_key ` set refs) (abs_refs (stored s) cr)"
      using ref w' same status
      by (auto simp: abs_refs_def assign_refs_def referenced_objects.referring_def [OF assms(1)] split: if_splits)
    moreover have "consistent s'" "refs_sane (stored s') w'"
      using fine w' f [of cr s'] by (auto simp: refs_sane_def split: if_splits)
    ultimately show "\<exists>cr' rs. res = Returned (None, cr', rs) \<and> cr' \<in> {cr, SetStatusReferences refs cr} \<and>
      abs_refs (stored s') cr' = assign_refs (object_key ` set refs) (abs_refs (stored s) cr) \<and>
      list_all2 (\<lambda>x y. \<exists>b. AddReference x cr' = Returned (b, y)) refs rs \<and> consistent s' \<and>
      refs_sane (stored s') cr'"
      using res rs w' by auto
  qed
qed

text \<open>Reading the inputs.\<close>

lemma load_inputs:
  assumes "object_store (env_secrets r) stored consistent"
  shows "wp (load_secrets r ns names) (\<lambda>res s'. s' = s \<and> (case res of
      Inl e \<Rightarrow> IsNotFound e \<and> (\<exists>n \<in> set names. stored s (NN ns n) = None)
    | Inr secrets \<Rightarrow> list_all2 (\<lambda>n x. stored s (NN ns n) = Some x) names secrets)) s"
proof (induction names)
  case Nil
  then show ?case by simp
next
  case (Cons n names)
  show ?case
    unfolding load_secrets.simps wp_bind
  proof (rule object_store.wp_Get [OF assms], goal_cases)
    case (1 x)
    show ?case
      by (simp, rule wp_mono [OF Cons.IH]) (auto simp: 1 split: sum.splits)
  next
    case (2 e)
    then show ?case by simp
  qed
qed

lemma input_world_store: "input_world stored consistent k r \<Longrightarrow> object_store (env_secrets r) stored consistent"
  by (simp add: referenced_objects_def)

lemma inputs_found:
  assumes "object_store (env_secrets r) stored consistent" "consistent s"
    and "list_all2 (\<lambda>n x. stored s (NN ns n) = Some x) names refs"
  shows "map object_key refs = map (NN ns) names" "\<forall>x \<in> set refs. stored s (object_key x) = Some x"
proof -
  have k: "object_key x = NN ns n" if "stored s (NN ns n) = Some x" for n x
    using object_store.stored_key [OF assms(1,2) that] .
  show "map object_key refs = map (NN ns) names"
    using assms(3) k by (induction rule: list_all2_induct) auto
  show "\<forall>x \<in> set refs. stored s (object_key x) = Some x"
    using assms(3) k by (induction rule: list_all2_induct) auto
qed

text \<open>
  C21. The handler of back references implements the assignment of a set. On a server that
  answers, \<open>UpdateReferences\<close> with the input secrets of an environment returns without an
  error and moves the abstract state exactly as the assignment does: the status lists the
  inputs, every input refers to the environment, and of the other secrets those that the
  status listed before do not refer to it any more while all others are as they were. The
  inputs exist and are listed once each, and the owner references that secrets have at the
  start are consistent (\<open>refs_sane\<close>), as the server keeps them: at most one is to the
  environment, and with its UID.
\<close>

theorem env_references_refine:
  assumes "input_world stored consistent k r" "consistent s" "object_key cr = k" "refs_sane (stored s) cr"
    and "distinct (env_Secrets cr)"
    and "list_all2 (\<lambda>n x. stored s (NN (Namespace cr) n) = Some x) (env_Secrets cr) refs"
  shows "wp (UpdateReferences (secretRefs r) cr refs) (\<lambda>res s'. \<exists>cr' rs. res = Returned (None, cr', rs) \<and>
      abs_refs (stored s') cr' =
        assign_refs (NN (Namespace cr) ` set (env_Secrets cr)) (abs_refs (stored s) cr)) s"
proof -
  note found = inputs_found [OF input_world_store [OF assms(1)] assms(2,6)]
  have keys: "object_key ` set refs = NN (Namespace cr) ` set (env_Secrets cr)"
    using arg_cong [OF found(1), of set] by simp
  have "distinct (map object_key refs)"
    using assms(5) by (simp add: found(1) distinct_map inj_on_def)
  moreover have "\<forall>x \<in> set refs. nn_namespace (object_key x) = Namespace cr"
    using keys by (metis imageE imageI NamespacedName.sel(1))
  ultimately show ?thesis
    using update_inputs [OF assms(1-4) _ found(2)] by (auto simp: keys elim!: wp_mono)
qed

text \<open>
  C32. A deleted environment leaves no reference behind. Reconciling an environment that is
  being deleted, on a server that answers, returns without requeuing, and afterwards of the
  secrets that referred to the environment those that its status lists no longer do.
\<close>

theorem finalized_env_unreferenced:
  assumes "input_world stored consistent k r" "consistent s" "object_key cr = k" "refs_sane (stored s) cr"
    and "run_state (Get (env_crs r) k) s = (Inr cr, s)"
    and "\<not> IsZero (DeletionTimestamp cr)" "HasFinalizer cr finalizer"
    and "\<And>w. reads_only stored (Update (env_crs r) w)"
  shows "wp (BuildEnvReconciler.Reconcile r k) (\<lambda>res s'. \<exists>err. res = Returned (no_requeue, err) \<and>
      (\<forall>n x. stored s' n = Some x \<and> refers_to x cr \<longrightarrow> (\<exists>y. stored s n = Some y \<and> refers_to y cr) \<and>
        n \<notin> NN (Namespace cr) ` set (SecretRefs cr))) s"
proof -
  have "wp (finalize_env r cr) (\<lambda>res s'. \<exists>err. res = Returned (no_requeue, err) \<and>
      (\<forall>n x. stored s' n = Some x \<and> refers_to x cr \<longrightarrow> (\<exists>y. stored s n = Some y \<and> refers_to y cr) \<and>
        n \<notin> NN (Namespace cr) ` set (SecretRefs cr))) s"
    unfolding finalize_env_def wp_bind if_P [OF assms(7)]
  proof (rule wp_mono [OF update_inputs [OF assms(1-4)]], goal_cases)
    case (4 res s')
    then obtain cr' rs where res: "res = Returned (None, cr', rs)" "cr' \<in> {cr, SetStatusReferences [] cr}"
      and a: "abs_refs (stored s') cr' = assign_refs {} (abs_refs (stored s) cr)"
      by auto
    have "{n. \<exists>x. stored s' n = Some x \<and> refers_to x cr} =
        {n. \<exists>x. stored s n = Some x \<and> refers_to x cr} - NN (Namespace cr) ` set (SecretRefs cr)"
      using a res(2) by (elim insertE emptyE) (simp_all add: abs_refs_def assign_refs_def listed_status)
    then show ?case
      using res(1) by (auto intro!: wp_reads_only [OF assms(8)] simp: set_eq_iff)
  qed simp_all
  then show ?thesis
    using assms(6) by (simp add: BuildEnvReconciler.Reconcile_def wp_run [OF assms(5)])
qed

subsection \<open>Witnesses\<close>

text \<open>An environment that lists the secret \<open>new\<close> as input, and \<open>old\<close> in its status.\<close>

definition demo_env :: ImageBuildEnv where
  "demo_env = kobject.extend (new_kobject\<lparr>APIVersion := ''v1'', Kind := ''ImageBuildEnv'', Namespace := ''ns'',
     Name := ''e'', UID := ''u1'', Finalizers := [finalizer]\<rparr>)
     (ImageBuildEnv.fields False [''new''] 0 Map.empty [''old''])"

lemma demo_env_simps [simp]:
  "APIVersion demo_env = ''v1''" "Kind demo_env = ''ImageBuildEnv''" "Namespace demo_env = ''ns''"
  "Name demo_env = ''e''" "UID demo_env = ''u1''" "Finalizers demo_env = [finalizer]"
  "DeletionTimestamp demo_env = None" "env_Redis demo_env = False"
  "env_Secrets demo_env = [''new'']" "SecretRefs demo_env = [''old'']" "env_Conditions demo_env = Map.empty"
  by (simp_all add: demo_env_def new_kobject_def kobject.defs ImageBuildEnv.defs)

definition demo_env_cluster :: "ImageBuildEnv \<Rightarrow> cluster" where
  "demo_env_cluster cr = empty_cluster\<lparr>all_envs := [NN ''ns'' ''e'' \<mapsto> cr],
     all_secrets := [NN ''ns'' ''old'' \<mapsto> (new_secret ''ns'' ''old'')\<lparr>OwnerReferences := [owner_ref demo_env]\<rparr>,
       NN ''ns'' ''new'' \<mapsto> new_secret ''ns'' ''new'']\<rparr>"

definition demo_build :: "cluster ReconcileImageBuildEnv" where
  "demo_build = cluster_build strict_codecs cluster_random"

lemma demo_input_world: "input_world all_secrets (env_stored k) k demo_build"
  unfolding demo_build_def by (rule cluster_inputs.referenced_objects_axioms)

lemma demo_env_cluster_ok:
  "env_stored (NN ''ns'' ''e'') (demo_env_cluster cr)"
  "APIVersion cr = ''v1'' \<Longrightarrow> Kind cr = ''ImageBuildEnv'' \<Longrightarrow> Namespace cr = ''ns'' \<Longrightarrow> Name cr = ''e'' \<Longrightarrow>
   UID cr = ''u1'' \<Longrightarrow> refs_sane (all_secrets (demo_env_cluster cr)) cr"
  by (auto simp: demo_env_cluster_def env_stored_def keyed_def object_key_def refs_sane_def refs_consistent_def
      ref_equal_def owner_ref_def)

lemma env_references_refine_witness:
  "wp (UpdateReferences (secretRefs demo_build) demo_env [new_secret ''ns'' ''new''])
     (\<lambda>res s'. \<exists>cr' rs. res = Returned (None, cr', rs) \<and>
        referring_keys (abs_refs (all_secrets s') cr') = {NN ''ns'' ''new''}) (demo_env_cluster demo_env)"
proof -
  have "list_all2 (\<lambda>n x. all_secrets (demo_env_cluster demo_env) (NN (Namespace demo_env) n) = Some x)
      (env_Secrets demo_env) [new_secret ''ns'' ''new'']"
    by (simp add: demo_env_cluster_def)
  moreover have "referring_keys (abs_refs (all_secrets (demo_env_cluster demo_env)) demo_env) = {NN ''ns'' ''old''}"
    by (auto simp: abs_refs_def demo_env_cluster_def refers_to_def owner_ref_def split: if_splits)
  moreover have "listed (abs_refs m demo_env) = {NN ''ns'' ''old''}" for m
    by (simp add: abs_refs_def listed_status)
  ultimately show ?thesis
    using env_references_refine [OF demo_input_world demo_env_cluster_ok(1) _ demo_env_cluster_ok(2),
        of demo_env "[new_secret ''ns'' ''new'']"]
    by (auto simp: object_key_def assign_refs_def elim!: wp_mono)
qed

lemma finalized_env_unreferenced_witness:
  "wp (BuildEnvReconciler.Reconcile demo_build (NN ''ns'' ''e''))
     (\<lambda>res s'. \<forall>x. all_secrets s' (NN ''ns'' ''old'') = Some x \<longrightarrow> \<not> refers_to x demo_env)
     (demo_env_cluster (demo_env\<lparr>DeletionTimestamp := Some 5\<rparr>))"
proof -
  let ?cr = "demo_env\<lparr>DeletionTimestamp := Some 5\<rparr>"
  have g: "run_state (Get (env_crs demo_build) (NN ''ns'' ''e'')) (demo_env_cluster ?cr) = (Inr ?cr, demo_env_cluster ?cr)"
    by (simp add: demo_build_def cluster_build_def cluster_envs_def mem_client_def demo_env_cluster_def)
  have u: "reads_only all_secrets (Update (env_crs demo_build) w)" for w
    by (auto simp: reads_only_def demo_build_def cluster_build_def cluster_envs_def mem_client_def split: option.split)
  have "refers_to x ?cr \<longleftrightarrow> refers_to x demo_env" for x :: Secret
    by (simp add: refers_to_def)
  then show ?thesis
    using finalized_env_unreferenced [OF demo_input_world demo_env_cluster_ok(1) _ demo_env_cluster_ok(2) g _ _ u]
    by (auto simp: object_key_def zero_time_def elim!: wp_mono)
qed

end
