(* ===== verification/WatchedObjects.thy ===== *)
theory WatchedObjects
  imports Startup RegistryPods BuildEnvRefs SecretProtocol
begin

text \<open>
  The watches close the loops: the events of the objects that a controller writes, or whose
  changes it must see, make it look at the resource they were written for. The handlers of
  controller-runtime are a parameter with their documented behaviour as the contract.
\<close>

subsection \<open>Events and requests\<close>

definition SchemeGroupVersion :: string where
  "SchemeGroupVersion = ''registry.mgoltzsche.github.com/v1alpha1''"

text \<open>
  What an event handler requests. The handler for owners compares the kind and the API group
  of the owner's type with those of the references, and the owner is in the namespace of the
  object; an object has at most one controller.
\<close>

definition handler_contract :: "(handler \<Rightarrow> kobject \<Rightarrow> NamespacedName list) \<Rightarrow> bool" where
  "handler_contract rq \<longleftrightarrow>
     (\<forall>x. set (rq EnqueueRequestForObject x) = {object_key x}) \<and>
     (\<forall>f x. set (rq (EnqueueRequestsFromMapFunc f) x) = set (f x)) \<and>
     (\<forall>isController kind x ref. ref \<in> set (OwnerReferences x) \<longrightarrow>
        or_Kind ref = kind \<longrightarrow> or_APIVersion ref = SchemeGroupVersion \<longrightarrow>
        (isController \<longrightarrow> or_Controller ref = Some True \<and>
           (\<forall>ref' \<in> set (OwnerReferences x). or_Controller ref' = Some True \<longrightarrow> ref' = ref)) \<longrightarrow>
        NN (Namespace x) (or_Name ref) \<in> set (rq (EnqueueRequestForOwner isController kind) x))"

definition events_request ::
  "(handler \<Rightarrow> kobject \<Rightarrow> NamespacedName list) \<Rightarrow> watch list \<Rightarrow> string \<Rightarrow> 'a kobject_scheme \<Rightarrow> NamespacedName set" where
  "events_request rq ws kind x =
     (\<Union>(k, h) \<in> set ws. if k = kind then set (rq h (kobject.truncate x)) else {})"

text \<open>An owner of a type of this API, and what \<open>SetControllerReference\<close> makes it.\<close>

definition typed :: "string \<Rightarrow> 'a kobject_scheme \<Rightarrow> bool" where
  "typed kind x \<longleftrightarrow> Kind x = kind \<and> APIVersion x = SchemeGroupVersion"

definition sole_controller :: "'b kobject_scheme \<Rightarrow> OwnerReference list \<Rightarrow> bool" where
  "sole_controller owner refs \<longleftrightarrow> (\<exists>ref \<in> set refs. or_Kind ref = Kind owner \<and>
     or_APIVersion ref = APIVersion owner \<and> or_Name ref = Name owner \<and> or_Controller ref = Some True \<and>
     (\<forall>ref' \<in> set refs. or_Controller ref' = Some True \<longrightarrow> ref' = ref))"

definition ownership_contract :: "('s, 'z) kube_lib_scheme \<Rightarrow> bool" where
  "ownership_contract klib \<longleftrightarrow> (\<forall>owner x refs.
     SetControllerReference klib owner x = Inr refs \<longrightarrow> sole_controller owner refs)"

lemma events_requestI:
  assumes "(kind, h) \<in> set ws" "k \<in> set (rq h (kobject.truncate x))"
  shows "k \<in> events_request rq ws kind x"
  unfolding events_request_def by (rule UN_I [OF assms(1)]) (simp add: assms(2))

lemma truncate_simps [simp]:
  "OwnerReferences (kobject.truncate x) = OwnerReferences x" "Namespace (kobject.truncate x) = Namespace x"
  "Name (kobject.truncate x) = Name x" "Kind (kobject.truncate x) = Kind x"
  "APIVersion (kobject.truncate x) = APIVersion x" "Labels (kobject.truncate x) = Labels x"
  "Annotations (kobject.truncate x) = Annotations x" "object_key (kobject.truncate x) = object_key x"
  by (simp_all add: kobject.defs object_key_def)

lemma sole_controller_truncate [simp]: "sole_controller (kobject.truncate x) refs = sole_controller x refs"
  by (simp add: sole_controller_def)

lemma ownership:
  "ownership_contract klib \<Longrightarrow> SetControllerReference klib (kobject.truncate owner) x = Inr refs \<Longrightarrow>
   sole_controller owner refs"
  using sole_controller_truncate [of owner] unfolding ownership_contract_def by metis

lemma controlled_requests:
  assumes "handler_contract rq" "(kind, EnqueueRequestForOwner True ownerKind) \<in> set ws"
    and "typed ownerKind owner" "sole_controller owner (OwnerReferences x)" "Namespace x = Namespace owner"
  shows "object_key owner \<in> events_request rq ws kind x"
proof -
  from assms(4) obtain ref where "ref \<in> set (OwnerReferences x)" "or_Kind ref = Kind owner"
    "or_APIVersion ref = APIVersion owner" "or_Name ref = Name owner" "or_Controller ref = Some True"
    "\<forall>ref' \<in> set (OwnerReferences x). or_Controller ref' = Some True \<longrightarrow> ref' = ref"
    unfolding sole_controller_def by blast
  then have "NN (Namespace x) (or_Name ref) \<in> set (rq (EnqueueRequestForOwner True ownerKind) (kobject.truncate x))"
    using assms(1,3) unfolding handler_contract_def typed_def truncate_simps
    by (metis truncate_simps(1,2))
  with \<open>or_Name ref = Name owner\<close> assms(2,5) show ?thesis
    by (auto simp: object_key_def intro: events_requestI)
qed

text \<open>A computation that adds only events of a kind to the log.\<close>

definition logging :: "('e \<Rightarrow> bool) \<Rightarrow> ('s \<times> 'e list, 'a) state \<Rightarrow> bool" where
  "logging ok m \<longleftrightarrow> (\<forall>s l. list_all ok l \<longrightarrow> wp m (\<lambda>_ (_, l'). list_all ok l') (s, l))"

lemma logging_bind: "logging ok m \<Longrightarrow> (\<And>a. logging ok (f a)) \<Longrightarrow> logging ok (State_Monad.bind m f)"
  unfolding logging_def wp_bind by (blast intro: wp_mono)

lemma logging_silent: "reads_only snd m \<Longrightarrow> logging ok m"
  unfolding logging_def by (auto intro: wp_silent)

lemma logging_ret [simp]: "logging ok (ret a)"
  by (simp add: logging_def)

lemma logging_recorded: "(\<And>a. ok (ev a)) \<Longrightarrow> logging ok (recorded ev m)"
  by (auto simp: logging_def intro: wp_recordedI)

subsection \<open>The registry\<close>

text \<open>The objects that the registry controller writes, with their kinds.\<close>

type_synonym written = "string \<times> kobject"

definition watched :: "string \<Rightarrow> ('a kobject_scheme, 's) upserter \<Rightarrow> ('a kobject_scheme, 's \<times> written list) upserter" where
  "watched kind = recorded_upserter (\<lambda>x _. (kind, kobject.truncate x))"

definition watched_certs :: "'s CertManager \<Rightarrow> ('s \<times> written list) CertManager" where
  "watched_certs m = (lifted_certs m)\<lparr>cm_upsert := watched ''Secret'' (cm_upsert m)\<rparr>"

definition watched_registry :: "'s ReconcileImageRegistry \<Rightarrow> ('s \<times> written list) ReconcileImageRegistry" where
  "watched_registry r = \<lparr>
     reg_crs = lifted_client (reg_crs r), up_Certificates = watched ''Certificate'' (up_Certificates r),
     up_ServiceAccounts = watched ''ServiceAccount'' (up_ServiceAccounts r), up_Roles = watched ''Role'' (up_Roles r),
     up_RoleBindings = watched ''RoleBinding'' (up_RoleBindings r), up_Services = watched ''Service'' (up_Services r),
     up_StatefulSets = watched ''StatefulSet'' (up_StatefulSets r),
     up_Claims = watched ''PersistentVolumeClaim'' (up_Claims r),
     reg_lib = recorded_lib (reg_lib r), reg_certManager = watched_certs (reg_certManager r),
     condition_order = condition_order r, reg_dnsZone = reg_dnsZone r,
     imageAuth = imageAuth r, imageNginx = imageNginx r, imageRegistry = imageRegistry r\<rparr>"

lemma watched_registry_simps [simp]:
  "reg_crs (watched_registry r) = lifted_client (reg_crs r)"
  "up_Certificates (watched_registry r) = watched ''Certificate'' (up_Certificates r)"
  "up_ServiceAccounts (watched_registry r) = watched ''ServiceAccount'' (up_ServiceAccounts r)"
  "up_Roles (watched_registry r) = watched ''Role'' (up_Roles r)"
  "up_RoleBindings (watched_registry r) = watched ''RoleBinding'' (up_RoleBindings r)"
  "up_Services (watched_registry r) = watched ''Service'' (up_Services r)"
  "up_StatefulSets (watched_registry r) = watched ''StatefulSet'' (up_StatefulSets r)"
  "up_Claims (watched_registry r) = watched ''PersistentVolumeClaim'' (up_Claims r)"
  "reg_lib (watched_registry r) = recorded_lib (reg_lib r)"
  "reg_certManager (watched_registry r) = watched_certs (reg_certManager r)"
  "condition_order (watched_registry r) = condition_order r"
  by (simp_all add: watched_registry_def)

text \<open>An upserter that fetches the object it was asked for, and a registry with such upserters
  of all kinds.\<close>

definition fetches_asked :: "('a kobject_scheme, 's) upserter \<Rightarrow> bool" where
  "fetches_asked u \<longleftrightarrow> (\<forall>x s. wp (up_fetch u x) (\<lambda>f _. fst f = None \<longrightarrow> object_key (snd f) = object_key x) s)"

definition registry_server :: "'s ReconcileImageRegistry \<Rightarrow> bool" where
  "registry_server r \<longleftrightarrow> fetches_asked (up_Certificates r) \<and> fetches_asked (up_ServiceAccounts r) \<and>
     fetches_asked (up_Roles r) \<and> fetches_asked (up_RoleBindings r) \<and> fetches_asked (up_Services r) \<and>
     fetches_asked (up_StatefulSets r) \<and> fetches_asked (up_Claims r) \<and>
     fetches_asked (cm_upsert (reg_certManager r)) \<and>
     ownership_contract (reg_lib r) \<and> ownership_contract (cm_lib (reg_certManager r))"

text \<open>Certificates are not watched; the events of all other objects that are written return.\<close>

definition event_returns ::
  "(handler \<Rightarrow> kobject \<Rightarrow> NamespacedName list) \<Rightarrow> NamespacedName \<Rightarrow> written \<Rightarrow> bool" where
  "event_returns rq k = (\<lambda>(kind, x). kind = ''Certificate'' \<or> k \<in> events_request rq imageregistry_watches kind x)"

abbreviation returns :: "(handler \<Rightarrow> kobject \<Rightarrow> NamespacedName list) \<Rightarrow> NamespacedName \<Rightarrow> written list \<Rightarrow> bool" where
  "returns rq k \<equiv> list_all (event_returns rq k)"

lemma owned_returns:
  assumes "handler_contract rq" "typed ''ImageRegistry'' cr" "sole_controller cr (OwnerReferences x)"
    and "Namespace x = Namespace cr"
    and "kind \<in> {''Certificate'', ''StatefulSet'', ''Service'', ''Secret'', ''ServiceAccount'', ''Role'', ''RoleBinding''}"
  shows "returns rq (object_key cr) [(kind, kobject.truncate x)]"
proof (cases "kind = ''Certificate''")
  case False
  with assms(5) have "(kind, EnqueueRequestForOwner True ''ImageRegistry'') \<in> set imageregistry_watches"
    by (auto simp: imageregistry_watches_def)
  from controlled_requests [OF assms(1) this assms(2), of "kobject.truncate x"] assms(3,4)
  show ?thesis by (simp add: event_returns_def)
qed (simp add: event_returns_def)

text \<open>What a task may write for a registry.\<close>

abbreviation returning ::
  "(handler \<Rightarrow> kobject \<Rightarrow> NamespacedName list) \<Rightarrow> NamespacedName \<Rightarrow> ('s \<times> written list, 'a) state \<Rightarrow> bool" where
  "returning rq k \<equiv> logging (event_returns rq k)"

text \<open>Create or update with a callback that is silent and yields, when it succeeds, an object
  whose events return.\<close>

lemma returning_upsert:
  assumes "fetches_asked u"
    and "\<And>y s l. object_key y = object_key x \<Longrightarrow> returns rq k l \<Longrightarrow> wp (mutate y c)
      (\<lambda>res (_, l'). l' = l \<and> (\<forall>z c'. res = Returned (None, z, c') \<longrightarrow> returns rq k [(kind, kobject.truncate z)])) (s, l)"
  shows "returning rq k (CreateOrUpdate (watched kind u) x mutate c)"
  unfolding logging_def
proof (intro allI impI wp_CreateOrUpdate)
  fix s l
  assume l: "returns rq k l"
  have "wp (up_fetch u x) (\<lambda>f _. fst f = None \<longrightarrow> object_key (snd f) = object_key x) s"
    using assms(1) by (simp add: fetches_asked_def)
  then show "wp (up_fetch (watched kind u) x) (\<lambda>f. case fst f of
      Some err \<Rightarrow> (\<lambda>(_, l'). returns rq k l')
    | None \<Rightarrow> wp (mutate (snd f) c) (\<lambda>o'. case o' of
        Panicked p \<Rightarrow> (\<lambda>(_, l'). returns rq k l')
      | Returned q \<Rightarrow> (case fst q of
          Some err \<Rightarrow> (\<lambda>(_, l'). returns rq k l')
        | None \<Rightarrow> wp (up_write (watched kind u) (snd f) (fst (snd q))) (\<lambda>w (_, l'). returns rq k l')))) (s, l)"
    unfolding watched_def recorded_upserter_simps wp_unrecorded
    by (rule wp_mono)
      (auto split: option.split outcome.split simp: l intro!: wp_recordedI wp_mono [OF assms(2) [OF _ l]])
qed

lemma modified_returns:
  fixes x :: "'b kobject_scheme" and modify :: "('b kobject_scheme, 's \<times> written list) modification"
  assumes "handler_contract rq" "ownership_contract (reg_lib r)" "typed ''ImageRegistry'' cr" "fetches_asked u"
    and "Namespace x = Namespace cr"
    and "kind \<in> {''Certificate'', ''StatefulSet'', ''Service'', ''Secret'', ''ServiceAccount'', ''Role'', ''RoleBinding''}"
    and "\<And>y c s l. wp (modify y c) (\<lambda>res (_, l'). l' = l \<and> (fst res = None \<longrightarrow>
      Namespace (fst (snd res)) = Namespace y \<and> OwnerReferences (fst (snd res)) = OwnerReferences y)) (s, l)"
  shows "returning rq (object_key cr) (upsert (watched_registry r) (watched kind u) (Some cr) x modify c)"
  unfolding upsert_def
proof (intro logging_bind returning_upsert assms(4))
  fix y :: "'b kobject_scheme" and s l
  assume y: "object_key y = object_key x"
  show "wp (upsert_callback (watched_registry r) (Some cr) modify y c)
     (\<lambda>res (_, l'). l' = l \<and> (\<forall>z c'. res = Returned (None, z, c') \<longrightarrow> returns rq (object_key cr) [(kind, kobject.truncate z)])) (s, l)"
  proof (cases "SetControllerReference (reg_lib r) (kobject.truncate cr)
      (kobject.truncate ((prepare y)\<lparr>Labels := selectorLabelsForCR cr\<rparr>))")
    case (Inl e)
    then show ?thesis by (simp add: upsert_callback_def Let_def)
  next
    case (Inr refs)
    let ?y = "(prepare y)\<lparr>Labels := selectorLabelsForCR cr, OwnerReferences := refs\<rparr>"
    have "sole_controller cr refs"
      by (rule ownership [OF assms(2) Inr])
    moreover have "Namespace ?y = Namespace cr"
      using y assms(5) by (simp add: object_key_def prepare_def)
    ultimately have "returns rq (object_key cr) [(kind, kobject.truncate z)]"
      if "Namespace z = Namespace ?y" "OwnerReferences z = OwnerReferences ?y" for z
      using that by (intro owned_returns assms(1,3,6)) simp_all
    note ok = this
    have run: "upsert_callback (watched_registry r) (Some cr) modify y c =
        do { q \<leftarrow> modify ?y c; ret (Returned q) }"
      unfolding upsert_callback_def Let_def option.case watched_registry_simps recorded_lib_simps Inr sum.case by simp
    show ?thesis
      unfolding run wp_bind wp_return
      by (rule wp_mono [OF assms(7) [of ?y c]]) (auto intro!: ok [simplified])
  qed
qed (auto split: outcome.split)

lemma sets_keeps:
  "(\<And>y. Namespace (f y) = Namespace y \<and> OwnerReferences (f y) = OwnerReferences y) \<Longrightarrow>
   wp (sets f y c) (\<lambda>res (_, l'). l' = l \<and> (fst res = None \<longrightarrow>
      Namespace (fst (snd res)) = Namespace y \<and> OwnerReferences (fst (snd res)) = OwnerReferences y)) (s, l)"
  by (simp add: sets_def)

text \<open>Certificate secrets.\<close>

lemma watched_certs_simps [simp]:
  "cm_lib (watched_certs m) = cm_lib (lifted_certs m)" "cm_crypto (watched_certs m) = cm_crypto (lifted_certs m)"
  "cm_upsert (watched_certs m) = watched ''Secret'' (cm_upsert m)"
  by (simp_all add: watched_certs_def)

lemma watched_certs_callback: "renew_callback (watched_certs m) = renew_callback (lifted_certs m)"
  unfolding fun_eq_iff renew_callback_def refuse_unmanaged_def renew_managed_def watched_certs_simps by simp

lemma renew_callback_owner:
  "wp (renew_callback m (Some owner) lbls cond factory secret c0) (\<lambda>res _. \<forall>z c. res = Returned (None, z, c) \<longrightarrow>
     (\<exists>x. SetControllerReference (cm_lib m) owner x = Inr (OwnerReferences z)) \<and> Namespace z = Namespace secret) s"
  unfolding renew_callback_def refuse_unmanaged_def renew_managed_def
  by (auto simp: Let_def split: outcome.split option.split sum.split if_split intro!: wp_any [where m = factory]
      wp_any [where m = "NeedsRenewal cr c" for cr c] exI [of _ "kobject.truncate secret"])

lemma renewed_returns:
  assumes "handler_contract rq" "ownership_contract (cm_lib m)" "typed ''ImageRegistry'' cr" "fetches_asked (cm_upsert m)"
    and "nn_namespace k = Namespace cr" "reads_only snd factory"
  shows "returning rq (object_key cr)
     (renewCertSecret (watched_certs m) k (Some (kobject.truncate cr)) lbls cond factory)"
proof -
  show ?thesis
    unfolding renewCertSecret_def watched_certs_simps
  proof (intro logging_bind returning_upsert assms(4))
    fix y :: Secret and s and l :: "written list"
    assume y: "object_key y = object_key (new_secret (nn_namespace k) (nn_name k))"
    let ?m = "renew_callback (lifted_certs m) (Some (kobject.truncate cr)) (secretLabels lbls) cond factory y None"
    have silent: "wp ?m (\<lambda>_ (_, l'). l' = l) (s, l)"
      by (rule wp_silent [OF renew_callback_silent [OF assms(6)]]) simp
    have ok: "returns rq (object_key cr) [(''Secret'', kobject.truncate z)]"
      if "SetControllerReference (cm_lib m) (kobject.truncate cr) x = Inr (OwnerReferences z)"
        "Namespace z = Namespace y" for x z
    proof -
      have "sole_controller cr (OwnerReferences z)"
        by (rule ownership [OF assms(2) that(1)])
      then show ?thesis
        using that(2) y assms(5) by (intro owned_returns assms(1,3)) (simp_all add: object_key_def)
    qed
    show "wp (renew_callback (watched_certs m) (Some (kobject.truncate cr)) (secretLabels lbls) cond factory y None)
      (\<lambda>res (_, l'). l' = l \<and> (\<forall>z c'. res = Returned (None, z, c') \<longrightarrow>
        returns rq (object_key cr) [(''Secret'', kobject.truncate z)])) (s, l)"
      unfolding watched_certs_callback
      by (rule wp_mono [OF wp_conj [OF silent renew_callback_owner]]) (auto simp: lifted_certs_def intro: ok [simplified])
  qed (auto split: outcome.split)
qed

text \<open>The tasks change no more of the instance than its conditions.\<close>

definition instance_of :: "NamespacedName \<Rightarrow> ImageRegistry \<Rightarrow> bool" where
  "instance_of k cr \<longleftrightarrow> object_key cr = k \<and> typed ''ImageRegistry'' cr"

lemma instance_of_conditions [simp]: "instance_of k (cr\<lparr>reg_Conditions := C\<rparr>) = instance_of k cr"
  by (simp add: instance_of_def object_key_def typed_def)

definition on_instance ::
  "NamespacedName \<Rightarrow> ('s, (go_error option \<times> ImageRegistry) outcome) state \<Rightarrow> bool" where
  "on_instance k m \<longleftrightarrow> (\<forall>s. wp m (\<lambda>res _. \<forall>e cr. res = Returned (e, cr) \<longrightarrow> instance_of k cr) s)"

lemma upsert_on_instance:
  assumes "instance_of k c" "\<And>y s. wp (modify y c) (\<lambda>res _. instance_of k (snd (snd res))) s"
  shows "on_instance k (upsert r u owner x modify c)"
proof -
  have "wp (upsert_callback r owner modify y c)
     (\<lambda>res _. \<forall>q. res = Returned q \<longrightarrow> instance_of k (snd (snd q))) s" for y s
    by (auto simp: upsert_callback_def Let_def assms(1) split: option.split sum.split
        intro!: wp_mono [OF assms(2)])
  note cb = this
  show ?thesis
    unfolding on_instance_def upsert_def wp_bind
    by (intro allI wp_CreateOrUpdate wp_any [where m = "up_fetch u x"])
      (auto simp: assms(1) split: option.split outcome.split intro!: wp_mono [OF cb] wp_any [where m = "up_write u a b" for a b])
qed

lemma upsert_sets_on_instance: "instance_of k c \<Longrightarrow> on_instance k (upsert r u owner x (sets f) c)"
  by (rule upsert_on_instance) (simp_all add: sets_def)

lemma stateful_set_on_instance: "instance_of k c \<Longrightarrow> on_instance k (reconcileStatefulSet r c)"
  unfolding reconcileStatefulSet_def modify_stateful_set_def Let_def
  by (rule upsert_on_instance) (auto intro: wp_any)

lemma tasks_on_instance:
  assumes "instance_of k c" "task \<in> set (reconcileTasks r)"
  shows "on_instance k (task c)"
proof -
  have any: "on_instance k (State_Monad.bind m f)" if "\<And>a. on_instance k (f a)" for m f
    using that by (auto simp: on_instance_def intro: wp_any)
  have ret: "on_instance k (ret (Returned (e, c)))" "on_instance k (ret (Panicked p))"
    "on_instance k (ret (renewal_error c q))" for e p q
    using assms(1) by (auto simp: on_instance_def renewal_error_def split: outcome.splits)
  note rules = upsert_sets_on_instance [OF assms(1)] stateful_set_on_instance [OF assms(1)] any ret
  have "on_instance k (reconcileTLSCert r c)"
    unfolding reconcileTLSCert_def Let_def by (auto intro!: rules split: option.split outcome.split sum.split)
  moreover have "on_instance k (reconcileTokenCert r c)"
    unfolding reconcileTokenCert_def Let_def by (auto intro!: rules split: option.split)
  ultimately show ?thesis
    using assms(2) unfolding reconcileTasks_def
    by (auto simp: reconcileServiceAccount_def reconcileRole_def reconcileRoleBinding_def reconcileService_def
        reconcilePersistentVolumeClaim_def Let_def intro!: rules)
qed

text \<open>The tasks of a registry write only objects whose events return to it.\<close>

lemma claim_returns:
  assumes "handler_contract rq" "mappable (object_key cr)" "fetches_asked u"
  shows "returning rq (object_key cr) (upsert (watched_registry r) (watched ''PersistentVolumeClaim'' u) owner x
     (sets (claim_for_cr cr owner')) c)"
proof -
  have "returns rq (object_key cr) [(''PersistentVolumeClaim'', kobject.truncate (claim_for_cr cr owner' z))]" for z
  proof -
    have "Map pvcAnnotationToRequest (kobject.truncate (claim_for_cr cr owner' z)) = [object_key cr]"
      by (rule Map_ToMapValue [OF _ assms(2)])
        (simp add: pvcAnnotationToRequest_def AnnotationToRequest_def claim_annotation)
    then have "object_key cr \<in> set (rq (EnqueueRequestsFromMapFunc (Map pvcAnnotationToRequest))
        (kobject.truncate (kobject.truncate (claim_for_cr cr owner' z))))"
      using assms(1) by (simp add: handler_contract_def kobject.defs)
    then show ?thesis
      by (auto simp: event_returns_def imageregistry_watches_def intro!: events_requestI)
  qed
  then show ?thesis
    unfolding upsert_def
    by (intro logging_bind returning_upsert assms(3))
      (auto simp: upsert_callback_def sets_def Let_def split: outcome.split option.split sum.split)
qed

lemma new_objects_namespace [simp]:
  "Namespace (named ns n) = ns" "Namespace (new_CertificateResource ns n) = ns" "Namespace (new_Role ns n) = ns"
  "Namespace (new_RoleBinding ns n) = ns" "Namespace (new_Service ns n) = ns" "Namespace (new_StatefulSet ns n) = ns"
  by (simp_all add: named_def new_CertificateResource_def new_Role_def new_RoleBinding_def new_Service_def
      new_StatefulSet_def kobject.defs)

lemma stateful_set_keeps:
  "wp (modify_stateful_set (watched_registry r) y c) (\<lambda>res (_, l'). l' = l \<and> (fst res = None \<longrightarrow>
      Namespace (fst (snd res)) = Namespace y \<and> OwnerReferences (fst (snd res)) = OwnerReferences y)) (s, l)"
  unfolding modify_stateful_set_def Let_def wp_bind watched_registry_simps recorded_lib_simps
  by (rule wp_unrecordedI) (simp add: updateStatefulSetForCR_def Let_def)

lemma tasks_return:
  assumes "handler_contract rq" "registry_server r" "instance_of k cr" "mappable k"
    and "task \<in> set (reconcileTasks (watched_registry r))"
  shows "returning rq k (task cr)"
proof -
  have k: "object_key cr = k" "typed ''ImageRegistry'' cr" using assms(3) by (simp_all add: instance_of_def)
  have ns: "nn_namespace k = Namespace cr" using k by (auto simp: object_key_def)
  note server = assms(2) [unfolded registry_server_def]
  have lib: "ownership_contract (reg_lib r)" and certs: "ownership_contract (cm_lib (reg_certManager r))"
    using server by blast+
  note owned = modified_returns [OF assms(1) lib k(2), unfolded k(1)]
  note renewed = renewed_returns [OF assms(1) certs k(2), unfolded k(1)]
  note claim = claim_returns [of rq cr, unfolded k(1), OF assms(1,4)]
  have silent: "reads_only snd (NewSelfSignedCAKeyPair (recorded_crypto c) cn)"
    "reads_only snd (NewServerKeyPair (recorded_crypto c) dns ca)"
    "reads_only snd (RootCACert (watched_certs m))" for c :: "'a crypto" and m :: "'a CertManager" and cn dns ca
    using genKeyPair_frame [OF recorded_crypto_silent]
    by (auto simp: NewSelfSignedCAKeyPair_def NewServerKeyPair_def RootCACert_def KeyPair_of_def watched_certs_def
        lifted_certs_def split: sum.split outcome.split option.split intro!: reads_only_bind)
  have "returning rq k (reconcileTokenCert (watched_registry r) cr)"
    unfolding reconcileTokenCert_def Let_def RenewCACertSecret_def watched_registry_simps
    by (auto simp: ns server intro!: logging_bind renewed owned sets_keeps silent split: option.split)
  moreover have "returning rq k (reconcileTLSCert (watched_registry r) cr)"
    unfolding reconcileTLSCert_def Let_def RenewServerCertSecret_def watched_registry_simps
    by (auto simp: ns server intro!: logging_bind renewed owned sets_keeps silent logging_silent [OF silent(3)]
        split: option.split outcome.split sum.split)
  moreover have "returning rq k (reconcileServiceAccount (watched_registry r) cr)"
    "returning rq k (reconcileRole (watched_registry r) cr)" "returning rq k (reconcileRoleBinding (watched_registry r) cr)"
    unfolding reconcileServiceAccount_def reconcileRole_def reconcileRoleBinding_def watched_registry_simps
    by (auto simp: server bind_account_def intro!: owned sets_keeps)
  moreover have "returning rq k (reconcileService (watched_registry r) cr)"
    unfolding reconcileService_def watched_registry_simps
    by (auto simp: server service_for_cr_def AddServicePort_def intro!: owned sets_keeps)
  moreover have "returning rq k (reconcileStatefulSet (watched_registry r) cr)"
    unfolding reconcileStatefulSet_def watched_registry_simps
    by (rule owned) (auto simp: server intro: stateful_set_keeps)
  moreover have "returning rq k (reconcilePersistentVolumeClaim (watched_registry r) cr)"
    unfolding reconcilePersistentVolumeClaim_def Let_def watched_registry_simps
    by (rule claim) (simp add: server)
  ultimately show ?thesis
    using assms(5) unfolding reconcileTasks_def by auto
qed

lemma run_tasks_return:
  assumes "handler_contract rq" "registry_server r" "mappable k"
    and "set tasks \<subseteq> set (reconcileTasks (watched_registry r))" "instance_of k cr"
  shows "returning rq k (run_tasks tasks cr)"
  using assms(4,5)
proof (induction tasks arbitrary: cr)
  case (Cons task tasks)
  show ?case
    unfolding logging_def run_tasks.simps wp_bind
  proof (intro allI impI)
    fix s l
    assume l: "returns rq k l"
    have "wp (task cr) (\<lambda>_ (_, l'). returns rq k l') (s, l)"
      using tasks_return [OF assms(1,2) _ assms(3), of cr task] Cons.prems l by (simp add: logging_def)
    moreover have "wp (task cr) (\<lambda>res _. \<forall>e cr. res = Returned (e, cr) \<longrightarrow> instance_of k cr) (s, l)"
      using tasks_on_instance [of k cr task "watched_registry r"] Cons.prems by (simp add: on_instance_def)
    ultimately show "wp (task cr) (\<lambda>a. wp (case a of Returned q \<Rightarrow>
        (case fst q of None \<Rightarrow> run_tasks tasks (snd q) | Some err \<Rightarrow> ret (Returned (Some err, snd q)))
      | Panicked p \<Rightarrow> ret (Panicked p)) (\<lambda>_ (_, l'). returns rq k l')) (s, l)"
      by (rule wp_mono [OF wp_conj])
        (use Cons in \<open>auto simp: logging_def split: outcome.split option.split\<close>)
  qed
qed simp

lemma merge_conditions_silent:
  "reads_only snd (merge_conditions (recorded_lib klib) cs conditions changed)"
  by (induction cs arbitrary: conditions changed) (auto intro!: reads_only_bind)

lemma update_status_silent: "reads_only snd (update_status (watched_registry r) conditions cr err)"
proof -
  have "StatusUpdate (lifted_client c) x = unrecorded (StatusUpdate c x)" for c :: "(ImageRegistry, 'a) client" and x
    by (simp add: lifted_client_def)
  then show ?thesis
    unfolding update_status_def sync_conditions_def watched_registry_simps Let_def
    by (auto intro!: reads_only_bind merge_conditions_silent split: option.split)
qed

text \<open>
  C7. What the registry controller writes, it watches. During a reconciliation, on any server
  that answers for the objects it is asked for, each object that is created or updated for a
  registry is such that its events make the controller look at this registry again: the
  workload and the secrets through their controller reference, the volume claim, which may
  have no owner, through its annotation. So a change that someone makes to one of them is
  undone. The certificates of a cert-manager issuer alone are not watched. The registry's
  name has no dot, which the annotation could not carry.
\<close>

theorem registry_events_return:
  assumes "handler_contract rq" "registry_server r" "mappable request"
    and "wp (Get (reg_crs r) request) (\<lambda>g _. \<forall>cr. g = Inr cr \<longrightarrow>
      object_key cr = request \<and> typed ''ImageRegistry'' cr) s"
  shows "wp (RegistryWorkload.Reconcile (watched_registry r) request) (\<lambda>_ (_, l). \<forall>(kind, x) \<in> set l.
     kind = ''Certificate'' \<or> request \<in> events_request rq imageregistry_watches kind x) (s, [])"
proof -
  have get: "Get (reg_crs (watched_registry r)) request = unrecorded (Get (reg_crs r) request)"
    by (simp add: lifted_client_def)
  have "returning rq request (do {
         t \<leftarrow> run_tasks (reconcileTasks (watched_registry r)) (cr\<lparr>reg_Conditions := Map.empty\<rparr>);
         case t of
           Panicked p \<Rightarrow> ret (Panicked p)
         | Returned q \<Rightarrow> do {
             e \<leftarrow> update_status (watched_registry r) (reg_Conditions cr) (snd q) (fst q);
             ret (Returned (no_requeue, e))
           }
       })" if "instance_of request cr" for cr
    using that by (intro logging_bind run_tasks_return [OF assms(1-3)])
      (auto intro!: logging_bind logging_silent update_status_silent split: outcome.split)
  note rest = this [unfolded logging_def, rule_format, of _ "[]"]
  have "wp (RegistryWorkload.Reconcile (watched_registry r) request) (\<lambda>_ (_, l). returns rq request l) (s, [])"
    unfolding RegistryWorkload.Reconcile_def wp_bind get wp_unrecorded
  proof (rule wp_mono [OF assms(4)])
    fix g :: "ImageRegistry result" and s'
    assume g: "\<forall>cr. g = Inr cr \<longrightarrow> object_key cr = request \<and> typed ''ImageRegistry'' cr"
    have nil: "returns rq request []" by (simp add: event_returns_def)
    show "wp (case g of Inl err \<Rightarrow> if IsNotFound err then ret (Returned (no_requeue, None))
          else ret (Returned (no_requeue, Some err))
        | Inr instance0 \<Rightarrow> do {
            t \<leftarrow> run_tasks (reconcileTasks (watched_registry r)) (instance0\<lparr>reg_Conditions := Map.empty\<rparr>);
            case t of
              Panicked p \<Rightarrow> ret (Panicked p)
            | Returned q \<Rightarrow> do {
                e \<leftarrow> update_status (watched_registry r) (reg_Conditions instance0) (snd q) (fst q);
                ret (Returned (no_requeue, e))
              }
          }) (\<lambda>_ (_, l). returns rq request l) (s', [])"
    proof (cases g)
      case (Inl e)
      then show ?thesis by (simp add: nil)
    next
      case (Inr cr)
      with g have "instance_of request cr" by (simp add: instance_of_def)
      from rest [OF this nil] Inr show ?thesis by simp
    qed
  qed
  then show ?thesis by (simp add: event_returns_def list_all_iff)
qed

text \<open>The handlers as controller-runtime implements them, on the references as they are.\<close>

fun demo_requests :: "handler \<Rightarrow> kobject \<Rightarrow> NamespacedName list" where
  "demo_requests EnqueueRequestForObject x = [object_key x]"
| "demo_requests (EnqueueRequestForOwner isController kind) x =
     map (\<lambda>ref. NN (Namespace x) (or_Name ref))
       (filter (\<lambda>ref. or_Kind ref = kind \<and> or_APIVersion ref = SchemeGroupVersion \<and>
          (isController \<longrightarrow> or_Controller ref = Some True)) (OwnerReferences x))"
| "demo_requests (EnqueueRequestsFromMapFunc f) x = f x"

lemma demo_requests_contract: "handler_contract demo_requests"
  unfolding handler_contract_def
proof (intro conjI allI impI)
  fix isController kind ref and x :: kobject
  assume "ref \<in> set (OwnerReferences x)" "or_Kind ref = kind" "or_APIVersion ref = SchemeGroupVersion"
    and "isController \<longrightarrow> or_Controller ref = Some True \<and>
      (\<forall>ref' \<in> set (OwnerReferences x). or_Controller ref' = Some True \<longrightarrow> ref' = ref)"
  then show "NN (Namespace x) (or_Name ref) \<in> set (demo_requests (EnqueueRequestForOwner isController kind) x)"
    unfolding demo_requests.simps set_map set_filter by blast
qed simp_all

lemma cluster_ownership: "ownership_contract cluster_lib"
  unfolding ownership_contract_def
proof (intro allI impI)
  fix owner x :: kobject and refs
  assume "SetControllerReference cluster_lib owner x = Inr refs"
  then have "refs = filter (\<lambda>ref. or_UID ref \<noteq> UID owner) (OwnerReferences x) @ [controller_ref owner]"
    and "\<forall>ref \<in> set (OwnerReferences x). or_Controller ref = Some True \<longrightarrow> or_UID ref = UID owner"
    by (auto simp: cluster_lib_def list_ex_iff split: if_splits)
  then show "sole_controller owner refs"
    unfolding sole_controller_def by (intro bexI [of _ "controller_ref owner"]) (auto simp: controller_ref_def)
qed

definition demo_watched :: "cluster ReconcileImageRegistry" where
  "demo_watched = (cluster_registry [])\<lparr>reg_certManager := (cluster_certs [])\<lparr>cm_upsert := accepting\<rparr>\<rparr>"

definition demo_typed_registry :: ImageRegistry where
  "demo_typed_registry = (new_ImageRegistry ''ns'' ''r'')\<lparr>Kind := ''ImageRegistry'', APIVersion := SchemeGroupVersion,
     AuthCA := \<lparr>cs_IssuerRef = None, cs_SecretName = Some ''ca''\<rparr>,
     reg_TLS := \<lparr>cs_IssuerRef = None, cs_SecretName = Some ''tls''\<rparr>\<rparr>"

lemma registry_events_return_witness:
  "wp (RegistryWorkload.Reconcile (watched_registry demo_watched) (NN ''ns'' ''r''))
     (\<lambda>_ (_, l). \<forall>x. (''Service'', x) \<in> set l \<longrightarrow>
        NN ''ns'' ''r'' \<in> events_request demo_requests imageregistry_watches ''Service'' x)
     (empty_cluster\<lparr>all_registries := [NN ''ns'' ''r'' \<mapsto> demo_typed_registry]\<rparr>, [])"
proof -
  have "registry_server demo_watched"
    by (simp add: registry_server_def demo_watched_def cluster_registry_def fetches_asked_def accepting_def
        cluster_ownership cluster_certs_def)
  moreover have "object_key demo_typed_registry = NN ''ns'' ''r''" "typed ''ImageRegistry'' demo_typed_registry"
    by (simp_all add: demo_typed_registry_def new_ImageRegistry_def object_key_def typed_def kobject.defs
        ImageRegistry.defs new_kobject_def)
  ultimately show ?thesis
    using registry_events_return [OF demo_requests_contract, of demo_watched "NN ''ns'' ''r''"
        "empty_cluster\<lparr>all_registries := [NN ''ns'' ''r'' \<mapsto> demo_typed_registry]\<rparr>"]
    by (auto simp: mappable_def separator_def demo_watched_def cluster_registry_def cluster_registries_def
        mem_client_def wp_def elim!: wp_mono)
qed

end
