(* ===== verification/WatchedInputs.thy ===== *)
theory WatchedInputs
  imports WatchedObjects SecretConvergence
begin

text \<open>
  The events of the objects that build environments and image secrets depend on: the input
  secrets of an environment, through the owner reference that the handler of back references
  adds to them, and the accounts and the secret of an image secret, through the label and
  the controller reference that a rotation gives them.
\<close>

subsection \<open>Inputs of a build environment\<close>

lemma referred_requests:
  assumes "handler_contract rq" "typed ''ImageBuildEnv'' cr" "refs_consistent x cr" "refers_to x cr"
  shows "object_key cr \<in> events_request rq imagebuildenv_watches ''Secret'' x"
proof -
  from assms(4) obtain ref where ref: "ref \<in> set (OwnerReferences x)" "or_UID ref = UID cr"
    by (auto simp: refers_to_def)
  with assms(2,3) have "or_Kind ref = ''ImageBuildEnv''" "or_APIVersion ref = SchemeGroupVersion"
    "or_Name ref = Name cr" "Namespace x = Namespace cr"
    by (auto simp: refs_consistent_def ref_equal_def typed_def)
  with ref(1) assms(1)
  have "NN (Namespace x) (Name cr) \<in> set (rq (EnqueueRequestForOwner False ''ImageBuildEnv'') (kobject.truncate x))"
    unfolding handler_contract_def by (metis truncate_simps(1,2))
  then show ?thesis
    using \<open>Namespace x = Namespace cr\<close>
    by (auto simp: object_key_def imagebuildenv_watches_def intro: events_requestI)
qed

text \<open>
  C22. A build environment sees every change of its inputs. After \<open>UpdateReferences\<close> with the
  input secrets of an environment, on a server that answers, each of them is stored such
  that its events make the controller look at the environment: the owner reference that the
  handler of back references adds is one that the watch on secrets follows, although it is
  not a controller reference. The inputs exist and are listed once each, and their owner
  references are consistent at the start.
\<close>

theorem input_changes_trigger:
  assumes "input_world stored consistent k r" "consistent s" "object_key cr = k" "refs_sane (stored s) cr"
    and "distinct (env_Secrets cr)"
    and "list_all2 (\<lambda>n x. stored s (NN (Namespace cr) n) = Some x) (env_Secrets cr) refs"
    and "handler_contract rq" "typed ''ImageBuildEnv'' cr"
  shows "wp (UpdateReferences (secretRefs r) cr refs) (\<lambda>res s'. (\<exists>cr' rs. res = Returned (None, cr', rs)) \<and>
     (\<forall>n \<in> set (env_Secrets cr). \<exists>x. stored s' (NN (Namespace cr) n) = Some x \<and>
        k \<in> events_request rq imagebuildenv_watches ''Secret'' x)) s"
proof -
  note found = inputs_found [OF input_world_store [OF assms(1)] assms(2,6)]
  have keys: "object_key ` set refs = NN (Namespace cr) ` set (env_Secrets cr)"
    using arg_cong [OF found(1), of set] by simp
  have d: "distinct (map object_key refs)"
    using assms(5) by (simp add: found(1) distinct_map inj_on_def)
  have ns: "\<forall>x \<in> set refs. nn_namespace (object_key x) = Namespace cr"
    using keys by (metis imageE imageI NamespacedName.sel(1))
  show ?thesis
  proof (rule wp_mono [OF update_inputs [OF assms(1-4) d found(2) ns]], elim exE conjE)
    fix res s' cr' rs
    assume res: "res = Returned (None, cr', rs)" and cr': "cr' \<in> {cr, SetStatusReferences refs cr}"
      and a: "abs_refs (stored s') cr' = assign_refs (object_key ` set refs) (abs_refs (stored s) cr)"
      and sane: "refs_sane (stored s') cr'"
    have id: "object_key cr' = k" "typed ''ImageBuildEnv'' cr'" "Namespace cr' = Namespace cr"
      using cr' assms(3,8) by (auto simp: typed_def SetStatusReferences_def object_key_def)
    have "\<exists>x. stored s' (NN (Namespace cr) n) = Some x \<and>
        k \<in> events_request rq imagebuildenv_watches ''Secret'' x" if "n \<in> set (env_Secrets cr)" for n
    proof -
      have "NN (Namespace cr) n \<in> referring_keys (abs_refs (stored s') cr')"
        using that by (simp add: a keys assign_refs_def)
      then obtain x where x: "stored s' (NN (Namespace cr) n) = Some x" "refers_to x cr'"
        by (auto simp: abs_refs_def)
      then have "refs_consistent x cr'"
        using sane id(3) unfolding refs_sane_def by (metis NamespacedName.sel(1))
      from referred_requests [OF assms(7) id(2) this x(2)] x(1) id(1) show ?thesis by auto
    qed
    with res show "(\<exists>cr' rs. res = Returned (None, cr', rs)) \<and>
     (\<forall>n \<in> set (env_Secrets cr). \<exists>x. stored s' (NN (Namespace cr) n) = Some x \<and>
        k \<in> events_request rq imagebuildenv_watches ''Secret'' x)" by blast
  qed
qed

lemma input_changes_trigger_witness:
  "wp (UpdateReferences (secretRefs demo_build) (demo_env\<lparr>APIVersion := SchemeGroupVersion\<rparr>) [new_secret ''ns'' ''new''])
     (\<lambda>res s'. \<exists>x. all_secrets s' (NN ''ns'' ''new'') = Some x \<and>
        NN ''ns'' ''e'' \<in> events_request demo_requests imagebuildenv_watches ''Secret'' x)
     (empty_cluster\<lparr>all_envs := [NN ''ns'' ''e'' \<mapsto> demo_env], all_secrets := [NN ''ns'' ''new'' \<mapsto> new_secret ''ns'' ''new'']\<rparr>)"
  (is "wp _ _ ?s")
proof -
  let ?cr = "demo_env\<lparr>APIVersion := SchemeGroupVersion\<rparr>"
  have "env_stored (NN ''ns'' ''e'') ?s" "refs_sane (all_secrets ?s) ?cr" "typed ''ImageBuildEnv'' ?cr"
    "list_all2 (\<lambda>n x. all_secrets ?s (NN (Namespace ?cr) n) = Some x) (env_Secrets ?cr) [new_secret ''ns'' ''new'']"
    by (auto simp: env_stored_def keyed_def object_key_def refs_sane_def refs_consistent_def typed_def)
  then show ?thesis
    using input_changes_trigger [OF demo_input_world, of "NN ''ns'' ''e''" ?s ?cr "[new_secret ''ns'' ''new'']" demo_requests]
    by (auto simp: object_key_def demo_requests_contract elim!: wp_mono)
qed

subsection \<open>Accounts and secret of an image secret\<close>

definition secret_event_returns ::
  "(handler \<Rightarrow> kobject \<Rightarrow> NamespacedName list) \<Rightarrow> watch list \<Rightarrow> NamespacedName \<Rightarrow> secret_event \<Rightarrow> bool" where
  "secret_event_returns rq ws k ev = (case ev of
     AccountCall (CCreate a) _ \<Rightarrow> k \<in> events_request rq ws ''ImageRegistryAccount'' a
   | SecretCall (CCreate x) _ \<Rightarrow> k \<in> events_request rq ws ''Secret'' x
   | SecretCall (CUpdate x) _ \<Rightarrow> k \<in> events_request rq ws ''Secret'' x
   | _ \<Rightarrow> True)"

definition identity :: "'a kobject_scheme \<Rightarrow> NamespacedName \<times> string \<times> string" where
  "identity x = (object_key x, Kind x, APIVersion x)"

text \<open>A server that answers with the objects that were asked for.\<close>

definition gets_asked :: "(NamespacedName \<Rightarrow> ('s, 'a kobject_scheme result) state) \<Rightarrow> bool" where
  "gets_asked g \<longleftrightarrow> (\<forall>k s. wp (g k) (\<lambda>res _. \<forall>x. res = Inr x \<longrightarrow> object_key x = k) s)"

definition secret_server :: "'s ReconcileImageSecret \<Rightarrow> bool" where
  "secret_server r \<longleftrightarrow> ownership_contract (lib r) \<and> echoes (StatusUpdate (crs r)) identity \<and> gets_asked (Get (secrets r))"

lemma account_returns:
  assumes "handler_contract rq" "mappable (object_key cr)"
  shows "object_key cr \<in> events_request rq (secret_watches ownerKind (cfg r)) ''ImageRegistryAccount''
     (new_account r cr registry h)"
proof -
  have "Map (accountToSecret (cfg r)) (kobject.truncate (new_account r cr registry h)) = [object_key cr]"
    by (rule Map_ToMapValue [OF _ assms(2)])
      (simp add: accountToSecret_def LabelToRequest_def new_account_def object_key_def)
  then show ?thesis
    using assms(1)
    by (auto simp: handler_contract_def secret_watches_def secondary_watches_def
        intro!: events_requestI [where h = "EnqueueRequestsFromMapFunc (Map (accountToSecret (cfg r)))"])
qed

lemma secret_returns:
  assumes "handler_contract rq" "typed ownerKind owner" "sole_controller owner refs" "Namespace x = Namespace owner"
  shows "object_key owner \<in> events_request rq (secret_watches ownerKind c) ''Secret'' (x\<lparr>OwnerReferences := refs\<rparr>)"
  by (rule controlled_requests [OF assms(1) _ assms(2)])
    (simp_all add: assms(3,4) secret_watches_def secondary_watches_def)

lemma rotation_returns:
  assumes "handler_contract rq" "secret_server r" "typed ownerKind cr" "mappable (object_key cr)"
    and "Namespace secret = Namespace cr"
  shows "logging (secret_event_returns rq (secret_watches ownerKind (cfg r)) (object_key cr))
     (rotatePassword (recorded_reconciler r) cr registry secret)" (is "logging ?ok _")
  unfolding logging_def
proof (intro allI impI)
  fix s l
  assume l: "list_all ?ok l"
  have echo: "echoes (StatusUpdate (crs r)) identity" and own: "ownership_contract (lib r)"
    using assms(2) by (simp_all add: secret_server_def)
  have next_id: "identity (next_rotation cr now ns) = identity cr" for now ns
    by (simp add: identity_def next_rotation_def object_key_def)
  have ok [simp]: "?ok (AccountCall (CDeleteAll ls ns) e)" "?ok (CRCall c e)" for ls ns e c
    by (simp_all add: secret_event_returns_def)
  have account: "?ok (AccountCall (CCreate (new_account r cr' registry h)) e)"
    if "identity cr' = identity cr" for cr' h e
    using account_returns [OF assms(1), of cr' ownerKind r registry h] that assms(4)
    by (simp add: secret_event_returns_def identity_def)
  have secret: "?ok (SecretCall (CCreate ((fill_secret r cr' registry a pw secret)\<lparr>OwnerReferences := refs\<rparr>)) e)"
    "?ok (SecretCall (CUpdate ((fill_secret r cr' registry a pw secret)\<lparr>OwnerReferences := refs\<rparr>)) e)"
    if "identity cr' = identity cr" "SetControllerReference (lib r) (kobject.truncate cr') y = Inr refs" for cr' a pw e y refs
  proof -
    have "typed ownerKind cr'" "Namespace (fill_secret r cr' registry a pw secret) = Namespace cr'" "object_key cr' = object_key cr"
      using that(1) assms(3,5) by (auto simp: identity_def typed_def object_key_def fill_secret_def)
    then show "?ok (SecretCall (CCreate ((fill_secret r cr' registry a pw secret)\<lparr>OwnerReferences := refs\<rparr>)) e)"
      "?ok (SecretCall (CUpdate ((fill_secret r cr' registry a pw secret)\<lparr>OwnerReferences := refs\<rparr>)) e)"
      using secret_returns [OF assms(1) _ ownership [OF own that(2)], of ownerKind "fill_secret r cr' registry a pw secret" "cfg r"]
      by (simp_all add: secret_event_returns_def)
  qed
  note others = wp_unrecordedI [where m = "Now k" for k] wp_unrecordedI [where m = "BcryptPassword r p" for p]
    wp_recordedI [where m = "DeleteAllOf k x y" for k x y] wp_recordedI [where m = "Create (accounts r) x" for x]
    wp_recordedI [where m = "Create (secrets r) x" for x] wp_recordedI [where m = "Update (secrets r) x" for x]
  show "wp (rotatePassword (recorded_reconciler r) cr registry secret) (\<lambda>_ (_, l'). list_all ?ok l') (s, l)"
    unfolding rotatePassword_def deleteOrphanAccounts_def Let_def
    by (auto intro!: wp_recorded_GeneratePassword wp_recorded_echo [OF echo] others account secret
        simp: l next_id split: outcome.split sum.split option.split)
qed

text \<open>The other calls of a reconciliation write neither accounts nor secrets.\<close>

lemma other_calls_return:
  "logging (secret_event_returns rq ws k) (getRegistry (recorded_reconciler r) n)"
  "logging (secret_event_returns rq ws k) (get_object (recorded_client AccountCall c) a)"
  "logging (secret_event_returns rq ws k) (get_object (recorded_client SecretCall c') x)"
  "logging (secret_event_returns rq ws k) (setSyncStatus (recorded_reconciler r) cr ct st reason msg)"
  "logging (secret_event_returns rq ws k) (finalize_secret (recorded_reconciler r) request cr)"
  "logging (secret_event_returns rq ws k) (add_finalizer (recorded_reconciler r) cr)"
proof -
  have status: "logging (secret_event_returns rq ws k) (setSyncStatus (recorded_reconciler r) cr ct st reason msg)"
    for cr ct st reason msg
    by (auto simp: logging_def secret_event_returns_def intro!: wp_recorded_setSyncStatus)
  then show "logging (secret_event_returns rq ws k) (setSyncStatus (recorded_reconciler r) cr ct st reason msg)" .
  show "logging (secret_event_returns rq ws k) (getRegistry (recorded_reconciler r) n)"
    "logging (secret_event_returns rq ws k) (get_object (recorded_client AccountCall c) a)"
    "logging (secret_event_returns rq ws k) (get_object (recorded_client SecretCall c') x)"
    by (auto simp: logging_def secret_event_returns_def intro!: wp_recorded_getRegistry wp_recorded_get_account
        wp_recorded_get_secret)
  show "logging (secret_event_returns rq ws k) (finalize_secret (recorded_reconciler r) request cr)"
    "logging (secret_event_returns rq ws k) (add_finalizer (recorded_reconciler r) cr)"
    unfolding finalize_secret_def add_finalizer_def deleteOrphanAccounts_def
    by (auto intro!: logging_bind logging_recorded status simp: secret_event_returns_def split: option.split)
qed

lemma logging_unrecorded: "logging ok (unrecorded m)"
  by (simp add: logging_silent)

lemma logging_bind_post:
  assumes "logging ok m" "\<And>s. wp m (\<lambda>a _. P a) s" "\<And>a. P a \<Longrightarrow> logging ok (f a)"
  shows "logging ok (State_Monad.bind m f)"
  unfolding logging_def wp_bind
proof (intro allI impI)
  fix s l
  assume "list_all ok l"
  then have "wp m (\<lambda>_ (_, l'). list_all ok l') (s, l)" using assms(1) by (simp add: logging_def)
  from wp_conj [OF this assms(2)] show "wp m (\<lambda>a. wp (f a) (\<lambda>_ (_, l'). list_all ok l')) (s, l)"
    by (rule wp_mono) (use assms(3) in \<open>auto simp: logging_def\<close>)
qed

lemma secret_namespace:
  assumes "gets_asked (Get c)"
  shows "wp (get_object (recorded_client SecretCall c) (new_secret ns n)) (\<lambda>a _. Namespace (snd (snd a)) = ns) s"
proof (cases s)
  case (Pair s' l)
  have "wp (Get c (object_key (new_secret ns n))) (\<lambda>res _. \<forall>x. res = Inr x \<longrightarrow> object_key x = NN ns n) s'"
    using assms by (simp add: gets_asked_def)
  then show ?thesis
    by (auto simp: Pair get_object_def wp_recorded object_key_def split: sum.split elim!: wp_mono)
qed

lemma sync_returns:
  assumes "handler_contract rq" "secret_server r" "typed ownerKind cr" "mappable (object_key cr)"
  shows "logging (secret_event_returns rq (secret_watches ownerKind (cfg r)) (object_key cr))
     (sync_secret (recorded_reconciler r) cr)"
proof -
  obtain k cr' where key: "getRegistryKeyForCR r cr = (k, cr')" by fastforce
  then have id: "object_key cr' = object_key cr" "typed ownerKind cr'" "Namespace cr' = Namespace cr"
    using assms(3) by (auto simp: getRegistryKeyForCR_def Let_def object_key_def typed_def split: option.splits)
  have asked: "gets_asked (Get (secrets r))" using assms(2) by (simp add: secret_server_def)
  note rotation = rotation_returns [OF assms(1,2) id(2), unfolded id(1), OF assms(4)]
  show ?thesis
    unfolding sync_secret_def recorded_pure key Let_def prod.case recorded_reconciler_simps
    by (rule logging_bind [OF other_calls_return(1)])
      (auto split: sum.split option.split outcome.split intro!: logging_bind_post [OF other_calls_return(3) secret_namespace [OF asked]]
        logging_bind logging_unrecorded other_calls_return rotation)
qed

text \<open>
  C8. The image secret controllers see what becomes of the credentials they issued. Every
  account that a reconciliation creates, in the namespace of the registry, and every secret
  that it creates or updates is such that its events make the same controller look at the
  resource again: an account that expires and is deleted, or a secret that someone changes,
  is replaced by a rotation, without waiting for the next one. The server answers for the
  objects it is asked for, and the resource's name has no dot, which the account's label
  could not carry.
\<close>

theorem credential_events_return:
  assumes "handler_contract rq" "secret_server r" "mappable request"
    and "wp (Get (crs r) request) (\<lambda>g _. \<forall>cr. g = Inr cr \<longrightarrow> object_key cr = request \<and> typed ownerKind cr) s"
  shows "wp (SecretReconciler.Reconcile (recorded_reconciler r) request) (\<lambda>_ (_, l). \<forall>ev \<in> set l.
     secret_event_returns rq (secret_watches ownerKind (cfg r)) request ev) (s, [])"
proof -
  let ?ok = "secret_event_returns rq (secret_watches ownerKind (cfg r)) request"
  have get: "?ok (CRCall (CGet request) e)" for e by (simp add: secret_event_returns_def)
  have rest: "logging ?ok (if \<not> IsZero (DeletionTimestamp cr)
         then do { x \<leftarrow> finalize_secret (recorded_reconciler r) request cr; ret (Returned x) }
         else if \<not> HasFinalizer cr finalizer
         then do { x \<leftarrow> add_finalizer (recorded_reconciler r) cr; ret (Returned x) }
         else sync_secret (recorded_reconciler r) cr)"
    if "object_key cr = request" "typed ownerKind cr" for cr
    using sync_returns [OF assms(1,2) that(2), unfolded that(1), OF assms(3)]
    by (auto intro!: logging_bind other_calls_return)
  have "wp (SecretReconciler.Reconcile (recorded_reconciler r) request) (\<lambda>_ (_, l). list_all ?ok l) (s, [])"
    unfolding SecretReconciler.Reconcile_def wp_bind recorded_reconciler_simps recorded_client_simps wp_recorded
  proof (rule wp_mono [OF assms(4)])
    fix g :: "ImageSecret result" and s'
    assume g: "\<forall>cr. g = Inr cr \<longrightarrow> object_key cr = request \<and> typed ownerKind cr"
    have one: "list_all ?ok [CRCall (CGet request) (err_of g)]" by (simp add: get)
    show "wp (case g of
        Inl err \<Rightarrow> if IsNotFound err then ret (Returned (no_requeue, None)) else ret (Returned (no_requeue, Some err))
      | Inr cr \<Rightarrow> if \<not> IsZero (DeletionTimestamp cr)
         then do { x \<leftarrow> finalize_secret (recorded_reconciler r) request cr; ret (Returned x) }
         else if \<not> HasFinalizer cr finalizer
         then do { x \<leftarrow> add_finalizer (recorded_reconciler r) cr; ret (Returned x) }
         else sync_secret (recorded_reconciler r) cr) (\<lambda>_ (_, l). list_all ?ok l)
      (s', [] @ [CRCall (CGet request) (err_of g)])"
    proof (cases g)
      case (Inl e)
      then show ?thesis by (simp add: get)
    next
      case (Inr cr)
      with g have "object_key cr = request" "typed ownerKind cr" by auto
      from rest [OF this, unfolded logging_def, rule_format, OF one] Inr show ?thesis
        by (simp del: wp_if)
    qed
  qed
  then show ?thesis by (simp add: list_all_iff)
qed

text \<open>A server whose secrets are always found, and empty.\<close>

definition blank_secrets :: "(Secret, cluster) client" where
  "blank_secrets = cluster_secrets\<lparr>Get := (\<lambda>k. ret (Inr (new_secret (nn_namespace k) (nn_name k))))\<rparr>"

lemma credential_events_return_witness:
  "wp (SecretReconciler.Reconcile (recorded_reconciler ((cluster_reconciler pull_config)\<lparr>secrets := blank_secrets\<rparr>)) (NN ''ns'' ''x''))
     (\<lambda>_ (_, l). \<forall>x e. SecretCall (CCreate x) e \<in> set l \<longrightarrow> NN ''ns'' ''x'' \<in>
        events_request demo_requests (secret_watches ''ImagePullSecret'' pull_config) ''Secret'' x)
     (demo_cluster\<lparr>all_crs := [NN ''ns'' ''x'' \<mapsto> demo_cr\<lparr>Kind := ''ImagePullSecret'', APIVersion := SchemeGroupVersion\<rparr>]\<rparr>, [])"
  (is "wp _ _ (?s, [])")
proof -
  let ?r = "(cluster_reconciler pull_config)\<lparr>secrets := blank_secrets\<rparr>"
  have "secret_server ?r"
    by (auto simp: secret_server_def cluster_reconciler_def cluster_ownership gets_asked_def blank_secrets_def
        object_key_def echoes_def wp_def cluster_crs_def mem_client_def complete_object_def identity_def
        split: prod.splits option.splits)
  moreover have "cfg ?r = pull_config" by (simp add: cluster_reconciler_def)
  ultimately show ?thesis
    using credential_events_return [OF demo_requests_contract, of ?r "NN ''ns'' ''x''" "''ImagePullSecret''" ?s]
    by (auto simp: mappable_def separator_def cluster_reconciler_def cluster_crs_def mem_client_def wp_def demo_cr_def
        object_key_def typed_def secret_event_returns_def split: prod.splits)
qed

end
