(* ===== verification/SecretRepair.thy ===== *)
theory SecretRepair
  imports SecretSystem SecretQueue WatchedInputs
begin

text \<open>
  The loop is closed: when credentials are lost, an event leads back to the resource, and the
  reconciliation that it requests restores them. What a reconciliation may write is stated as
  a guarantee, a relation between the worlds before and after it, which each of its calls
  keeps; the events of everything that is written under it request the resource.
\<close>

subsection \<open>The guarantee of a reconciliation\<close>

abbreviation secret_leads ::
  "(handler \<Rightarrow> kobject \<Rightarrow> NamespacedName list) \<Rightarrow> ReconcileImageSecretConfig \<Rightarrow> string \<Rightarrow> NamespacedName \<Rightarrow> Secret \<Rightarrow> bool" where
  "secret_leads rq c kind k x \<equiv> k \<in> events_request rq (secret_watches kind c) ''Secret'' x"

abbreviation account_leads ::
  "(handler \<Rightarrow> kobject \<Rightarrow> NamespacedName list) \<Rightarrow> ReconcileImageSecretConfig \<Rightarrow> string \<Rightarrow> NamespacedName \<Rightarrow>
   ImageRegistryAccount \<Rightarrow> bool" where
  "account_leads rq c kind k a \<equiv> mappable k \<longrightarrow> k \<in> events_request rq (secret_watches kind c) ''ImageRegistryAccount'' a"

text \<open>
  A reconciliation of the resource \<open>k\<close> writes secrets under the key of the resource's secret
  only and accounts under names of the resource only, whose events request \<open>k\<close>; and it creates
  no resource and keeps the type of those it writes.
\<close>

definition guarantee ::
  "(handler \<Rightarrow> kobject \<Rightarrow> NamespacedName list) \<Rightarrow> ReconcileImageSecretConfig \<Rightarrow> string \<Rightarrow> NamespacedName \<Rightarrow>
   cluster \<Rightarrow> cluster \<Rightarrow> bool" where
  "guarantee rq c kind k s s' \<longleftrightarrow>
     (\<forall>j x. all_secrets s' j = Some x \<longrightarrow> all_secrets s j = Some x \<or>
        (\<exists>cr. object_key cr = k \<and> j = own_key c cr) \<and> secret_leads rq c kind k x) \<and>
     (\<forall>j a. all_accounts s' j = Some a \<longrightarrow> all_accounts s j = Some a \<or>
        (\<exists>cr. object_key cr = k \<and> nn_name j = accountNameForCR (CRFactory c) cr) \<and> account_leads rq c kind k a) \<and>
     (\<forall>j cr. all_crs s' j = Some cr \<longrightarrow> all_crs s j = Some cr \<or> all_crs s j \<noteq> None \<and> typed kind cr)"

lemma guarantee_refl [simp]: "guarantee rq c kind k s s"
  by (simp add: guarantee_def)

lemma guarantee_cr:
  assumes "guarantee rq c kind k s0 s" "typed kind cr" "all_crs s j = Some cr0"
  shows "guarantee rq c kind k s0 (s\<lparr>all_crs := (all_crs s)(j \<mapsto> cr), next_uid := n\<rparr>)"
proof -
  have "all_crs s0 j \<noteq> None" using assms(1,3) unfolding guarantee_def by blast
  with assms(1,2) show ?thesis unfolding guarantee_def by auto
qed

lemma guarantee_account:
  assumes "guarantee rq c kind k s0 s" "account_leads rq c kind k a"
    and "object_key cr = k" "nn_name j = accountNameForCR (CRFactory c) cr"
  shows "guarantee rq c kind k s0 (s\<lparr>all_accounts := (all_accounts s)(j \<mapsto> a), next_uid := n\<rparr>)"
  using assms unfolding guarantee_def by auto

lemma guarantee_secret:
  assumes "guarantee rq c kind k s0 s" "secret_leads rq c kind k x"
    and "object_key cr = k" "j = own_key c cr"
  shows "guarantee rq c kind k s0 (s\<lparr>all_secrets := (all_secrets s)(j \<mapsto> x), next_uid := n\<rparr>)"
  using assms unfolding guarantee_def by auto

lemma guarantee_fewer:
  assumes "guarantee rq c kind k s0 s" "all_accounts s' \<subseteq>\<^sub>m all_accounts s"
    and "s' = s\<lparr>all_accounts := all_accounts s', next_uid := next_uid s'\<rparr>"
  shows "guarantee rq c kind k s0 s'"
proof -
  have same: "all_crs s' = all_crs s" "all_secrets s' = all_secrets s"
    by (subst assms(3), simp)+
  have "all_accounts s j = Some a" if "all_accounts s' j = Some a" for j a
    using assms(2) that by (auto simp: map_le_def dom_def)
  with assms(1) show ?thesis unfolding guarantee_def same by blast
qed

lemma account_leads_new:
  assumes "handler_contract rq" "Labels a = Some [AccountLabel c \<mapsto> ToMapValue k]"
  shows "account_leads rq c kind k a"
proof
  assume "mappable k"
  then have "Map (accountToSecret c) (kobject.truncate a) = [k]"
    by (intro Map_ToMapValue) (simp_all add: accountToSecret_def LabelToRequest_def assms(2))
  then show "k \<in> events_request rq (secret_watches kind c) ''ImageRegistryAccount'' a"
    using assms(1)
    by (auto simp: handler_contract_def secret_watches_def secondary_watches_def
        intro!: events_requestI [where h = "EnqueueRequestsFromMapFunc (Map (accountToSecret c))"])
qed

lemma secret_leads_owned:
  assumes "handler_contract rq" "typed kind owner" "sole_controller owner (OwnerReferences x)" "Namespace x = Namespace owner"
  shows "secret_leads rq c kind (object_key owner) x"
  by (rule controlled_requests [OF assms(1) _ assms(2-4)]) (simp add: secret_watches_def secondary_watches_def)

lemma typed_next [simp]: "typed kind (next_rotation cr now ns) = typed kind cr"
  by (simp add: typed_def next_rotation_def)

lemma rotation_guarantee:
  assumes "handler_contract rq" "typed kind cr" "object_key secret = own_key c cr"
    and "guarantee rq c kind (object_key cr) s0 s"
  shows "wp (rotatePassword (flaky_reconciler fs c) cr registry secret) (\<lambda>res s'. guarantee rq c kind (object_key cr) s0 s' \<and>
     (\<forall>e cr1. res = Returned (e, cr1) \<longrightarrow> typed kind cr1 \<and> object_key cr1 = object_key cr)) s"
proof -
  let ?r = "cluster_reconciler c" and ?G = "guarantee rq c kind (object_key cr) s0"
  let ?Q = "\<lambda>res s'. ?G s' \<and> (\<forall>e cr1. res = Returned (e, cr1) \<longrightarrow> typed kind cr1 \<and> object_key cr1 = object_key cr)"
  have ns: "Namespace secret = Namespace cr" using assms(3) by (simp add: own_key_def object_key_def)
  have finish: "wp (do { now \<leftarrow> Now cluster_lib;
      u \<leftarrow> StatusUpdate (flaky_client (fs ''resources'') cluster_crs) (next_rotation cr now (tr_Namespace registry));
      case fst u of
        Some err \<Rightarrow> ret (Returned (Some err, snd u))
      | None \<Rightarrow> do {
      a \<leftarrow> Create (flaky_client (fs ''accounts'') cluster_accounts) (new_account ?r (snd u) registry h);
      case fst a of
        Some err \<Rightarrow> ret (Returned (Some err, snd u))
      | None \<Rightarrow>
         (let filled = fill_secret ?r (snd u) registry (snd a) pw secret in
          case SetControllerReference cluster_lib (kobject.truncate (snd u)) (kobject.truncate filled) of
            Inl err \<Rightarrow> ret (Returned (Some err, snd u))
          | Inr refs \<Rightarrow> do {
              w \<leftarrow> (if length (UID filled) = 0
                   then Create (flaky_client (fs ''secrets'') cluster_secrets) (filled\<lparr>OwnerReferences := refs\<rparr>)
                   else Update (flaky_client (fs ''secrets'') cluster_secrets) (filled\<lparr>OwnerReferences := refs\<rparr>));
              ret (Returned (fst w, snd u))
            }) } }) ?Q s1"
    if "?G s1" for s1 h pw
  proof -
    let ?cr1 = "next_rotation cr (clock s1) (tr_Namespace registry)"
    let ?new = "new_account ?r ?cr1 registry h"
    let ?s2 = "s1\<lparr>all_crs := (all_crs s1)(object_key cr \<mapsto> ?cr1), next_uid := Suc (next_uid s1)\<rparr>"
    let ?s3 = "?s2\<lparr>all_accounts := (all_accounts s1)(NN (tr_Namespace registry) (accountNameForCR (CRFactory c) ?cr1) \<mapsto> complete_object ?s2 ?new),
      next_uid := Suc (Suc (next_uid s1))\<rparr>"
    have leads: "secret_leads rq c kind (object_key cr) x"
      if "SetControllerReference cluster_lib (kobject.truncate ?cr1) y = Inr refs" "OwnerReferences x = refs"
        "Namespace x = Namespace cr" for x y refs
      using secret_leads_owned [OF assms(1), of kind ?cr1 x c] ownership [OF cluster_ownership that(1)] that(2,3) assms(2)
      by simp
    show ?thesis
    proof (cases "all_crs s1 (object_key cr)")
      case None
      then show ?thesis using that assms(2) by (auto simp: wp_cluster intro!: wp_faultyI)
    next
      case (Some cr0)
      have g2: "?G ?s2" using guarantee_cr [OF that _ Some] assms(2) by simp
      have g3: "?G ?s3"
        using guarantee_account [OF g2 account_leads_new [OF assms(1)], where cr = ?cr1]
        by (simp add: new_account_def complete_object_def object_key_def)
      have g4: "?G (?s3\<lparr>all_secrets := (all_secrets s1)(object_key secret \<mapsto> x), next_uid := n\<rparr>)"
        if "secret_leads rq c kind (object_key cr) x" for x n
        using guarantee_secret [OF g3 that, where cr = cr] assms(3) by simp
      have stored: "?G (?s3\<lparr>all_secrets := (all_secrets s1)(object_key secret \<mapsto> x\<lparr>OwnerReferences := refs\<rparr>), next_uid := n\<rparr>)"
        "?G (?s3\<lparr>all_secrets := (all_secrets s1)(object_key secret \<mapsto> complete_object s3 (x\<lparr>OwnerReferences := refs\<rparr>)), next_uid := n\<rparr>)"
        if "SetControllerReference cluster_lib (kobject.truncate ?cr1) y = Inr refs" "Namespace x = Namespace cr" for x y refs s3 n
        by (rule g4, rule leads [OF that(1)]; simp add: that(2) complete_object_def)+
      have ns': "Namespace (fill_secret ?r ?cr1 registry a pw secret) = Namespace cr" for a
        by (simp add: fill_secret_def ns)
      show ?thesis
        using that assms(2) g2 g3 stored [OF _ ns'] Some
        by (auto simp: wp_cluster Let_def intro!: wp_faultyI split: option.split sum.split)
    qed
  qed
  show ?thesis
    unfolding rotatePassword_def flaky_reconciler_simps flaky_pure wp_bind
  proof (rule wp_cluster_password, goal_cases)
    case (1 pw n)
    show ?case
      unfolding wp_case_outcome outcome.case wp_bind wp_cluster(2) wp_case_sum sum.case
      by (rule wp_mono [where P = "\<lambda>_. ?G"])
        (auto intro!: wp_cluster_orphans finish [unfolded wp_bind] intro: guarantee_fewer [OF assms(4)] simp: assms(4)
          simp del: flaky_client_simps)
  qed
qed


lemma wp_guarantee_cr:
  assumes "guarantee rq c kind k s0 s" "typed kind x"
  shows "wp (StatusUpdate (flaky_client f cluster_crs) x) (\<lambda>_ s'. guarantee rq c kind k s0 s') s"
    and "wp (Update (flaky_client f cluster_crs) x) (\<lambda>_ s'. guarantee rq c kind k s0 s') s"
  using assms guarantee_cr [OF assms] by (auto simp: wp_cluster wp_cluster_update_cr intro!: wp_faultyI split: option.split)

lemma typed_simps [simp]:
  "typed kind (cr\<lparr>Finalizers := fs\<rparr>) = typed kind cr" "typed kind (cr\<lparr>Status := st\<rparr>) = typed kind cr"
  by (simp_all add: typed_def)

lemma status_guarantee:
  assumes "guarantee rq c kind k s0 s" "typed kind cr"
  shows "wp (setSyncStatus (flaky_reconciler fs c) cr t st reason msg) (\<lambda>_ s'. guarantee rq c kind k s0 s') s"
  using assms by (auto simp: setSyncStatus_def simp del: flaky_client_simps intro!: wp_cluster_SetCondition wp_guarantee_cr)

lemma finalize_guarantee:
  assumes "guarantee rq c kind k s0 s" "typed kind cr"
  shows "wp (finalize_secret (flaky_reconciler fs c) request cr) (\<lambda>_ s'. guarantee rq c kind k s0 s') s"
  using assms
  by (auto simp: finalize_secret_def simp del: flaky_client_simps intro!: wp_cluster_orphans wp_mono [OF wp_guarantee_cr(2)]
      guarantee_fewer [OF assms(1)] split: option.split)

lemma add_finalizer_guarantee:
  assumes "guarantee rq c kind k s0 s" "typed kind cr"
  shows "wp (add_finalizer (flaky_reconciler fs c) cr) (\<lambda>_ s'. guarantee rq c kind k s0 s') s"
proof -
  have written: "guarantee rq c kind k s0 (s\<lparr>all_crs := (all_crs s)(j \<mapsto> cr\<lparr>Finalizers := fin\<rparr>), next_uid := n\<rparr>)"
    if "all_crs s j \<noteq> None" for j fin n
    using that assms(2) by (auto intro: guarantee_cr [OF assms(1)])
  show ?thesis
    using assms written
    by (auto simp: add_finalizer_def wp_cluster_update_cr split: option.split
        intro!: wp_faultyI wp_mono [OF status_guarantee [where rq = rq and kind = kind and k = k and ?s0.0 = s0]])
qed

lemma sync_guarantee:
  assumes "handler_contract rq" "typed kind cr" "keyed (all_secrets s)"
  shows "wp (sync_secret (flaky_reconciler fs c) cr) (\<lambda>_ s'. guarantee rq c kind (object_key cr) s s') s"
proof -
  let ?r = "cluster_reconciler c" and ?G = "guarantee rq c kind (object_key cr) s"
  obtain k cr' where key: "getRegistryKeyForCR ?r cr = (k, cr')" by fastforce
  have cr': "typed kind cr'" "object_key cr' = object_key cr"
    using key assms(2) by (auto simp: getRegistryKeyForCR_def Let_def object_key_def typed_def split: option.splits)
  let ?own = "new_secret (Namespace cr') (secretNameForCR (CRFactory c) cr')"
  have rot: "wp (rotatePassword (flaky_reconciler fs c) cr' registry x) (\<lambda>res s'. ?G s' \<and>
      (\<forall>e cr1. res = Returned (e, cr1) \<longrightarrow> typed kind cr1 \<and> object_key cr1 = object_key cr)) s"
    if "x = ?own \<or> all_secrets s (object_key ?own) = Some x" for registry x
  proof -
    have "object_key x = own_key c cr'"
      using that assms(3) by (auto simp: keyed_def own_key_def)
    from rotation_guarantee [OF assms(1) cr'(1) this guarantee_refl] show ?thesis by (simp add: cr'(2))
  qed
  show ?thesis
    unfolding sync_secret_def key prod.case wp_bind flaky_reconciler_simps flaky_pure Let_def
  proof (rule wp_mono [OF getRegistry_found], goal_cases)
    case (1 g s')
    then show ?case
    proof (cases g)
      case (Inl err)
      with 1 show ?thesis by (auto intro!: wp_mono [OF status_guarantee [OF guarantee_refl cr'(1)]])
    next
      case (Inr registry)
      from 1 have s': "s' = s" by blast
      show ?thesis
        unfolding Inr sum.case wp_bind s'
        by (rule wp_mono [OF get_object_found [OF flaky_get(2)]], clarsimp split: option.split,
            rule wp_mono [OF get_object_found [OF flaky_get(3)]], clarsimp simp: wp_cluster split: option.split)
          (auto intro!: wp_mono [OF rot] wp_mono [OF status_guarantee] simp: cr'
            split: outcome.split option.split)
    qed
  qed
qed

lemma reconcile_guarantee:
  assumes "handler_contract rq" "keyed (all_secrets s)"
    and "\<And>cr. all_crs s request = Some cr \<Longrightarrow> object_key cr = request \<and> typed kind cr"
  shows "wp (SecretReconciler.Reconcile (flaky_reconciler fs c) request) (\<lambda>_ s'. guarantee rq c kind request s s') s"
  unfolding SecretReconciler.Reconcile_def wp_bind flaky_reconciler_simps
proof (rule wp_mono [OF flaky_get(4)], goal_cases)
  case (1 g s')
  then show ?case
  proof (cases g)
    case (Inr cr)
    with 1 have s': "s' = s" and cr: "object_key cr = request" "typed kind cr" using assms(3) by auto
    show ?thesis
      using sync_guarantee [OF assms(1) cr(2) assms(2), unfolded cr(1)]
      by (auto simp: Inr s' intro!: wp_mono [OF finalize_guarantee [OF guarantee_refl cr(2)]]
          wp_mono [OF add_finalizer_guarantee [OF guarantee_refl cr(2)]])
  qed simp
qed

subsection \<open>Everything that was issued leads back\<close>

text \<open>
  The worlds that are reached from one in which no credentials were issued yet. The API
  server gives every resource its kind, whoever writes it.
\<close>

definition typed_world :: "string \<Rightarrow> cluster \<Rightarrow> bool" where
  "typed_world kind s \<longleftrightarrow> (\<forall>k cr. all_crs s k = Some cr \<longrightarrow> typed kind cr)"

inductive served_world :: "ReconcileImageSecretConfig \<Rightarrow> string \<Rightarrow> cluster \<Rightarrow> bool" for c kind where
  unserved: "\<lbrakk>keyed (all_secrets s); typed_world kind s;
    \<And>k regcr. all_registries s k = Some regcr \<Longrightarrow> CHR ''.'' \<notin> set (Namespace regcr);
    \<And>k cr. all_crs s k = Some cr \<Longrightarrow> object_key cr = k \<and> CHR ''.'' \<notin> set (Namespace cr) \<and>
      all_secrets s (own_key c cr) = None;
    \<And>k a cr. all_accounts s k = Some a \<Longrightarrow> nn_name k \<noteq> accountNameForCR (CRFactory c) cr\<rbrakk> \<Longrightarrow> served_world c kind s"
| served: "\<lbrakk>served_world c kind s; system_step c s s'; others_change c s s' \<Longrightarrow> typed_world kind s'\<rbrakk> \<Longrightarrow>
    served_world c kind s'"

lemma served_reachable: "served_world c kind s \<Longrightarrow> reachable_world c s"
  by (induction rule: served_world.induct) (auto intro: initially afterwards)

definition tracked ::
  "(handler \<Rightarrow> kobject \<Rightarrow> NamespacedName list) \<Rightarrow> ReconcileImageSecretConfig \<Rightarrow> string \<Rightarrow> cluster \<Rightarrow> bool" where
  "tracked rq c kind s \<longleftrightarrow> typed_world kind s \<and>
     (\<forall>k cr x. all_crs s k = Some cr \<longrightarrow> all_secrets s (own_key c cr) = Some x \<longrightarrow> secret_leads rq c kind k x) \<and>
     (\<forall>j a cr. all_accounts s j = Some a \<longrightarrow> nn_name j = accountNameForCR (CRFactory c) cr \<longrightarrow>
        CHR ''.'' \<notin> set (Namespace cr) \<longrightarrow> account_leads rq c kind (object_key cr) a)"

lemma trackedI:
  assumes "typed_world kind s"
    and "\<And>k cr x. all_crs s k = Some cr \<Longrightarrow> all_secrets s (own_key c cr) = Some x \<Longrightarrow> secret_leads rq c kind k x"
    and "\<And>j a cr. all_accounts s j = Some a \<Longrightarrow> nn_name j = accountNameForCR (CRFactory c) cr \<Longrightarrow>
      CHR ''.'' \<notin> set (Namespace cr) \<Longrightarrow> account_leads rq c kind (object_key cr) a"
  shows "tracked rq c kind s"
  using assms by (auto simp: tracked_def)

lemma trackedD:
  assumes "tracked rq c kind s"
  shows "typed_world kind s"
    and "all_crs s k = Some cr \<Longrightarrow> all_secrets s (own_key c cr) = Some x \<Longrightarrow> secret_leads rq c kind k x"
    and "all_accounts s j = Some a \<Longrightarrow> nn_name j = accountNameForCR (CRFactory c) cr \<Longrightarrow>
      CHR ''.'' \<notin> set (Namespace cr) \<Longrightarrow> account_leads rq c kind (object_key cr) a"
  using assms by (auto simp: tracked_def)

lemma account_name_key:
  assumes "accountNameForCR k cr = accountNameForCR k cr'" "CHR ''.'' \<notin> set (Namespace cr)" "CHR ''.'' \<notin> set (Namespace cr')"
  shows "object_key cr = object_key cr'"
  using assms by (auto simp: accountNameForCR_def join_inj join_inj_right object_key_def)

text \<open>A reconciliation keeps the invariant by its guarantee, the others by theirs.\<close>

lemma typed_guarantee: "typed_world kind s \<Longrightarrow> guarantee rq c kind k s s' \<Longrightarrow> typed_world kind s'"
  unfolding typed_world_def guarantee_def by blast

lemma tracked_guarantee:
  assumes "tracked rq c kind s" "coherent c s" "coherent c s'" "guarantee rq c kind k s s'" "CHR ''.'' \<notin> set (nn_namespace k)"
  shows "tracked rq c kind s'"
proof (rule trackedI)
  show "typed_world kind s'" by (rule typed_guarantee [OF trackedD(1) [OF assms(1)] assms(4)])
next
  fix j cr x
  assume cr: "all_crs s' j = Some cr" and x: "all_secrets s' (own_key c cr) = Some x"
  from assms(4) cr obtain cr0 where cr0: "all_crs s j = Some cr0" unfolding guarantee_def by blast
  have key: "object_key cr = j" "object_key cr0 = j"
    using coherentD(2) [OF assms(3) cr] coherentD(2) [OF assms(2) cr0] by auto
  from assms(4) x consider "all_secrets s (own_key c cr) = Some x" |
      cr' where "object_key cr' = k" "own_key c cr = own_key c cr'" "secret_leads rq c kind k x"
    unfolding guarantee_def by blast
  then show "secret_leads rq c kind j x"
  proof cases
    case 1
    then show ?thesis using trackedD(2) [OF assms(1) cr0] own_key_eq [of c cr cr0] key by simp
  next
    case 2
    then show ?thesis using own_key_eq [of c cr cr'] key by simp
  qed
next
  fix j a cr
  assume a: "all_accounts s' j = Some a" "nn_name j = accountNameForCR (CRFactory c) cr" and dot: "CHR ''.'' \<notin> set (Namespace cr)"
  from assms(4) a(1) consider "all_accounts s j = Some a" |
      cr' where "object_key cr' = k" "nn_name j = accountNameForCR (CRFactory c) cr'" "account_leads rq c kind k a"
    unfolding guarantee_def by blast
  then show "account_leads rq c kind (object_key cr) a"
  proof cases
    case 1
    then show ?thesis by (rule trackedD(3) [OF assms(1) _ a(2) dot])
  next
    case (2 cr')
    have "CHR ''.'' \<notin> set (Namespace cr')" using 2(1) assms(5) by (auto simp: object_key_def)
    with account_name_key [OF _ dot this] 2 a(2) show ?thesis by metis
  qed
qed

lemma tracked_fewer:
  assumes "tracked rq c kind s" "all_crs s' = all_crs s" "all_secrets s' = all_secrets s" "all_accounts s' \<subseteq>\<^sub>m all_accounts s"
  shows "tracked rq c kind s'"
proof -
  have "all_accounts s j = Some a" if "all_accounts s' j = Some a" for j a
    using assms(4) that by (auto simp: map_le_def dom_def)
  with assms(1) show ?thesis unfolding tracked_def typed_world_def assms(2,3) by blast
qed

lemma tracked_others:
  assumes "tracked rq c kind s" "coherent c s" "others_change c s s'" "typed_world kind s'"
  shows "tracked rq c kind s'"
proof (rule trackedI [OF assms(4)])
  fix k cr x
  assume cr: "all_crs s' k = Some cr" and x: "all_secrets s' (own_key c cr) = Some x"
  with assms(3) obtain cr0 where cr0: "all_crs s k = Some cr0" and old: "all_secrets s (own_key c cr) = Some x"
    and key: "object_key cr = k"
    unfolding others_change_def by blast
  have "own_key c cr = own_key c cr0" using coherentD(2) [OF assms(2) cr0] key own_key_eq by metis
  with old show "secret_leads rq c kind k x" by (intro trackedD(2) [OF assms(1) cr0]) simp
next
  fix j a cr
  assume a: "all_accounts s' j = Some a" "nn_name j = accountNameForCR (CRFactory c) cr" and dot: "CHR ''.'' \<notin> set (Namespace cr)"
  then have "all_accounts s j = Some a"
    using assms(3) unfolding others_change_def by (metis NamespacedName.collapse)
  then show "account_leads rq c kind (object_key cr) a" by (rule trackedD(3) [OF assms(1) _ a(2) dot])
qed

lemma expiry_fewer:
  "wp (AccountController.Reconcile (flaky_account_reconciler f) k) (\<lambda>_ s'. all_crs s' = all_crs s \<and>
     all_secrets s' = all_secrets s \<and> all_accounts s' \<subseteq>\<^sub>m all_accounts s) s"
  by (auto simp: AccountController.Reconcile_def flaky_account_reconciler_def cluster_accounts_def mem_client_def
      Expired_def wp_State wp_cluster map_le_def intro!: wp_faultyI split: option.split)

lemma tracked_step:
  assumes "handler_contract rq" "standard_config c" "tracked rq c kind s" "coherent c s" "system_step c s s'"
    and "others_change c s s' \<Longrightarrow> typed_world kind s'"
  shows "tracked rq c kind s'"
  using assms(5)
proof cases
  case (secret_reconciled request fs res)
  have coh: "coherent c s'" by (rule step_coherent [OF assms(2,4,5)])
  show ?thesis
  proof (cases "all_crs s request")
    case None
    have "wp (SecretReconciler.Reconcile (flaky_reconciler fs c) request) (\<lambda>_ s'. s' = s) s"
      unfolding SecretReconciler.Reconcile_def wp_bind flaky_reconciler_simps
      by (rule wp_mono [OF flaky_get(4)]) (auto simp: None split: sum.split)
    then show ?thesis using secret_reconciled(2) assms(3) by (simp add: wp_def)
  next
    case (Some cr)
    have key: "object_key cr = request" "CHR ''.'' \<notin> set (nn_namespace request)"
      using coherentD(2,3) [OF assms(4) Some] by (auto simp: object_key_def)
    have "typed kind cr" using trackedD(1) [OF assms(3)] Some by (auto simp: typed_world_def)
    with reconcile_guarantee [OF assms(1) coherentD(1) [OF assms(4)], of request kind fs c] key(1) Some
    have "guarantee rq c kind request s s'" using secret_reconciled(2) by (simp add: wp_def)
    then show ?thesis by (rule tracked_guarantee [OF assms(3,4) coh _ key(2)])
  qed
next
  case (account_reconciled f request res)
  then show ?thesis using expiry_fewer [of f request s] tracked_fewer [OF assms(3)] by (simp add: wp_def)
next
  case others
  then show ?thesis using tracked_others [OF assms(3,4)] assms(6) by blast
qed

lemma served_tracked:
  assumes "served_world c kind s" "handler_contract rq" "standard_config c"
  shows "tracked rq c kind s"
  using assms(1)
proof induction
  case (unserved s)
  then show ?case by (intro trackedI) auto
next
  case (served s s')
  have "coherent c s" by (rule reachable_coherent [OF served_reachable [OF served.hyps(1)] assms(3)])
  from tracked_step [OF assms(2,3) served.IH this] served.hyps show ?case by blast
qed

subsection \<open>Losses\<close>

text \<open>
  What may be lost of the credentials of \<open>cr\<close>, whoever removes it (the account controller, when
  the account has expired, the registry's garbage collection, a person): the world after it,
  and the kind of the object whose deletion is the event, with the object.
\<close>

inductive loses :: "ReconcileImageSecretConfig \<Rightarrow> ImageSecret \<Rightarrow> cluster \<Rightarrow> cluster \<Rightarrow> string \<Rightarrow> kobject \<Rightarrow> bool"
  for c cr s where
  secret_lost: "all_secrets s (own_key c cr) = Some x \<Longrightarrow>
    loses c cr s (s\<lparr>all_secrets := (all_secrets s)(own_key c cr := None)\<rparr>) ''Secret'' (kobject.truncate x)"
| account_lost: "\<lbrakk>all_secrets s (own_key c cr) = Some x;
    all_accounts s (NN ns (map_get (Data x) SecretKeyUsername)) = Some a\<rbrakk> \<Longrightarrow>
    loses c cr s (s\<lparr>all_accounts := (all_accounts s)(NN ns (map_get (Data x) SecretKeyUsername) := None)\<rparr>)
      ''ImageRegistryAccount'' (kobject.truncate a)"

inductive_cases loses_cases: "loses c cr s s' kind' obj"

lemma truncate_again [simp]: "kobject.truncate (kobject.truncate x) = kobject.truncate x"
  by (simp add: kobject.defs)

lemma events_truncate [simp]: "events_request rq ws kind (kobject.truncate x) = events_request rq ws kind x"
  by (simp only: events_request_def truncate_again)

lemma loss_leads_back:
  assumes "tracked rq c kind s" "coherent c s" "all_crs s k = Some cr"
    and "kind' = ''ImageRegistryAccount'' \<longrightarrow> mappable k" "loses c cr s s' kind' obj"
  shows "k \<in> events_request rq (secret_watches kind c) kind' obj"
  using assms(5)
proof cases
  case (secret_lost x)
  then show ?thesis using trackedD(2) [OF assms(1,3)] by simp
next
  case (account_lost x ns a)
  from coherentD(4) [OF assms(2,3) account_lost(4)] obtain n where
    "map_get (Data x) SecretKeyUsername = accountNameForCR (CRFactory c) (at_rotation n cr)"
    by (auto simp: secret_fits_def)
  from trackedD(3) [OF assms(1) account_lost(5), of "at_rotation n cr"] this coherentD(2,3) [OF assms(2,3)] assms(4)
  show ?thesis by (simp add: account_lost)
qed

lemma loss_is_change:
  assumes "coherent c s" "loses c cr s s' kind' obj"
  shows "others_change c s s'" and "all_crs s' = all_crs s"
proof -
  have base: "\<forall>k cr. all_crs s k = Some cr \<longrightarrow> object_key cr = k \<and> CHR ''.'' \<notin> set (Namespace cr)"
    "\<forall>k regcr. all_registries s k = Some regcr \<longrightarrow> CHR ''.'' \<notin> set (Namespace regcr)"
    using coherentD [OF assms(1)] by blast+
  show "all_crs s' = all_crs s" using assms(2) by cases simp_all
  show "others_change c s s'"
    using assms(2)
  proof cases
    case (secret_lost x)
    then show ?thesis using base coherentD(1) [OF assms(1)] by (auto simp: others_change_def keyed_def)
  next
    case (account_lost x ns a)
    then show ?thesis using base coherentD(1) [OF assms(1)] by (auto simp: others_change_def keyed_def)
  qed
qed


subsection \<open>The repair\<close>

text \<open>At rest, the secret is the one of the counted rotation, and its user is the account.\<close>

lemma settled_account:
  assumes "settled (cluster_reconciler c) k cr (found_registry regcr tls) a y now s" "coherent c s"
  shows "all_crs s k = Some cr" "all_secrets s (own_key c cr) = Some y"
    and "all_accounts s (NN (Namespace regcr) (map_get (Data y) SecretKeyUsername)) = Some a"
    and "map_get (Data y) SecretKeyRegistry = RegistryHostname regcr ''svc.cluster.local''"
proof -
  obtain kr cr' where key: "getRegistryKeyForCR (cluster_reconciler c) cr = (kr, cr')" by fastforce
  note again = registry_key_again [OF key]
  have name: "accountNameForCR (CRFactory c) cr' = accountNameForCR (CRFactory c) cr"
    "secretNameForCR (CRFactory c) cr' = secretNameForCR (CRFactory c) cr"
    using again by (simp_all add: accountNameForCR_def secretNameForCR_def)
  from assms(1) have at_rest: "all_crs s k = Some cr" "all_secrets s (own_key c cr) = Some y"
    "all_accounts s (NN (Namespace regcr) (accountNameForCR (CRFactory c) cr)) = Some a"
    and due: "\<not> rotation_due (cluster_reconciler c) cr' (found_registry regcr tls) True a True y now"
    using again by (auto simp: settled_def sees_def key Let_def name own_key_def found_registry_def split: option.splits)
  then have "map_get (Annotations y) annotationSecretRotation = FormatInt (Rotation (Status cr))"
    and host: "map_get (Data y) SecretKeyRegistry = RegistryHostname regcr ''svc.cluster.local''"
    using again by (auto simp: rotation_due_def found_registry_def Let_def)
  with coherentD(4) [OF assms(2) at_rest(1,2)]
  have "map_get (Data y) SecretKeyUsername = accountNameForCR (CRFactory c) (at_rotation (Rotation (Status cr)) cr)"
    by (auto simp: secret_fits_def)
  with at_rest host show "all_crs s k = Some cr" "all_secrets s (own_key c cr) = Some y"
    "all_accounts s (NN (Namespace regcr) (map_get (Data y) SecretKeyUsername)) = Some a"
    "map_get (Data y) SecretKeyRegistry = RegistryHostname regcr ''svc.cluster.local''"
    by (simp_all add: at_own_rotation)
qed

text \<open>The rounds of the loop keep the invariant.\<close>

lemma rounds_coherent:
  assumes "standard_config c" "coherent c s"
    and "\<forall>j \<le> i. \<exists>crj. all_crs (rounds c k j s) k = Some crj \<and>
      minDuration \<le> Rotation (Status crj) \<and> Rotation (Status crj) < maxDuration"
  shows "coherent c (rounds c k (Suc i) s)"
  using assms(2,3)
proof (induction i arbitrary: s)
  have step: "coherent c (reconciled_world (cluster_reconciler c) k t)"
    if "coherent c t" "all_crs t k = Some cr" "minDuration \<le> Rotation (Status cr)" "Rotation (Status cr) < maxDuration" for t cr
    using reconcile_coherent [OF assms(1) that(1), of k "\<lambda>_ _ _. Works", simplified no_faults] that(2-)
    by (simp add: reconciled_world_def wp_def split: prod.splits)
  {
    case 0
    then show ?case using step by (auto simp: rounds_def)
  next
    case (Suc i)
    have "coherent c (reconciled_world (cluster_reconciler c) k s)"
      using spec [OF Suc.prems(2), of 0] step [OF Suc.prems(1)] by (auto simp: rounds_def)
    moreover have "\<forall>j \<le> i. \<exists>crj. all_crs (rounds c k j (reconciled_world (cluster_reconciler c) k s)) k = Some crj \<and>
        minDuration \<le> Rotation (Status crj) \<and> Rotation (Status crj) < maxDuration"
      using Suc.prems(2) by (metis Suc_le_mono rounds_Suc)
    ultimately show ?case by (subst rounds_Suc) (rule Suc.IH)
  }
qed

lemma loop_repairs:
  assumes "servable c k cr regcr tls s" "uncontrolled c cr s" "rotations_left cr s" "coherent c s"
  shows "\<exists>s' y m. reconcile_loop (cluster_reconciler c) k s = Some (False, s') \<and>
     all_secrets s' (own_key c cr) = Some y \<and>
     map_get (Data y) SecretKeyRegistry = RegistryHostname regcr ''svc.cluster.local'' \<and>
     fst (fst (run_state (Authenticate (cluster_authenticator (Namespace regcr)) []
       (map_get (Data y) SecretKeyUsername) (map_get (Data y) SecretKeyPassword)) s')) = (Some m, None) \<and>
     m ''namespace'' = Some [Namespace cr] \<and> m ''name'' = Some [Name cr] \<and>
     m ''accessMode'' = Some [GetRegistryAccessMode (CRFactory c)]"
proof -
  have live: "standard_config c" "all_crs s k = Some cr" "object_key cr = k" "\<exists>j. all_registries s j = Some regcr"
    using assms(1) by (auto simp: servable_def Let_def)
  obtain i s' where loop: "reconcile_loop (cluster_reconciler c) k s = Some (False, s')"
    and s': "s' = rounds c k (Suc i) s" "at_rest c k regcr tls s'"
    and counts: "\<forall>j \<le> i. \<exists>crj. all_crs (rounds c k j s) k = Some crj \<and>
      minDuration \<le> Rotation (Status crj) \<and> Rotation (Status crj) < maxDuration"
    using loop_servable [OF assms(1-3)] by blast
  obtain cr1 a y where rest: "settled (cluster_reconciler c) k cr1 (found_registry regcr tls) a y (clock s') s'"
    using s'(2) unfolding at_rest_def by blast
  have coh: "coherent c s'" unfolding s'(1) by (rule rounds_coherent [OF live(1) assms(4) counts])
  note at_rest = settled_account [OF rest coh]
  have key: "object_key cr1 = object_key cr" using coherentD(2) [OF coh at_rest(1)] live(3) by simp
  then have own: "own_key c cr1 = own_key c cr" and id: "Namespace cr1 = Namespace cr" "Name cr1 = Name cr"
    by (simp_all add: own_key_eq object_key_def)
  have dot: "CHR ''.'' \<notin> set (Namespace regcr)" using live(4) coherentD(5) [OF assms(4)] by blast
  from coherent_login [OF coh at_rest(1,2,4) dot] at_rest(3) obtain m where
    "fst (fst (run_state (Authenticate (cluster_authenticator (Namespace regcr)) []
       (map_get (Data y) SecretKeyUsername) (map_get (Data y) SecretKeyPassword)) s')) = (Some m, None)"
    "m ''namespace'' = Some [Namespace cr]" "m ''name'' = Some [Name cr]"
    "m ''accessMode'' = Some [GetRegistryAccessMode (CRFactory c)]"
    by (auto simp: Let_def id)
  with loop at_rest(2,4) own show ?thesis by metis
qed

text \<open>
  C2. Lost credentials come back. However the secret controller, the account controller and
  everybody else took turns before, and whichever calls failed: when the secret of a resource
  is deleted, or the account that it names, by whomever, then the event of the deletion
  requests the resource through the watches of its controller. For a deleted account this
  takes a resource without a dot in its name, since the account's label joins namespace and
  name with a dot. And the controller reconciles the resource until nothing changes, which
  comes to an end, in a world whose stored secret, for the registry's host name, logs in with
  the labels of the resource. For that the resource must have its finalizer and not be
  deleted, its registry must be ready and have its TLS secret, no other object may control the
  resource's secret, and its counter must be farther from its largest value than there are
  accounts; accounts with the names of its next rotations may exist already.
\<close>

theorem lost_credentials_return:
  assumes "served_world c kind s" "handler_contract rq" "kind' = ''ImageRegistryAccount'' \<longrightarrow> mappable k"
    and "all_crs s k = Some cr" "loses c cr s s' kind' obj"
    and "servable c k cr regcr tls s'" "uncontrolled c cr s'" "rotations_left cr s'"
  shows "k \<in> events_request rq (secret_watches kind c) kind' obj \<and>
     (\<exists>s'' y m. reconcile_loop (cluster_reconciler c) k s' = Some (False, s'') \<and>
       all_secrets s'' (own_key c cr) = Some y \<and>
       map_get (Data y) SecretKeyRegistry = RegistryHostname regcr ''svc.cluster.local'' \<and>
       fst (fst (run_state (Authenticate (cluster_authenticator (Namespace regcr)) []
         (map_get (Data y) SecretKeyUsername) (map_get (Data y) SecretKeyPassword)) s'')) = (Some m, None) \<and>
       m ''namespace'' = Some [Namespace cr] \<and> m ''name'' = Some [Name cr] \<and>
       m ''accessMode'' = Some [GetRegistryAccessMode (CRFactory c)])"
proof
  have std: "standard_config c" using assms(6) by (simp add: servable_def)
  have coh: "coherent c s" by (rule reachable_coherent [OF served_reachable [OF assms(1)] std])
  show "k \<in> events_request rq (secret_watches kind c) kind' obj"
    by (rule loss_leads_back [OF served_tracked [OF assms(1,2) std] coh assms(4,3,5)])
  have "coherent c s'" by (rule others_coherent [OF coh loss_is_change(1) [OF coh assms(5)]])
  from loop_repairs [OF assms(6-8) this]
  show "\<exists>s'' y m. reconcile_loop (cluster_reconciler c) k s' = Some (False, s'') \<and>
       all_secrets s'' (own_key c cr) = Some y \<and>
       map_get (Data y) SecretKeyRegistry = RegistryHostname regcr ''svc.cluster.local'' \<and>
       fst (fst (run_state (Authenticate (cluster_authenticator (Namespace regcr)) []
         (map_get (Data y) SecretKeyUsername) (map_get (Data y) SecretKeyPassword)) s'')) = (Some m, None) \<and>
       m ''namespace'' = Some [Namespace cr] \<and> m ''name'' = Some [Name cr] \<and>
       m ''accessMode'' = Some [GetRegistryAccessMode (CRFactory c)]" .
qed


subsection \<open>A loss\<close>

lemma FormatInt_two: "FormatInt 2 = ''2''"
proof -
  have "char_of (50 :: nat) = CHR ''2''"
    by (rule of_char_eq_iff [where 'a = nat, THEN iffD1]) simp
  then show ?thesis by (simp add: FormatInt_def format_nat.simps digit_char_def)
qed

lemma demo_served_world:
  "\<exists>s cr x. served_world pull_config ''ImagePullSecret'' s \<and> all_crs s (NN ''ns'' ''x'') = Some cr \<and>
     demo_rotated cr \<and> demo_served s \<and> all_secrets s (own_key pull_config cr) = Some x"
proof -
  let ?k = "NN ''ns'' ''x''"
  obtain res s where run: "run_state (SecretReconciler.Reconcile (cluster_reconciler pull_config) ?k) demo_cluster = (res, s)"
    by fastforce
  from demo_login_world obtain cr x where s: "all_crs s ?k = Some cr" "demo_rotated cr" "demo_served s"
    "all_secrets s (NN ''ns'' ''imagepullsecret-x'') = Some x"
    by (auto simp: wp_run [OF run])
  have demo: "all_crs demo_cluster = [?k \<mapsto> demo_cr]" "object_key demo_cr = ?k" "typed ''ImagePullSecret'' demo_cr"
    by (simp_all add: demo_cluster_def demo_cr_def object_key_def typed_def SchemeGroupVersion_def)
  have start: "served_world pull_config ''ImagePullSecret'' demo_cluster"
    by (rule unserved)
      (use demo in \<open>auto simp: demo_cluster_def empty_cluster_def keyed_def typed_world_def demo_cr_def demo_registry_def
        demo_tls_def object_key_def own_key_def secretNameForCR_def pull_config_def TypePull_def split: if_splits\<close>)
  have step: "system_step pull_config demo_cluster s"
    by (rule secret_reconciled [where fs = "\<lambda>_ _ _. Works", simplified no_faults, OF _ run])
      (auto simp: demo_cluster_def demo_cr_def new_ImageSecretStatus_def minDuration_def maxDuration_def)
  have "keyed (all_secrets demo_cluster)"
    by (auto simp: demo_cluster_def empty_cluster_def keyed_def demo_tls_def object_key_def)
  from reconcile_guarantee [OF demo_requests_contract this, of ?k "''ImagePullSecret''" "\<lambda>_ _ _. Works" pull_config] demo
  have "guarantee demo_requests pull_config ''ImagePullSecret'' ?k demo_cluster s" by (simp add: wp_run [OF run])
  moreover have "typed_world ''ImagePullSecret'' demo_cluster" using demo by (simp add: typed_world_def)
  ultimately have "typed_world ''ImagePullSecret'' s" by (blast intro: typed_guarantee)
  then have "served_world pull_config ''ImagePullSecret'' s" using served [OF start step] by blast
  moreover have "own_key pull_config cr = NN ''ns'' ''imagepullsecret-x''"
    using s(2) by (simp add: demo_rotated_def own_key_def secretNameForCR_def pull_config_def TypePull_def object_key_def)
  ultimately show ?thesis using s by auto
qed

lemma demo_loss_live:
  assumes "all_crs s (NN ''ns'' ''x'') = Some cr" "demo_rotated cr" "demo_served s"
    and "s' = s\<lparr>all_secrets := (all_secrets s)(own_key pull_config cr := None)\<rparr>"
  shows "servable pull_config (NN ''ns'' ''x'') cr demo_registry demo_tls s'" "uncontrolled pull_config cr s'"
    "rotations_left cr s'"
proof -
  have id: "Name cr = ''x''" "Namespace cr = ''ns''" "RegistryRef cr = None"
    using assms(2) by (auto simp: demo_rotated_def object_key_def)
  have "fst (getRegistryKeyForCR (cluster_reconciler pull_config) cr) = NN ''operator'' ''registry''"
    using demo_getRegistry(1) by (simp add: getRegistryKeyForCR_def id demo_cr_def Let_def split: option.splits)
  then show "servable pull_config (NN ''ns'' ''x'') cr demo_registry demo_tls s'"
    using assms id
    by (simp add: servable_def demo_rotated_def demo_served_def own_key_def secretNameForCR_def Let_def)
      (simp add: standard_config_def demo_cluster_def demo_registry_def demo_tls_def pull_config_def TypePull_def cluster_lib_def)
  show "uncontrolled pull_config cr s'"
    by (simp add: uncontrolled_def assms(4) own_key_def)
  show "rotations_left cr s'"
    using assms(2,3) by (simp add: rotations_left_def demo_rotated_def demo_served_def assms(4) minDuration_def maxDuration_def)
qed

theorem lost_credentials_return_witness:
  "\<exists>s s' x. served_world pull_config ''ImagePullSecret'' s \<and> all_secrets s (NN ''ns'' ''imagepullsecret-x'') = Some x \<and>
     NN ''ns'' ''x'' \<in> events_request demo_requests (secret_watches ''ImagePullSecret'' pull_config) ''Secret'' x \<and>
     reconcile_loop (cluster_reconciler pull_config) (NN ''ns'' ''x'')
       (s\<lparr>all_secrets := (all_secrets s)(NN ''ns'' ''imagepullsecret-x'' := None)\<rparr>) = Some (False, s') \<and>
     all_secrets s' (NN ''ns'' ''imagepullsecret-x'') \<noteq> None"
proof -
  obtain s cr x where s: "served_world pull_config ''ImagePullSecret'' s" "all_crs s (NN ''ns'' ''x'') = Some cr"
    "demo_rotated cr" "demo_served s" "all_secrets s (own_key pull_config cr) = Some x"
    using demo_served_world by blast
  have own: "own_key pull_config cr = NN ''ns'' ''imagepullsecret-x''"
    using s(3) by (simp add: demo_rotated_def own_key_def secretNameForCR_def pull_config_def TypePull_def object_key_def)
  from lost_credentials_return [OF s(1) demo_requests_contract _ s(2) secret_lost [OF s(5)] demo_loss_live [OF s(2-4) refl]]
    s(1,5) show ?thesis
    by (auto simp: own)
qed

end
