(* ===== verification/AuthConcurrency.thy ===== *)
theory AuthConcurrency
  imports Auth
begin

text \<open>
  Logins at the same time. The server that hosts the authenticator calls \<open>Authenticate\<close> from
  many goroutines, which share the cache: \<open>findAccount\<close> reads it without the lock, and
  \<open>addToCache\<close> copies it under the lock and replaces it. Here a login is a state machine that
  takes one step for each read of the cache, of the clock and of the server, and the steps
  of all logins are interleaved in any way. A map is not changed after it has become the
  cache, so the unlocked read yields some map that has been the cache; since nothing orders
  the read after the last write, it may be an old one.
\<close>

subsection \<open>The steps\<close>

datatype login =
    Started string string
  | Checking string string cachedAccount
  | Asking string string
  | Stamping string string ImageRegistryAccount
  | Waiting string string cachedAccount
  | Copying string string cachedAccount cache cache
  | Finished string string "labels option" "go_error option"

text \<open>All maps that have been the cache, the last one first; who holds the lock; the logins;
  and what each of them has read.\<close>

record auth_state =
  published :: "cache list"
  holder :: "nat option"
  logins :: "nat \<rightharpoonup> login"
  events :: "nat \<Rightarrow> auth_event list"

definition auth_init :: auth_state where
  "auth_init = \<lparr>published = [[]], holder = None, logins = Map.empty, events = (\<lambda>_. [])\<rparr>"

definition moves :: "auth_state \<Rightarrow> nat \<Rightarrow> login \<Rightarrow> auth_event list \<Rightarrow> auth_state" where
  "moves x i p es = x\<lparr>logins := (logins x)(i \<mapsto> p), events := (events x)(i := events x i @ es)\<rparr>"

definition accepted :: "'s Authenticator \<Rightarrow> cachedAccount \<Rightarrow> string \<Rightarrow> labels option" where
  "accepted au a pw = (if MatchPassword au a pw then Some (ca_Labels a) else None)"

definition user_key :: "'s Authenticator \<Rightarrow> string \<Rightarrow> NamespacedName" where
  "user_key au user = NN (au_namespace au) user"

inductive auth_step :: "'s Authenticator \<Rightarrow> auth_state \<Rightarrow> auth_state \<Rightarrow> bool" for au where
  spawn: "logins x i = None \<Longrightarrow> auth_step au x (moves x i (Started user pw) [])"
| refuse: "logins x i = Some (Started user pw) \<Longrightarrow> user = [] \<or> pw = [] \<Longrightarrow>
    auth_step au x (moves x i (Finished user pw None None) [])"
| miss: "logins x i = Some (Started user pw) \<Longrightarrow> user \<noteq> [] \<Longrightarrow> pw \<noteq> [] \<Longrightarrow>
    c \<in> set (published x) \<Longrightarrow> map_of c user = None \<Longrightarrow> auth_step au x (moves x i (Asking user pw) [])"
| hit: "logins x i = Some (Started user pw) \<Longrightarrow> user \<noteq> [] \<Longrightarrow> pw \<noteq> [] \<Longrightarrow>
    c \<in> set (published x) \<Longrightarrow> map_of c user = Some a \<Longrightarrow> auth_step au x (moves x i (Checking user pw a) [])"
| check: "logins x i = Some (Checking user pw a) \<Longrightarrow> run_state (au_Now au) s = (now, s') \<Longrightarrow>
    auth_step au x (moves x i (if expired_at now a then Asking user pw
      else Finished user pw (accepted au a pw) None) [Clock now])"
| ask_fails: "logins x i = Some (Asking user pw) \<Longrightarrow> run_state (au_Get au (user_key au user)) s = (Inl err, s') \<Longrightarrow>
    auth_step au x (moves x i (Finished user pw None (if IsNotFound err then None else Some err))
      [Fetched (user_key au user) (Inl err)])"
| ask: "logins x i = Some (Asking user pw) \<Longrightarrow> run_state (au_Get au (user_key au user)) s = (Inr acc, s') \<Longrightarrow>
    auth_step au x (moves x i (Stamping user pw acc) [Fetched (user_key au user) (Inr acc)])"
| stamp: "logins x i = Some (Stamping user pw acc) \<Longrightarrow> run_state (au_Now au) s = (now, s') \<Longrightarrow>
    auth_step au x (moves x i (Waiting user pw (cached_of acc now)) [Clock now])"
| lock: "logins x i = Some (Waiting user pw a) \<Longrightarrow> holder x = None \<Longrightarrow>
    auth_step au x ((moves x i (Copying user pw a (hd (published x)) []) [])\<lparr>holder := Some i\<rparr>)"
| copy: "logins x i = Some (Copying user pw a ((usr, b) # todo) kept) \<Longrightarrow> run_state (au_Now au) s = (now, s') \<Longrightarrow>
    auth_step au x (moves x i (Copying user pw a todo (if expired_at now b then kept else kept @ [(usr, b)])) [Clock now])"
| publish: "logins x i = Some (Copying user pw a [] kept) \<Longrightarrow>
    auth_step au x ((moves x i (Finished user pw (accepted au a pw) None) [])
      \<lparr>published := ((user, a) # filter (\<lambda>e. fst e \<noteq> user) kept) # published x, holder := None\<rparr>)"

lemma moves_simps [simp]:
  "published (moves x i p es) = published x" "holder (moves x i p es) = holder x"
  "logins (moves x i p es) j = (if j = i then Some p else logins x j)"
  "events (moves x i p es) j = (if j = i then events x i @ es else events x j)"
  by (simp_all add: moves_def)

subsection \<open>The steps of one login are those of the code\<close>

lemma copy_steps:
  assumes "run_state (keep_fresh au todo) s = (kept', s')" "logins x i = Some (Copying user pw a todo kept)"
  shows "\<exists>es. (auth_step au)\<^sup>*\<^sup>* x (moves x i (Copying user pw a [] (kept @ kept')) es)"
  using assms
proof (induction todo arbitrary: x kept kept' s)
  case Nil
  then have "moves x i (Copying user pw a [] (kept @ kept')) [] = x"
    by (cases x) (auto simp: moves_def fun_eq_iff)
  then show ?case by (metis rtranclp.rtrancl_refl)
next
  case (Cons e todo)
  obtain usr b where e: "e = (usr, b)" by (cases e)
  obtain now s1 more where run: "run_state (au_Now au) s = (now, s1)" "run_state (keep_fresh au todo) s1 = (more, s')"
    "kept' = (if expired_at now b then more else (usr, b) # more)"
    using Cons.prems(1) by (auto simp: e CacheExpired_def split: prod.splits)
  let ?kept = "if expired_at now b then kept else kept @ [(usr, b)]"
  let ?y = "moves x i (Copying user pw a todo ?kept) [Clock now]"
  have "auth_step au x ?y"
    by (rule auth_step.copy [OF Cons.prems(2) [unfolded e] run(1)])
  moreover obtain es where "(auth_step au)\<^sup>*\<^sup>* ?y (moves ?y i (Copying user pw a [] (?kept @ more)) es)"
    using Cons.IH [OF run(2), of ?y ?kept] by auto
  moreover have "moves ?y i (Copying user pw a [] (?kept @ more)) es =
      moves x i (Copying user pw a [] (kept @ kept')) (Clock now # es)"
    by (simp add: moves_def run(3))
  ultimately show ?case by (metis converse_rtranclp_into_rtranclp)
qed

lemma add_steps:
  assumes "run_state (addToCache au (hd (published x)) user a) s = (c', s')" "holder x = None"
    and "logins x i = Some (Waiting user pw a)"
  shows "\<exists>es. (auth_step au)\<^sup>*\<^sup>* x
     ((moves x i (Finished user pw (accepted au a pw) None) es)\<lparr>published := c' # published x\<rparr>)"
proof -
  obtain kept where kept: "run_state (keep_fresh au (hd (published x))) s = (kept, s')"
    "c' = (user, a) # filter (\<lambda>e. fst e \<noteq> user) kept"
    using assms(1) by (auto simp: addToCache_def split: prod.splits)
  let ?y = "(moves x i (Copying user pw a (hd (published x)) []) [])\<lparr>holder := Some i\<rparr>"
  have "auth_step au x ?y" by (rule auth_step.lock [OF assms(3,2)])
  moreover obtain es where "(auth_step au)\<^sup>*\<^sup>* ?y (moves ?y i (Copying user pw a [] kept) es)"
    using copy_steps [OF kept(1), of ?y i user pw a "[]"] by auto
  moreover have "auth_step au (moves ?y i (Copying user pw a [] kept) es)
      ((moves (moves ?y i (Copying user pw a [] kept) es) i (Finished user pw (accepted au a pw) None) [])
        \<lparr>published := c' # published x, holder := None\<rparr>)"
    using auth_step.publish [of "moves ?y i (Copying user pw a [] kept) es" i user pw a kept au] by (simp add: kept(2))
  moreover have "(moves (moves ?y i (Copying user pw a [] kept) es) i (Finished user pw (accepted au a pw) None) [])
        \<lparr>published := c' # published x, holder := None\<rparr> =
      (moves x i (Finished user pw (accepted au a pw) None) es)\<lparr>published := c' # published x\<rparr>"
    using assms(2) by (cases x) (simp add: moves_def)
  ultimately show ?thesis
    by (metis (no_types, lifting) converse_rtranclp_into_rtranclp rtranclp.rtrancl_into_rtrancl)
qed

text \<open>The answer that \<open>Authenticate\<close> makes of an account.\<close>

definition answer_of :: "'s Authenticator \<Rightarrow> string \<Rightarrow> cachedAccount option \<times> go_error option \<Rightarrow> labels option \<times> go_error option" where
  "answer_of au pw r = (case r of (Some a, None) \<Rightarrow> (accepted au a pw, None) | (_, err) \<Rightarrow> (None, err))"

lemma moves_moves [simp]: "moves (moves x i p es) i q fs = moves x i q (es @ fs)"
  by (simp add: moves_def)

lemma published_same [simp]: "published x = cs \<Longrightarrow> (moves x i p es)\<lparr>published := cs\<rparr> = moves x i p es"
  by (cases x) (simp add: moves_def)

lemma fetch_steps:
  assumes "run_state (fetchAccount au (hd (published x)) user) s = ((r, c'), s')" "holder x = None" "published x \<noteq> []"
    and "logins x i = Some (Asking user pw)"
  shows "\<exists>es cs. (auth_step au)\<^sup>*\<^sup>* x ((moves x i (Finished user pw (fst (answer_of au pw r)) (snd (answer_of au pw r))) es)
     \<lparr>published := cs @ published x\<rparr>) \<and> hd (cs @ published x) = c'"
proof (cases "run_state (au_Get au (user_key au user)) s")
  case (Pair g s1)
  show ?thesis
  proof (cases g)
    case (Inl err)
    then have "r = (None, if IsNotFound err then None else Some err)" "c' = hd (published x)"
      using assms(1) Pair by (auto simp: fetchAccount_def user_key_def split: if_splits)
    then show ?thesis
      using auth_step.ask_fails [OF assms(4) Pair [unfolded Inl]]
      by (intro exI [of _ "[Fetched (user_key au user) (Inl err)]"] exI [of _ "[]"])
        (auto simp: answer_of_def)
  next
    case (Inr acc)
    obtain now s2 where now: "run_state (au_Now au) s1 = (now, s2)" by fastforce
    let ?a = "cached_of acc now"
    have add: "run_state (addToCache au (hd (published x)) user ?a) s2 = (c', s')" and r: "r = (Some ?a, None)"
      using assms(1) Pair Inr now by (auto simp: fetchAccount_def user_key_def split: prod.splits)
    let ?y = "moves x i (Stamping user pw acc) [Fetched (user_key au user) (Inr acc)]"
    let ?z = "moves ?y i (Waiting user pw ?a) [Clock now]"
    have "auth_step au x ?y" by (rule auth_step.ask [OF assms(4) Pair [unfolded Inr]])
    moreover have "auth_step au ?y ?z" by (rule auth_step.stamp [OF _ now]) simp
    moreover obtain es where "(auth_step au)\<^sup>*\<^sup>* ?z
       ((moves ?z i (Finished user pw (accepted au ?a pw) None) es)\<lparr>published := c' # published x\<rparr>)"
      using add_steps [of au ?z user ?a s2 c' s' i pw] add assms(2) by auto
    moreover have "(moves ?z i (Finished user pw (accepted au ?a pw) None) es)\<lparr>published := c' # published x\<rparr> =
       (moves x i (Finished user pw (fst (answer_of au pw r)) (snd (answer_of au pw r)))
         (Fetched (user_key au user) (Inr acc) # Clock now # es))\<lparr>published := [c'] @ published x\<rparr>"
      by (simp add: moves_def answer_of_def r)
    ultimately show ?thesis
      by (intro exI [of _ "Fetched (user_key au user) (Inr acc) # Clock now # es"] exI [of _ "[c']"])
        (metis append_Cons converse_rtranclp_into_rtranclp list.sel(1))
  qed
qed

text \<open>When no other login moves, the steps of a login are one call of \<open>Authenticate\<close>, with the
  result of the call and the cache that it leaves.\<close>

lemma call_steps:
  assumes "run_state (Authenticate au (hd (published x)) user pw) s = ((r, c'), s')" "holder x = None" "published x \<noteq> []"
    and "logins x i = Some (Started user pw)"
  shows "\<exists>es cs. (auth_step au)\<^sup>*\<^sup>* x ((moves x i (Finished user pw (fst r) (snd r)) es)\<lparr>published := cs @ published x\<rparr>) \<and>
     hd (cs @ published x) = c'"
proof (cases "user = [] \<or> pw = []")
  case True
  then have "r = (None, None)" "c' = hd (published x)" using assms(1) by (auto simp: Authenticate_def split: if_splits)
  then show ?thesis
    using auth_step.refuse [OF assms(4) True, of au]
    by (intro exI [of _ "[]"]) (auto)
next
  case False
  let ?c = "hd (published x)"
  obtain q s1 where find: "run_state (findAccount au ?c user) s = ((q, c'), s')" and r: "r = answer_of au pw q"
    using assms(1) False by (auto simp: Authenticate_def answer_of_def accepted_def split: prod.splits option.splits if_splits)
  have c: "?c \<in> set (published x)" using assms(3) by simp
  show ?thesis
  proof (cases "map_of ?c user")
    case None
    then have fetch: "run_state (fetchAccount au ?c user) s = ((q, c'), s')" using find by (simp add: findAccount_def)
    let ?y = "moves x i (Asking user pw) []"
    have "auth_step au x ?y" using auth_step.miss [OF assms(4) _ _ c None] False by auto
    with fetch_steps [of au ?y user s q c' s' i pw] fetch assms(2,3) show ?thesis
      by (auto simp: r intro: converse_rtranclp_into_rtranclp)
  next
    case (Some a)
    obtain now s1 where now: "run_state (au_Now au) s = (now, s1)" by fastforce
    let ?y = "moves x i (Checking user pw a) []"
    have hit: "auth_step au x ?y" using auth_step.hit [OF assms(4) _ _ c Some] False by auto
    have "auth_step au ?y (moves ?y i (if expired_at now a then Asking user pw
        else Finished user pw (accepted au a pw) None) [Clock now])"
      by (rule auth_step.check [OF _ now]) simp
    then have checked: "(auth_step au)\<^sup>*\<^sup>* x (moves x i (if expired_at now a then Asking user pw
        else Finished user pw (accepted au a pw) None) [Clock now])"
      using hit by (auto intro: converse_rtranclp_into_rtranclp)
    show ?thesis
    proof (cases "expired_at now a")
      case False
      then have "q = (Some a, None)" "c' = ?c"
        using find Some now by (auto simp: findAccount_def CacheExpired_def)
      then show ?thesis
        using checked False by (intro exI [of _ "[Clock now]"] exI [of _ "[]"]) (auto simp: r answer_of_def)
    next
      case True
      then have fetch: "run_state (fetchAccount au ?c user) s1 = ((q, c'), s')"
        using find Some now by (simp add: findAccount_def CacheExpired_def)
      let ?z = "moves x i (Asking user pw) [Clock now]"
      have z: "(auth_step au)\<^sup>*\<^sup>* x ?z" using checked True by simp
      from fetch_steps [of au ?z user s1 q c' s' i pw] fetch assms(2,3) obtain es cs where
        "(auth_step au)\<^sup>*\<^sup>* ?z ((moves x i (Finished user pw (fst r) (snd r)) (Clock now # es))\<lparr>published := cs @ published x\<rparr>)"
        "hd (cs @ published x) = c'"
        by (auto simp: r)
      with z show ?thesis by (metis rtranclp_trans)
    qed
  qed
qed

subsection \<open>Every interleaving\<close>

text \<open>A cached account was read from the server, for the user it is cached for, by some login,
  which read the clock next.\<close>

definition stamped :: "'s Authenticator \<Rightarrow> auth_event list \<Rightarrow> string \<Rightarrow> cachedAccount \<Rightarrow> bool" where
  "stamped au l user a \<longleftrightarrow> (\<exists>acc. a = cached_of acc (LastSeen a) \<and> seen au l (user_key au user) acc (LastSeen a))"

definition issued :: "'s Authenticator \<Rightarrow> auth_state \<Rightarrow> string \<times> cachedAccount \<Rightarrow> bool" where
  "issued au x e \<longleftrightarrow> (\<exists>j. stamped au (events x j) (fst e) (snd e))"

definition entitled :: "'s Authenticator \<Rightarrow> auth_state \<Rightarrow> nat \<Rightarrow> string \<Rightarrow> string \<Rightarrow> labels \<Rightarrow> bool" where
  "entitled au x i user pw m \<longleftrightarrow> (\<exists>a. m = ca_Labels a \<and> MatchPassword au a pw \<and> (stamped au (events x i) user a \<or>
     issued au x (user, a) \<and> (\<exists>now. events x i = [Clock now] \<and> \<not> expired_at now a)))"

fun login_ok :: "'s Authenticator \<Rightarrow> auth_state \<Rightarrow> nat \<Rightarrow> login \<Rightarrow> bool" where
  "login_ok au x i (Started user pw) \<longleftrightarrow> events x i = []"
| "login_ok au x i (Checking user pw a) \<longleftrightarrow> user \<noteq> [] \<and> pw \<noteq> [] \<and> events x i = [] \<and> issued au x (user, a)"
| "login_ok au x i (Asking user pw) \<longleftrightarrow> user \<noteq> [] \<and> pw \<noteq> []"
| "login_ok au x i (Stamping user pw acc) \<longleftrightarrow> user \<noteq> [] \<and> pw \<noteq> [] \<and> answers au (user_key au user) acc \<and>
     (\<exists>l. events x i = l @ [Fetched (user_key au user) (Inr acc)])"
| "login_ok au x i (Waiting user pw a) \<longleftrightarrow> user \<noteq> [] \<and> pw \<noteq> [] \<and> stamped au (events x i) user a"
| "login_ok au x i (Copying user pw a todo kept) \<longleftrightarrow> user \<noteq> [] \<and> pw \<noteq> [] \<and> stamped au (events x i) user a \<and>
     holder x = Some i \<and> (\<forall>e \<in> set todo \<union> set kept. issued au x e) \<and>
     (\<forall>e \<in> set (hd (published x)). e \<in> set todo \<union> set kept \<or> (\<exists>now. Clock now \<in> set (events x i) \<and> expired_at now (snd e)))"
| "login_ok au x i (Finished user pw r err) \<longleftrightarrow> (\<forall>m. r = Some m \<longrightarrow> user \<noteq> [] \<and> pw \<noteq> [] \<and> err = None \<and>
     entitled au x i user pw m)"

definition auth_ok :: "'s Authenticator \<Rightarrow> auth_state \<Rightarrow> bool" where
  "auth_ok au x \<longleftrightarrow> published x \<noteq> [] \<and> (\<forall>c \<in> set (published x). \<forall>e \<in> set c. issued au x e) \<and>
     (\<forall>i. case logins x i of None \<Rightarrow> events x i = [] | Some p \<Rightarrow> login_ok au x i p)"

lemma stamped_append: "stamped au l user a \<Longrightarrow> stamped au (l @ l') user a"
  unfolding stamped_def using seen_append by blast

lemma issued_moves: "issued au x e \<Longrightarrow> issued au (moves x i p es) e"
  unfolding issued_def by (metis moves_simps(4) stamped_append)

lemma issued_update [simp]:
  "issued au (x\<lparr>holder := h\<rparr>) e = issued au x e" "issued au (x\<lparr>published := cs\<rparr>) e = issued au x e"
  by (simp_all add: issued_def)

text \<open>What holds of a login still holds when another one moves, and a login that does not hold
  the lock does not depend on the lock and on what the cache is.\<close>

lemma entitled_other: "entitled au x j user pw m \<Longrightarrow> j \<noteq> i \<Longrightarrow> entitled au (moves x i p es) j user pw m"
  unfolding entitled_def moves_simps using issued_moves by fastforce

lemma entitled_cache [simp]:
  "entitled au (x\<lparr>holder := h\<rparr>) i user pw m = entitled au x i user pw m"
  "entitled au (x\<lparr>published := cs\<rparr>) i user pw m = entitled au x i user pw m"
  by (simp_all add: entitled_def)

lemma login_ok_other: "login_ok au x j q \<Longrightarrow> j \<noteq> i \<Longrightarrow> login_ok au (moves x i p es) j q"
  by (cases q) (auto simp: issued_moves entitled_other)

lemma login_ok_cache:
  "login_ok au x j q \<Longrightarrow> holder x \<noteq> Some j \<Longrightarrow> login_ok au (x\<lparr>holder := h\<rparr>) j q"
  "login_ok au x j q \<Longrightarrow> holder x \<noteq> Some j \<Longrightarrow> login_ok au (x\<lparr>published := cs, holder := h\<rparr>) j q"
  by (cases q; simp)+

lemma auth_ok_login: "auth_ok au x \<Longrightarrow> logins x i = Some p \<Longrightarrow> login_ok au x i p"
  unfolding auth_ok_def by (metis option.simps(5))

text \<open>A step of login \<open>i\<close> to \<open>y\<close>.\<close>

lemma auth_ok_step:
  assumes "auth_ok au x" "login_ok au y i p" "logins y = (logins x)(i \<mapsto> p)" "\<forall>j. j \<noteq> i \<longrightarrow> events y j = events x j"
    and "\<forall>j q. j \<noteq> i \<longrightarrow> logins x j = Some q \<longrightarrow> login_ok au y j q"
    and "published y \<noteq> []" "\<forall>c \<in> set (published y). \<forall>e \<in> set c. issued au y e"
  shows "auth_ok au y"
proof -
  have "case logins y j of None \<Rightarrow> events y j = [] | Some q \<Rightarrow> login_ok au y j q" for j
  proof (cases "j = i")
    case False
    moreover have "case logins x j of None \<Rightarrow> events x j = [] | Some q \<Rightarrow> login_ok au x j q"
      using assms(1) by (simp add: auth_ok_def)
    ultimately show ?thesis using assms(3-5) by (simp split: option.splits)
  qed (use assms(2,3) in simp)
  with assms(6,7) show ?thesis by (simp add: auth_ok_def)
qed

lemma auth_ok_moves:
  assumes "auth_ok au x" "login_ok au (moves x i p es) i p"
  shows "auth_ok au (moves x i p es)"
proof (rule auth_ok_step [OF assms])
  show "\<forall>j q. j \<noteq> i \<longrightarrow> logins x j = Some q \<longrightarrow> login_ok au (moves x i p es) j q"
    using auth_ok_login [OF assms(1)] login_ok_other by blast
  show "\<forall>c \<in> set (published (moves x i p es)). \<forall>e \<in> set c. issued au (moves x i p es) e"
    using assms(1) issued_moves unfolding auth_ok_def moves_simps by blast
qed (use assms(1) in \<open>auto simp: auth_ok_def moves_def\<close>)

lemma issued_published: "auth_ok au x \<Longrightarrow> c \<in> set (published x) \<Longrightarrow> e \<in> set c \<Longrightarrow> issued au x e"
  by (simp add: auth_ok_def)

lemma issued_self: "stamped au (events x i) user a \<Longrightarrow> issued au x (user, a)"
  by (auto simp: issued_def)

lemma entitled_accepted:
  "accepted au a pw = Some m \<Longrightarrow> stamped au (events x i) user a \<Longrightarrow> entitled au x i user pw m"
  "accepted au a pw = Some m \<Longrightarrow> issued au x (user, a) \<Longrightarrow> events x i = [Clock now] \<Longrightarrow> \<not> expired_at now a \<Longrightarrow>
   entitled au x i user pw m"
  by (auto simp: accepted_def entitled_def split: if_splits)

lemma stamped_now:
  assumes "answers au (user_key au user) acc" "l = l0 @ [Fetched (user_key au user) (Inr acc)]"
  shows "stamped au (l @ [Clock now]) user (cached_of acc now)"
  unfolding stamped_def seen_def
proof (intro exI conjI)
  show "l @ [Clock now] = l0 @ Fetched (user_key au user) (Inr acc) # Clock (LastSeen (cached_of acc now)) # []"
    by (simp add: assms(2) cached_of_def)
qed (use assms(1) in \<open>simp_all add: cached_of_def\<close>)

lemma auth_ok_preserved:
  assumes "auth_step au x y" "auth_ok au x"
  shows "auth_ok au y"
  using assms
proof (induction rule: auth_step.induct)
  case (spawn x i user pw)
  then have "events x i = []" unfolding auth_ok_def by (metis option.simps(4))
  then show ?case using spawn by (intro auth_ok_moves) simp_all
next
  case (refuse x i user pw)
  then show ?case by (intro auth_ok_moves) simp_all
next
  case (miss x i user pw c)
  then show ?case by (intro auth_ok_moves) simp_all
next
  case (hit x i user pw c a)
  then have "issued au x (user, a)" "events x i = []"
    using issued_published [OF hit.prems hit.hyps(4) map_of_SomeD [OF hit.hyps(5)]] auth_ok_login [OF hit.prems hit.hyps(1)] by auto
  then show ?case using hit by (intro auth_ok_moves) (simp_all add: issued_moves)
next
  case (check x i user pw a s now s')
  have "events x i = []" "user \<noteq> []" "pw \<noteq> []" "issued au x (user, a)"
    using auth_ok_login [OF check.prems check.hyps(1)] by auto
  then show ?case using check
    by (intro auth_ok_moves) (auto simp: issued_moves intro: entitled_accepted(2))
next
  case (ask_fails x i user pw s err s')
  then show ?case by (intro auth_ok_moves) simp_all
next
  case (ask x i user pw s acc s')
  then have "answers au (user_key au user) acc" by (auto simp: answers_def)
  then show ?case using ask auth_ok_login [OF ask.prems ask.hyps(1)] by (intro auth_ok_moves) simp_all
next
  case (stamp x i user pw acc s now s')
  then show ?case using auth_ok_login [OF stamp.prems stamp.hyps(1)]
    by (intro auth_ok_moves) (auto intro: stamped_now)
next
  case (lock x i user pw a)
  let ?p = "Copying user pw a (hd (published x)) []"
  have w: "user \<noteq> []" "pw \<noteq> []" "stamped au (events x i) user a" "published x \<noteq> []"
    using auth_ok_login [OF lock.prems lock.hyps(1)] lock.prems by (auto simp: auth_ok_def)
  have iss: "\<forall>c \<in> set (published x). \<forall>e \<in> set c. issued au (moves x i ?p []) e"
    using lock.prems issued_moves issued_published by blast
  show ?case
  proof (rule auth_ok_step [OF lock.prems, where i = i and p = ?p])
    show "\<forall>j q. j \<noteq> i \<longrightarrow> logins x j = Some q \<longrightarrow> login_ok au ((moves x i ?p [])\<lparr>holder := Some i\<rparr>) j q"
      using login_ok_cache(1) [OF login_ok_other [OF auth_ok_login [OF lock.prems]]] lock.hyps(2) by simp
    show "login_ok au ((moves x i ?p [])\<lparr>holder := Some i\<rparr>) i ?p"
      using w iss by (auto intro: hd_in_set)
  qed (use w iss in \<open>auto simp: moves_def\<close>)
next
  case (copy x i user pw a usr b todo kept s now s')
  have c: "login_ok au x i (Copying user pw a ((usr, b) # todo) kept)"
    by (rule auth_ok_login [OF copy.prems copy.hyps(1)])
  let ?kept = "if expired_at now b then kept else kept @ [(usr, b)]"
  have "\<forall>e \<in> set (hd (published x)). e \<in> set todo \<union> set ?kept \<or>
      (\<exists>now'. Clock now' \<in> set (events x i @ [Clock now]) \<and> expired_at now' (snd e))"
  proof
    fix e
    assume "e \<in> set (hd (published x))"
    then have "e = (usr, b) \<or> e \<in> set todo \<union> set kept \<or>
        (\<exists>now'. Clock now' \<in> set (events x i) \<and> expired_at now' (snd e))"
      using c by auto
    then show "e \<in> set todo \<union> set ?kept \<or> (\<exists>now'. Clock now' \<in> set (events x i @ [Clock now]) \<and> expired_at now' (snd e))"
      by auto
  qed
  then show ?case using c copy.prems
    by (intro auth_ok_moves) (simp_all add: issued_moves stamped_append)
next
  case (publish x i user pw a kept)
  let ?p = "Finished user pw (accepted au a pw) None" and ?c = "(user, a) # filter (\<lambda>e. fst e \<noteq> user) kept"
  have c: "user \<noteq> []" "pw \<noteq> []" "stamped au (events x i) user a" "holder x = Some i" "\<forall>e \<in> set kept. issued au x e"
    using auth_ok_login [OF publish.prems publish.hyps(1)] by auto
  show ?case
  proof (rule auth_ok_step [OF publish.prems, where i = i and p = ?p])
    show "\<forall>j q. j \<noteq> i \<longrightarrow> logins x j = Some q \<longrightarrow>
        login_ok au ((moves x i ?p [])\<lparr>published := ?c # published x, holder := None\<rparr>) j q"
      using login_ok_cache(2) [OF login_ok_other [OF auth_ok_login [OF publish.prems]]] c(4) by simp
    show "login_ok au ((moves x i ?p [])\<lparr>published := ?c # published x, holder := None\<rparr>) i ?p"
      using c by (auto intro!: entitled_accepted(1))
    show "\<forall>c \<in> set (published ((moves x i ?p [])\<lparr>published := ?c # published x, holder := None\<rparr>)). \<forall>e \<in> set c.
        issued au ((moves x i ?p [])\<lparr>published := ?c # published x, holder := None\<rparr>) e"
      using c issued_published [OF publish.prems] issued_self [OF c(3)] by (auto intro: issued_moves)
  qed (auto simp: moves_def)
qed

lemma auth_ok_reachable: "(auth_step au)\<^sup>*\<^sup>* auth_init x \<Longrightarrow> auth_ok au x"
proof (induction rule: rtranclp_induct)
  case base
  show ?case by (simp add: auth_ok_def auth_init_def)
qed (rule auth_ok_preserved)

text \<open>
  C11. Logins at the same time do not help each other. In every state that any interleaving of
  any number of logins reaches, against any server and clock, a login that ended with labels
  had a user and a password, and there is an account that the server gave for this user, whose
  bcrypt hash matches the password and whose labels these are; and this login got it itself,
  or another one got it and the only thing that this login read is a time no later than
  ten minutes after the one that was read then. This does not depend on which of the former
  caches the unlocked read sees.
\<close>

theorem concurrent_authentication_sound:
  assumes "(auth_step au)\<^sup>*\<^sup>* auth_init x" "logins x i = Some (Finished user pw (Some m) e)"
  shows "user \<noteq> [] \<and> pw \<noteq> [] \<and> e = None \<and> (\<exists>acc t. m = labels_of acc \<and>
     CompareHashAndPassword au (acc_Password acc) pw \<and> answers au (user_key au user) acc \<and>
     (Fetched (user_key au user) (Inr acc) \<in> set (events x i) \<or>
      (\<exists>j. seen au (events x j) (user_key au user) acc t) \<and> (\<exists>now. events x i = [Clock now] \<and> now \<le> t + 10 * Minute)))"
proof -
  have f: "user \<noteq> []" "pw \<noteq> []" "e = None" "entitled au x i user pw m"
    using auth_ok_login [OF auth_ok_reachable [OF assms(1)] assms(2)] by auto
  then obtain a where a: "m = ca_Labels a" "MatchPassword au a pw" and how: "stamped au (events x i) user a \<or>
     issued au x (user, a) \<and> (\<exists>now. events x i = [Clock now] \<and> \<not> expired_at now a)"
    unfolding entitled_def by blast
  then obtain j acc where acc: "a = cached_of acc (LastSeen a)" "seen au (events x j) (user_key au user) acc (LastSeen a)"
    "j = i \<or> (\<exists>now. events x i = [Clock now] \<and> \<not> expired_at now a)"
    unfolding issued_def stamped_def by auto
  have "ca_Labels a = labels_of acc" "HashedPassword a = acc_Password acc"
    by (subst acc(1), simp add: cached_of_def)+
  then have "m = labels_of acc" "CompareHashAndPassword au (acc_Password acc) pw"
    using a by (auto simp: MatchPassword_def split: if_splits)
  moreover have "answers au (user_key au user) acc" using acc(2) by (simp add: seen_def)
  moreover have "now \<le> LastSeen a + 10 * Minute" if "\<not> expired_at now a" for now
    using that by (simp add: expired_at_def time_Add_def cache_lifetime_def)
  moreover have "Fetched (user_key au user) (Inr acc) \<in> set (events x i)" if "j = i"
    using acc(2) that by (auto simp: seen_def)
  ultimately show ?thesis using f acc(2,3) by blast
qed

text \<open>
  C12. No login is lost to another one. When a login replaces the cache, in any state that an
  interleaving reaches, the new cache has its account for its user, and each entry of the
  cache before it for another user, except those that had expired at a time that this login
  has read: no account that was cached since the login began to copy is dropped. The lock
  that is held while copying is what this rests on.
\<close>

theorem no_cached_account_lost:
  assumes "(auth_step au)\<^sup>*\<^sup>* auth_init x" "auth_step au x y" "published y \<noteq> published x"
  shows "\<exists>i user pw a kept c. holder x = Some i \<and> logins x i = Some (Copying user pw a [] kept) \<and>
     published y = c # published x \<and> map_of c user = Some a \<and>
     (\<forall>u b. (u, b) \<in> set (hd (published x)) \<longrightarrow> u \<noteq> user \<longrightarrow>
        (u, b) \<in> set c \<or> (\<exists>now. Clock now \<in> set (events x i) \<and> expired_at now b))"
  using assms(2,3)
proof (cases rule: auth_step.cases)
  case (publish i user pw a kept)
  have ok: "login_ok au x i (Copying user pw a [] kept)"
    by (rule auth_ok_login [OF auth_ok_reachable [OF assms(1)] publish(2)])
  show ?thesis
  proof (intro exI conjI)
    show "published y = ((user, a) # filter (\<lambda>e. fst e \<noteq> user) kept) # published x"
      by (simp add: publish(1))
    show "\<forall>u b. (u, b) \<in> set (hd (published x)) \<longrightarrow> u \<noteq> user \<longrightarrow>
        (u, b) \<in> set ((user, a) # filter (\<lambda>e. fst e \<noteq> user) kept) \<or>
        (\<exists>now. Clock now \<in> set (events x i) \<and> expired_at now b)"
      using ok by fastforce
  qed (use ok publish(2) in auto)
qed simp_all

subsection \<open>A login that is run\<close>

definition demo_logins :: "labels \<Rightarrow> auth_state \<Rightarrow> bool" where
  "demo_logins m x \<longleftrightarrow> (auth_step demo_authenticator)\<^sup>*\<^sup>* auth_init x \<and>
     logins x 0 = Some (Finished ''u'' ''p'' (Some m) None) \<and> published x \<noteq> published auth_init"

lemma demo_login_runs: "\<exists>x. demo_logins (labels_of demo_account) x"
proof -
  let ?x = "moves auth_init 0 (Started ''u'' ''p'') []"
  have spawn: "auth_step demo_authenticator auth_init ?x" by (rule auth_step.spawn) (simp add: auth_init_def)
  have "run_state (Authenticate demo_authenticator [] ''u'' ''p'') ([NN ''reg'' ''u'' \<mapsto> demo_account], 0) =
      (((Some (labels_of demo_account), None), [(''u'', cached_of demo_account 0)]), ([NN ''reg'' ''u'' \<mapsto> demo_account], 0))"
    by (simp add: Authenticate_def findAccount_def fetchAccount_def addToCache_def MatchPassword_def
        cached_of_def demo_authenticator_def) (simp add: demo_account_def object_key_def)
  moreover have "hd (published ?x) = []" "holder ?x = None" "published ?x \<noteq> []" "logins ?x 0 = Some (Started ''u'' ''p'')"
    by (simp_all add: auth_init_def)
  ultimately obtain es cs where run: "(auth_step demo_authenticator)\<^sup>*\<^sup>* ?x
      ((moves ?x 0 (Finished ''u'' ''p'' (fst (Some (labels_of demo_account), None :: go_error option))
         (snd (Some (labels_of demo_account), None :: go_error option))) es)\<lparr>published := cs @ published ?x\<rparr>)"
      "hd (cs @ published ?x) = [(''u'', cached_of demo_account 0)]"
    using call_steps [of demo_authenticator ?x "''u''" "''p''" "([NN ''reg'' ''u'' \<mapsto> demo_account], 0)"
      "(Some (labels_of demo_account), None)" "[(''u'', cached_of demo_account 0)]" "([NN ''reg'' ''u'' \<mapsto> demo_account], 0)" 0]
    by metis
  have "cs @ published ?x \<noteq> published auth_init" using run(2) by (auto simp: auth_init_def)
  with converse_rtranclp_into_rtranclp [OF spawn run(1)] show ?thesis
    unfolding demo_logins_def
    by (intro exI [of _ "(moves ?x 0 (Finished ''u'' ''p'' (Some (labels_of demo_account)) None) es)\<lparr>published := cs @ published ?x\<rparr>"])
      simp
qed

theorem concurrent_authentication_sound_witness:
  "\<exists>x acc. (auth_step demo_authenticator)\<^sup>*\<^sup>* auth_init x \<and>
     logins x 0 = Some (Finished ''u'' ''p'' (Some (labels_of acc)) None) \<and> acc_Password acc = ''hash:p''"
proof -
  obtain x where x: "(auth_step demo_authenticator)\<^sup>*\<^sup>* auth_init x"
    "logins x 0 = Some (Finished ''u'' ''p'' (Some (labels_of demo_account)) None)"
    using demo_login_runs unfolding demo_logins_def by blast
  from concurrent_authentication_sound [OF x] obtain acc where "labels_of demo_account = labels_of acc"
    "CompareHashAndPassword demo_authenticator (acc_Password acc) ''p''" by blast
  moreover from this(2) have "acc_Password acc = ''hash:p''" by (simp add: demo_authenticator_def)
  ultimately show ?thesis using x by metis
qed

lemma first_change: "r\<^sup>*\<^sup>* a b \<Longrightarrow> f a \<noteq> f b \<Longrightarrow> \<exists>x y. r\<^sup>*\<^sup>* a x \<and> r x y \<and> f y \<noteq> f x"
  by (induction rule: rtranclp_induct) (simp, metis)

theorem no_cached_account_lost_witness:
  "\<exists>x y c. (auth_step demo_authenticator)\<^sup>*\<^sup>* auth_init x \<and> auth_step demo_authenticator x y \<and>
     published y = c # published x \<and> c \<noteq> []"
proof -
  obtain z where "(auth_step demo_authenticator)\<^sup>*\<^sup>* auth_init z" "published auth_init \<noteq> published z"
    using demo_login_runs unfolding demo_logins_def by metis
  then obtain x y where x: "(auth_step demo_authenticator)\<^sup>*\<^sup>* auth_init x" "auth_step demo_authenticator x y"
    "published y \<noteq> published x"
    using first_change [of "auth_step demo_authenticator" auth_init z published] by auto
  from no_cached_account_lost [OF x] obtain c user a where "published y = c # published x" "map_of c user = Some a"
    by blast
  with x show ?thesis by fastforce
qed

end
