(* ===== verification/AuthFrontends.thy ===== *)
theory AuthFrontends
  imports Auth RegistryWorkload SecretConvergence
begin

text \<open>
  How an authenticator comes to be: \<open>NewAuthenticator\<close> (\<open>pkg/auth/auth.go\<close>), and the two
  programs that use it, the docker_auth plugin (\<open>docker-authn-plugin/kdauthnplugin.go\<close>) and
  the command line client (\<open>cmd/authn-client/main.go\<close>). The environment, files and the
  Kubernetes client libraries are parameters. The theorem says that the plugin, in the pod
  that the registry controller describes, looks for accounts where the image secret
  controllers create them.
\<close>

subsection \<open>Making an authenticator\<close>

text \<open>\<open>rest.Config\<close>: where the server is and how to connect, which the code does not look at,
  and the field that it sets.\<close>

record rest_config =
  connection :: string
  UserAgent :: string

record 's auth_process =
  ap_Getenv :: "string \<Rightarrow> string"
  ap_LookupEnv :: "string \<Rightarrow> string option"
  ap_ReadFile :: "string \<Rightarrow> ('s, string result) state"
  ap_InClusterConfig :: "('s, rest_config result) state"
  ap_BuildConfigFromFlags :: "string \<Rightarrow> ('s, rest_config result) state"
  ap_BuildScheme :: "('s, go_error option) state"
  ap_NewDynamicRESTMapper :: "rest_config \<Rightarrow> ('s, go_error option) state"
  ap_NewClient :: "rest_config \<Rightarrow> ('s, (NamespacedName \<Rightarrow> ('s, ImageRegistryAccount result) state) result) state"
  ap_Now :: "('s, time) state"
  ap_CompareHashAndPassword :: "string \<Rightarrow> string \<Rightarrow> bool"

text \<open>A new authenticator has an empty cache.\<close>

definition NewAuthenticator ::
  "'s auth_process \<Rightarrow> rest_config \<Rightarrow> string \<Rightarrow> ('s, ('s Authenticator \<times> cache) result) state" where
  "NewAuthenticator p conf namespace = do {
     scheme \<leftarrow> ap_BuildScheme p;
     case scheme of Some err \<Rightarrow> ret (Inl err) | None \<Rightarrow> do {
     mapper \<leftarrow> ap_NewDynamicRESTMapper p conf;
     case mapper of Some err \<Rightarrow> ret (Inl err) | None \<Rightarrow> do {
     reader \<leftarrow> ap_NewClient p conf;
     case reader of
       Inl err \<Rightarrow> ret (Inl err)
     | Inr get \<Rightarrow> ret (Inr (\<lparr>au_Get = get, au_Now = ap_Now p,
         CompareHashAndPassword = ap_CompareHashAndPassword p, au_namespace = namespace\<rparr>, []))
   } } }"

subsection \<open>The plugin\<close>

definition pluginName :: string where "pluginName = ''k8s-authn''"

definition plugin_config :: "'s auth_process \<Rightarrow> ('s, nat + rest_config) state" where
  "plugin_config p =
     (let kubeconfig = ap_Getenv p ''KUBECONFIG'' in
      if kubeconfig = [] then do {
        c \<leftarrow> ap_InClusterConfig p;
        ret (case c of Inl err \<Rightarrow> Inl 2 | Inr conf \<Rightarrow> Inr conf)
      }
      else do {
        c \<leftarrow> ap_BuildConfigFromFlags p kubeconfig;
        ret (case c of Inl err \<Rightarrow> Inl 3 | Inr conf \<Rightarrow> Inr conf)
      })"

definition plugin_namespace :: "'s auth_process \<Rightarrow> ('s, string outcome) state" where
  "plugin_namespace p =
     (let namespace = ap_Getenv p ''NAMESPACE'' in
      if namespace = [] then do {
        b \<leftarrow> ap_ReadFile p ''/var/run/secrets/kubernetes.io/serviceaccount/namespace'';
        ret (case b of Inl err \<Rightarrow> Panicked (''Cannot detect namespace: '' @ Error err) | Inr b \<Rightarrow> Returned b)
      }
      else ret (Returned namespace))"

text \<open>The start of the plugin ends with an authenticator, with the exit code of \<open>os.Exit\<close>, or
  in a panic.\<close>

definition newK8sDockerAuthnPlugin :: "'s auth_process \<Rightarrow> ('s, (nat + 's Authenticator \<times> cache) outcome) state" where
  "newK8sDockerAuthnPlugin p = do {
     c \<leftarrow> plugin_config p;
     case c of
       Inl code \<Rightarrow> ret (Returned (Inl code))
     | Inr conf \<Rightarrow> do {
         n \<leftarrow> plugin_namespace p;
         case n of
           Panicked m \<Rightarrow> ret (Panicked m)
         | Returned namespace \<Rightarrow> do {
             a \<leftarrow> NewAuthenticator p (conf\<lparr>UserAgent := ''Image Registry Auth''\<rparr>) namespace;
             ret (Returned (case a of Inl err \<Rightarrow> Inl 4 | Inr plugin \<Rightarrow> Inr plugin))
           }
       }
   }"

subsection \<open>The client\<close>

text \<open>\<open>log.Fatal\<close> exits with 1. \<open>flags\<close> is \<open>pflag.Parse\<close> with the defaults of the two flags:
  nothing when there are arguments or the flags could not be parsed.\<close>

definition authenticator :: "'s auth_process \<Rightarrow> string \<Rightarrow> string \<Rightarrow> ('s, nat + 's Authenticator \<times> cache) state" where
  "authenticator p kubeconfig namespace = do {
     c \<leftarrow> ap_BuildConfigFromFlags p kubeconfig;
     case c of
       Inl err \<Rightarrow> ret (Inl 1)
     | Inr conf \<Rightarrow> do {
         a \<leftarrow> NewAuthenticator p (conf\<lparr>UserAgent := ''Image Registry authn CLI''\<rparr>) namespace;
         ret (case a of Inl err \<Rightarrow> Inl 1 | Inr x \<Rightarrow> Inr x)
       }
   }"

definition authn_client ::
  "'s auth_process \<Rightarrow> (string \<Rightarrow> string \<Rightarrow> (string \<times> string \<times> string) option) \<Rightarrow> ('s, nat) state" where
  "authn_client p flags =
     (case flags (ap_Getenv p ''KUBECONFIG'') (ap_Getenv p ''NAMESPACE'') of
        None \<Rightarrow> ret 1
      | Some (kubeconfig, namespace, user) \<Rightarrow>
          (case ap_LookupEnv p ''KUBE_REGISTRY_PASSWORD'' of
             None \<Rightarrow> ret 1
           | Some pw \<Rightarrow> do {
               a \<leftarrow> authenticator p kubeconfig namespace;
               case a of
                 Inl code \<Rightarrow> ret code
               | Inr (au, _) \<Rightarrow> client_main au True user (Some pw)
             }))"

subsection \<open>Where accounts are\<close>

definition authenticator_for :: "'s auth_process \<Rightarrow> string \<Rightarrow> 's Authenticator \<Rightarrow> cache \<Rightarrow> bool" where
  "authenticator_for p ns au c \<longleftrightarrow> au_namespace au = ns \<and> c = [] \<and> au_Now au = ap_Now p \<and>
     CompareHashAndPassword au = ap_CompareHashAndPassword p"

lemma NewAuthenticator_wp:
  "wp (NewAuthenticator p conf ns) (\<lambda>res _. \<forall>au c. res = Inr (au, c) \<longrightarrow> authenticator_for p ns au c) s"
  unfolding NewAuthenticator_def wp_bind
  by (rule wp_any) (auto simp: authenticator_for_def split: option.split sum.split
      intro!: wp_any [where m = "ap_NewClient p conf"] wp_any [where m = "ap_NewDynamicRESTMapper p conf"])

lemma plugin_wp:
  assumes "ap_Getenv p ''NAMESPACE'' = ns" "ns \<noteq> []"
  shows "wp (newK8sDockerAuthnPlugin p)
     (\<lambda>res _. \<forall>au c. res = Returned (Inr (au, c)) \<longrightarrow> authenticator_for p ns au c) s"
  unfolding newK8sDockerAuthnPlugin_def wp_bind plugin_namespace_def
  by (rule wp_any) (auto simp: assms split: sum.splits intro!: wp_mono [OF NewAuthenticator_wp])

lemma getRegistry_namespace:
  assumes "run_state (Get (registries r) k) t = (Inr reg, t1)" "run_state (getRegistry r k) t = (Inr target, t2)"
  shows "tr_Namespace target = Namespace reg"
  using assms by (auto simp: getRegistry_def split: if_splits prod.splits sum.splits)

text \<open>
  C6. The plugin finds the accounts that are issued for its registry. Let the plugin start in
  a container with the environment that the registry controller gives to the authentication
  container of a registry, and let an image secret controller find this registry and make an
  account for it. Then the key under which the plugin looks for the account's user is that
  of the account: once the account is stored, the plugin accepts its password, and the
  labels tell whether the user may push, and for which resource the account was made.
\<close>

theorem plugin_finds_issued_accounts:
  assumes "\<forall>n v. map_of (c_Env (auth_container rr reg host)) n = Some v \<longrightarrow> ap_Getenv p n = v" "Namespace reg \<noteq> []"
    and "run_state (newK8sDockerAuthnPlugin p) s = (Returned (Inr (au, c)), s')"
    and "run_state (Get (registries r) k) t = (Inr reg, t1)" "run_state (getRegistry r k) t = (Inr target, t2)"
    and "a = new_account r cr target h" "ap_CompareHashAndPassword p h pw" "pw \<noteq> []"
    and "run_state (au_Get au (object_key a)) u = (Inr a, u)" "run_state (ap_Now p) u = (now, u)"
  shows "\<exists>ls. fst (run_state (plugin_Authenticate au c (Name a) pw) u) = ((True, Some ls, None), [(Name a, cached_of a now)]) \<and>
     ls ''accessMode'' = Some [GetRegistryAccessMode (CRFactory (cfg r))] \<and>
     ls ''namespace'' = Some [Namespace cr] \<and> ls ''name'' = Some [Name cr] \<and> ls ''account'' = Some [Name a]"
proof -
  have "ap_Getenv p ''NAMESPACE'' = Namespace reg"
    using assms(1) by (simp add: auth_container_def)
  from plugin_wp [OF this assms(2), of s] have au: "authenticator_for p (Namespace reg) au c"
    using assms(3) by (simp add: wp_def)
  have ns: "Namespace a = Namespace reg" and name: "Name a \<noteq> []" and pw: "acc_Password a = h"
    using getRegistry_namespace [OF assms(4,5)]
    by (simp_all add: assms(6) new_account_def new_ImageRegistryAccount_def accountNameForCR_def new_kobject_def
        kobject.defs ImageRegistryAccount.defs)
  then have get: "run_state (au_Get au (NN (Namespace reg) (Name a))) u = (Inr a, u)"
    using assms(9) by (simp add: object_key_def)
  show ?thesis
    using au name assms(7,8,10) pw
    by (simp add: plugin_Authenticate_def Authenticate_def findAccount_def fetchAccount_def addToCache_def get
        authenticator_for_def MatchPassword_def cached_of_def labels_of_def)
      (simp add: assms(6) new_account_def)
qed

text \<open>A start in the cluster, on a server with the accounts of a map and a clock.\<close>

definition demo_environment :: "string \<Rightarrow> string" where
  "demo_environment n = (if n = ''NAMESPACE'' then ''operator'' else if n = ''AUTH_SERVER_ADDR'' then '':'' @ FormatInt internalPortAuth
     else if n = ''AUTH_TOKEN_ISSUER'' then auth_issuer_name ''h'' else [])"

definition demo_process :: "cluster auth_process" where
  "demo_process = \<lparr>ap_Getenv = demo_environment, ap_LookupEnv = (\<lambda>_. None), ap_ReadFile = (\<lambda>_. ret (Inr [])),
     ap_InClusterConfig = ret (Inr \<lparr>connection = [], UserAgent = []\<rparr>),
     ap_BuildConfigFromFlags = (\<lambda>_. ret (Inl (ErrOther []))), ap_BuildScheme = ret None,
     ap_NewDynamicRESTMapper = (\<lambda>_. ret None), ap_NewClient = (\<lambda>_. ret (Inr (Get cluster_accounts))),
     ap_Now = Now cluster_lib, ap_CompareHashAndPassword = cluster_compare\<rparr>"

definition demo_issued :: ImageRegistryAccount where
  "demo_issued = new_account (cluster_reconciler pull_config) demo_cr
     \<lparr>tr_Namespace = ''operator'', tr_Hostname = ''registry.operator.svc.cluster.local'', tr_CA = ''CA''\<rparr> ''hash:pw''"

lemma plugin_finds_issued_accounts_witness:
  "\<exists>au c s ls. run_state (newK8sDockerAuthnPlugin demo_process) empty_cluster = (Returned (Inr (au, c)), empty_cluster) \<and>
     fst (fst (run_state (plugin_Authenticate au c (Name demo_issued) ''pw'')
       (empty_cluster\<lparr>all_accounts := [object_key demo_issued \<mapsto> demo_issued]\<rparr>))) = (True, Some ls, None) \<and>
     ls ''accessMode'' = Some [''pull'']"
proof -
  let ?u = "empty_cluster\<lparr>all_accounts := [object_key demo_issued \<mapsto> demo_issued]\<rparr>"
  let ?r = "cluster_reconciler pull_config"
  obtain au c where start: "run_state (newK8sDockerAuthnPlugin demo_process) empty_cluster =
      (Returned (Inr (au, c)), empty_cluster)" and get: "au_Get au = Get cluster_accounts"
    by (simp add: newK8sDockerAuthnPlugin_def plugin_config_def plugin_namespace_def NewAuthenticator_def
        demo_process_def demo_environment_def)
  have env: "\<forall>n v. map_of (c_Env (auth_container rr demo_registry ''h'')) n = Some v \<longrightarrow> ap_Getenv demo_process n = v" for rr :: "cluster ReconcileImageRegistry"
    by (auto simp: auth_container_def demo_process_def demo_environment_def demo_registry_def auth_issuer_name_def
        split: if_splits)
  have target: "run_state (getRegistry ?r (NN ''operator'' ''registry'')) taken_cluster =
      (Inr (found_registry demo_registry demo_tls), taken_cluster)"
    by (rule demo_getRegistry)
  have "Namespace demo_registry \<noteq> []" by (simp add: demo_registry_def)
  moreover have "run_state (Get (registries ?r) (NN ''operator'' ''registry'')) taken_cluster = (Inr demo_registry, taken_cluster)"
    by (simp add: taken_cluster_def demo_cluster_def demo_registry_def object_key_def)
  moreover have "demo_issued = new_account ?r demo_cr (found_registry demo_registry demo_tls) ''hash:pw''"
    by (simp add: demo_issued_def new_account_def found_registry_def demo_registry_def)
  moreover have "ap_CompareHashAndPassword demo_process ''hash:pw'' ''pw''"
    by (simp add: demo_process_def cluster_compare_def)
  moreover have "run_state (au_Get au (object_key demo_issued)) ?u = (Inr demo_issued, ?u)"
    by (simp add: get cluster_accounts_def mem_client_def)
  moreover have "run_state (ap_Now demo_process) ?u = (clock ?u, ?u)"
    by (simp add: demo_process_def)
  ultimately show ?thesis
    using plugin_finds_issued_accounts [OF env _ start _ target, where a = demo_issued and cr = demo_cr and h = "''hash:pw''"
        and pw = "''pw''" and u = ?u and now = "clock ?u"] start
    by (auto simp: cluster_reconciler_def pull_config_def TypePull_def)
qed

end
