(* ===== verification/RegistryRollout.thy ===== *)
theory RegistryRollout
  imports RegistryPods
begin

text \<open>
  The other half of \<open>registry_status\<close>: a registry whose pods are rolled out becomes ready, and
  stays as it is from then on. The API server answers the calls of the tasks, whatever
  objects it has, as long as no other controller owns them.
\<close>

subsection \<open>Computations that keep what is published\<close>

definition steady :: "('s \<Rightarrow> 'p) \<Rightarrow> ('s, 'a) state \<Rightarrow> ('a \<Rightarrow> bool) \<Rightarrow> bool" where
  "steady published m P \<longleftrightarrow> (\<forall>s. wp m (\<lambda>a s'. P a \<and> published s' = published s) s)"

lemma steadyD: "steady published m P \<Longrightarrow> wp m (\<lambda>a s'. P a \<and> published s' = published s) s"
  by (simp add: steady_def)

lemma steady_return [simp]: "steady published (State_Monad.return a) P = P a"
  by (simp add: steady_def)

lemma steady_bind:
  assumes "steady published m P" "\<And>a. P a \<Longrightarrow> steady published (f a) Q"
  shows "steady published (State_Monad.bind m f) Q"
  unfolding steady_def wp_bind
proof
  fix s
  show "wp m (\<lambda>a. wp (f a) (\<lambda>a s'. Q a \<and> published s' = published s)) s"
    by (rule wp_mono [OF steadyD [OF assms(1)]]) (metis (mono_tags, lifting) assms(2) steadyD wp_mono)
qed

lemma steady_mono: "steady published m P \<Longrightarrow> (\<And>a. P a \<Longrightarrow> Q a) \<Longrightarrow> steady published m Q"
  unfolding steady_def by (blast intro: wp_mono)

lemma wp_steady:
  assumes "steady published m P" "\<And>a s'. P a \<Longrightarrow> published s' = published s \<Longrightarrow> Q a s'"
  shows "wp m Q s"
  by (rule wp_mono [OF steadyD [OF assms(1)]]) (use assms(2) in auto)

subsection \<open>Objects that are served\<close>

text \<open>
  A kind of object is served: each call is answered without an error, what is read in the place
  of a new object satisfies \<open>ok\<close>, and the registry that is published is none of these objects.
\<close>

definition served ::
  "('s \<Rightarrow> 'p) \<Rightarrow> ('a kobject_scheme \<Rightarrow> bool) \<Rightarrow> ('a kobject_scheme, 's) upserter \<Rightarrow> bool" where
  "served published ok u \<longleftrightarrow> 
     (\<forall>x. OwnerReferences x = [] \<longrightarrow> steady published (up_fetch u x) (\<lambda>(e, y). e = None \<and> ok y)) \<and>
     (\<forall>x y. steady published (up_write u x y) (\<lambda>(_, e, _). e = None))"

text \<open>An object that may get the registry as its controller, whatever its labels.\<close>

definition ownable :: "'s kube_lib \<Rightarrow> ImageRegistry \<Rightarrow> 'a kobject_scheme \<Rightarrow> bool" where
  "ownable lib cr x \<longleftrightarrow> (\<forall>ls. \<exists>refs.
     SetControllerReference lib (kobject.truncate cr) (kobject.truncate ((prepare x)\<lparr>Labels := ls\<rparr>)) = Inr refs)"

lemma upsert_steady:
  assumes u: "served published ok u" "\<And>x. ok x \<Longrightarrow> ownable (reg_lib r) cr x" "owner = None \<or> owner = Some cr"
    and obj: "OwnerReferences obj = []"
    and modify: "\<And>x. ok x \<Longrightarrow> steady published (modify (prepare x) cr) (\<lambda>(e, _, cr'). e = None \<and> G cr')"
      "\<And>x ls refs. ok x \<Longrightarrow> steady published (modify ((prepare x)\<lparr>Labels := ls, OwnerReferences := refs\<rparr>) cr)
         (\<lambda>(e, _, cr'). e = None \<and> G cr')"
  shows "steady published (upsert r u owner obj modify cr) (\<lambda>res. \<exists>cr'. res = Returned (None, cr') \<and> G cr')"
proof -
  have callback: "steady published (upsert_callback r owner modify x cr) (\<lambda>res. \<exists>y cr'. res = Returned (None, y, cr') \<and> G cr')"
    if ok: "ok x" for x
    using u(3)
  proof
    assume "owner = None"
    then show ?thesis
      by (simp add: upsert_callback_def) (rule steady_bind [OF modify(1) [OF ok]], auto)
  next
    assume o: "owner = Some cr"
    obtain refs where refs: "SetControllerReference (reg_lib r) (kobject.truncate cr)
        (kobject.truncate ((prepare x)\<lparr>Labels := selectorLabelsForCR cr\<rparr>)) = Inr refs"
      using u(2) [OF ok] unfolding ownable_def by blast
    show ?thesis
      by (simp add: o upsert_callback_def Let_def refs) (rule steady_bind [OF modify(2) [OF ok]], auto)
  qed
  have fetch: "steady published (up_fetch u obj) (\<lambda>(e, y). e = None \<and> ok y)"
    and put: "steady published (up_write u x y) (\<lambda>(_, e, _). e = None)" for x y
    using u(1) obj unfolding served_def by blast+
  show ?thesis
    unfolding upsert_def CreateOrUpdate_def
    by (rule steady_bind [where P = "\<lambda>res. \<exists>w y cr'. res = Returned (w, None, y, cr') \<and> G cr'"],
        rule steady_bind [OF fetch])
      (auto intro!: steady_bind [OF callback] steady_bind [OF put])
qed

lemma sets_steady:
  assumes "served published ok u" "\<And>x. ok x \<Longrightarrow> ownable (reg_lib r) cr x" "owner = None \<or> owner = Some cr"
    and "OwnerReferences obj = []"
  shows "steady published (upsert r u owner obj (sets f) cr) (\<lambda>res. res = Returned (None, cr))"
  by (rule steady_mono [OF upsert_steady [OF assms, where G = "\<lambda>cr'. cr' = cr"]]) (auto simp: sets_def)

subsection \<open>The registry's world\<close>

text \<open>The API server answers for the registry: it gives it as it is published, and takes a status.\<close>

definition same_status :: "ImageRegistry \<Rightarrow> ImageRegistry \<Rightarrow> bool" where
  "same_status y x \<longleftrightarrow> reg_Conditions y = reg_Conditions x \<and> reg_ObservedGeneration y = reg_ObservedGeneration x \<and>
     Hostname y = Hostname x \<and> TLSSecretName y = TLSSecretName x"

definition registry_answered ::
  "('s \<Rightarrow> ImageRegistry option) \<Rightarrow> 's ReconcileImageRegistry \<Rightarrow> NamespacedName \<Rightarrow> ImageRegistry \<Rightarrow> bool" where
  "registry_answered published r request cr \<longleftrightarrow>
     (\<forall>s. published s = Some cr \<longrightarrow>
        wp (Get (reg_crs r) request) (\<lambda>g s'. g = Inr cr \<and> published s' = published s) s) \<and>
     (\<forall>x s. published s = Some cr \<and> kobject.truncate x = kobject.truncate cr \<longrightarrow>
        wp (StatusUpdate (reg_crs r) x) (\<lambda>u s'. fst u = None \<and> (\<exists>y. published s' = Some y \<and> same_status y x)) s) \<and>
     (\<forall>c cs. steady published (SetCondition (reg_lib r) c cs) (\<lambda>_. True))"

text \<open>Its objects are served, and the stateful set that is found is rolled out.\<close>

definition objects_served :: "('s \<Rightarrow> 'p) \<Rightarrow> 's ReconcileImageRegistry \<Rightarrow> ImageRegistry \<Rightarrow> bool" where
  "objects_served published r cr \<longleftrightarrow>
     served published (ownable (reg_lib r) cr) (up_Certificates r) \<and>
     served published (ownable (reg_lib r) cr) (up_ServiceAccounts r) \<and>
     served published (ownable (reg_lib r) cr) (up_Roles r) \<and>
     served published (ownable (reg_lib r) cr) (up_RoleBindings r) \<and>
     served published (ownable (reg_lib r) cr) (up_Services r) \<and>
     served published (\<lambda>x. ownable (reg_lib r) cr x \<and> rolled_out cr x) (up_StatefulSets r) \<and>
     served published (ownable (reg_lib r) cr) (up_Claims r)"

text \<open>The certificates that the operator makes for it, if there are any, are renewed without an error.\<close>

definition certificates_renewed :: "('s \<Rightarrow> 'p) \<Rightarrow> 's ReconcileImageRegistry \<Rightarrow> ImageRegistry \<Rightarrow> bool" where
  "certificates_renewed published r cr \<longleftrightarrow>
     (cs_IssuerRef (AuthCA cr) = None \<and> cs_SecretName (AuthCA cr) = None \<longrightarrow>
        steady published (RenewCACertSecret (reg_certManager r) (NN (Namespace cr) (authCASecretNameForCR cr))
          (Some (kobject.truncate cr)) (selectorLabelsForCR cr) (Name cr @ ''.'' @ Namespace cr @ ''.svc''))
          (\<lambda>c. \<exists>kp. c = Returned (kp, None))) \<and>
     (cs_IssuerRef (reg_TLS cr) = None \<and> cs_SecretName (reg_TLS cr) = None \<longrightarrow>
        steady published (RootCACert (reg_certManager r)) (\<lambda>ca. \<exists>kp. ca = Returned (Inr kp)) \<and>
        (\<forall>kp. steady published (RenewServerCertSecret (reg_certManager r) (NN (Namespace cr) (tlsSecretNameForCR cr))
          (Some (kobject.truncate cr)) (selectorLabelsForCR cr) (dnsNamesForCR r cr) (Some kp))
          (\<lambda>c. \<exists>kp. c = Returned (kp, None))))"

subsection \<open>The tasks\<close>

text \<open>The conditions of the instance are not looked at by the tasks.\<close>

lemma conditions_irrelevant [simp]:
  "kobject.truncate (cr\<lparr>reg_Conditions := C\<rparr>) = kobject.truncate cr"
  "authCASecretNameForCR (cr\<lparr>reg_Conditions := C\<rparr>) = authCASecretNameForCR cr"
  "tlsSecretNameForCR (cr\<lparr>reg_Conditions := C\<rparr>) = tlsSecretNameForCR cr"
  "selectorLabelsForCR (cr\<lparr>reg_Conditions := C\<rparr>) = selectorLabelsForCR cr"
  "dnsNamesForCR r (cr\<lparr>reg_Conditions := C\<rparr>) = dnsNamesForCR r cr"
  "externalHostnameForCR r (cr\<lparr>reg_Conditions := C\<rparr>) = externalHostnameForCR r cr"
  by (simp_all add: kobject.defs authCASecretNameForCR_def tlsSecretNameForCR_def selectorLabelsForCR_def
      dnsNamesForCR_def externalHostnameForCR_def RegistryHostname_def serviceNameForCR_def split: option.split)

lemma ownable_conditions [simp]: "ownable lib (cr\<lparr>reg_Conditions := C\<rparr>) = ownable lib cr"
  by (simp add: ownable_def fun_eq_iff)

lemma new_objects_unowned [simp]:
  "OwnerReferences (named ns n) = []" "OwnerReferences (new_CertificateResource ns n) = []"
  "OwnerReferences (new_Role ns n) = []" "OwnerReferences (new_RoleBinding ns n) = []"
  "OwnerReferences (new_Service ns n) = []" "OwnerReferences (new_StatefulSet ns n) = []"
  "OwnerReferences (new_Claim ns n) = []"
  by (simp_all add: named_def new_kobject_def new_CertificateResource_def new_Role_def new_RoleBinding_def
      new_Service_def new_StatefulSet_def new_Claim_def kobject.defs)

lemma upsert_succeeds:
  assumes "served published (ownable (reg_lib r) cr) u" "owner = None \<or> owner = Some (cr\<lparr>reg_Conditions := C\<rparr>)"
    and "OwnerReferences obj = []"
  shows "steady published (upsert r u owner obj (sets f) (cr\<lparr>reg_Conditions := C\<rparr>))
    (\<lambda>res. res = Returned (None, cr\<lparr>reg_Conditions := C\<rparr>))"
  by (rule sets_steady [OF assms(1) _ assms(2,3)]) simp

lemma tasks_succeed:
  fixes r :: "'s ReconcileImageRegistry"
  assumes "objects_served published r cr" "certificates_renewed published r cr"
    and "task \<in> {reconcileTokenCert r, reconcileTLSCert r, reconcileServiceAccount r, reconcileRole r,
      reconcileRoleBinding r, reconcileService r, reconcilePersistentVolumeClaim r}"
  shows "steady published (task (cr\<lparr>reg_Conditions := C\<rparr>)) (\<lambda>res. res = Returned (None, cr\<lparr>reg_Conditions := C\<rparr>))"
proof -
  let ?cr = "cr\<lparr>reg_Conditions := C\<rparr>"
  have token: "steady published (reconcileTokenCert r ?cr) (\<lambda>res. res = Returned (None, ?cr))"
    using assms(1,2) unfolding reconcileTokenCert_def certificates_renewed_def objects_served_def
    by (auto simp: Let_def renewal_error_def split: option.split intro!: upsert_succeeds steady_bind)
  have tls: "steady published (reconcileTLSCert r ?cr) (\<lambda>res. res = Returned (None, ?cr))"
    using assms(1,2) unfolding reconcileTLSCert_def certificates_renewed_def objects_served_def
    by (auto simp: Let_def renewal_error_def split: option.split intro!: upsert_succeeds steady_bind)
  show ?thesis
    using assms(1,3) token tls
    by (auto simp: objects_served_def reconcileServiceAccount_def reconcileRole_def reconcileRoleBinding_def
        reconcileService_def reconcilePersistentVolumeClaim_def Let_def intro!: upsert_succeeds)
qed

abbreviation is_ready :: Condition where
  "is_ready \<equiv> mk_condition ConditionReady ConditionTrue [] []"

abbreviation is_synced :: Condition where
  "is_synced \<equiv> mk_condition ConditionSynced ConditionTrue [] []"

lemma SetCondition_steady:
  assumes "condition_contract lib" "\<forall>c cs. steady published (SetCondition lib c cs) (\<lambda>_. True)"
  shows "steady published (SetCondition lib c cs) (\<lambda>(cs', ch). (\<exists>c'. same_condition c' c \<and> cs' = cs(CondType c \<mapsto> c')) \<and>
    (ch \<longleftrightarrow> \<not> (\<exists>d. cs (CondType c) = Some d \<and> same_condition d c)))"
  unfolding steady_def
proof
  fix s
  have "wp (SetCondition lib c cs) (\<lambda>(cs', ch) s'. (\<exists>c'. same_condition c' c \<and> cs' = cs(CondType c \<mapsto> c')) \<and>
    (ch \<longleftrightarrow> \<not> (\<exists>d. cs (CondType c) = Some d \<and> same_condition d c))) s"
    by (rule wp_SetCondition [OF assms(1)]) (auto split: option.split)
  from wp_conj [OF this steadyD [OF assms(2) [rule_format]]]
  show "wp (SetCondition lib c cs) (\<lambda>a s'. (case a of (cs', ch) \<Rightarrow> (\<exists>c'. same_condition c' c \<and> cs' = cs(CondType c \<mapsto> c')) \<and>
    (ch \<longleftrightarrow> \<not> (\<exists>d. cs (CondType c) = Some d \<and> same_condition d c))) \<and> published s' = published s) s"
    by (auto elim!: wp_mono)
qed

lemma stateful_set_ready:
  assumes "condition_contract (reg_lib r)" "registry_answered published r request cr" "objects_served published r cr"
  shows "steady published (reconcileStatefulSet r (cr\<lparr>reg_Conditions := C\<rparr>))
    (\<lambda>res. \<exists>c. same_condition c is_ready \<and> res = Returned (None, cr\<lparr>reg_Conditions := C(ConditionReady \<mapsto> c)\<rparr>))"
proof -
  let ?cr = "cr\<lparr>reg_Conditions := C\<rparr>"
  have lib: "\<forall>c cs. steady published (SetCondition (reg_lib r) c cs) (\<lambda>_. True)"
    using assms(2) unfolding registry_answered_def by blast
  have modify: "steady published (modify_stateful_set r x ?cr)
      (\<lambda>(e, _, cr'). e = None \<and> (\<exists>c. same_condition c is_ready \<and> cr' = cr\<lparr>reg_Conditions := C(ConditionReady \<mapsto> c)\<rparr>))"
    if "rolled_out cr x" for x
    unfolding modify_stateful_set_def Let_def
    by (rule steady_bind [OF SetCondition_steady [OF assms(1) lib]])
      (use that in \<open>auto simp: ready_condition_def mk_condition_def\<close>)
  have sets: "served published (\<lambda>x. ownable (reg_lib r) cr x \<and> rolled_out cr x) (up_StatefulSets r)"
    using assms(3) unfolding objects_served_def by blast
  show ?thesis
    unfolding reconcileStatefulSet_def
    by (rule steady_mono [OF upsert_steady [OF sets, where G = "\<lambda>cr'. \<exists>c. same_condition c is_ready \<and>
        cr' = cr\<lparr>reg_Conditions := C(ConditionReady \<mapsto> c)\<rparr>"]])
      (auto intro!: steady_mono [OF modify])
qed

lemma run_tasks_ready:
  assumes "condition_contract (reg_lib r)" "registry_answered published r request cr" "objects_served published r cr"
    and "certificates_renewed published r cr"
  shows "steady published (run_tasks (reconcileTasks r) (cr\<lparr>reg_Conditions := C\<rparr>))
    (\<lambda>res. \<exists>c. same_condition c is_ready \<and> res = Returned (None, cr\<lparr>reg_Conditions := C(ConditionReady \<mapsto> c)\<rparr>))"
proof -
  have next_task: "steady published (run_tasks (task # tasks) (cr\<lparr>reg_Conditions := C\<rparr>)) Q"
    if "task \<in> {reconcileTokenCert r, reconcileTLSCert r, reconcileServiceAccount r, reconcileRole r,
        reconcileRoleBinding r, reconcileService r, reconcilePersistentVolumeClaim r}"
      "steady published (run_tasks tasks (cr\<lparr>reg_Conditions := C\<rparr>)) Q" for task tasks C Q
    using that(2) by simp (rule steady_bind [OF tasks_succeed [OF assms(3,4) that(1)]], simp)
  have claim: "steady published (run_tasks [reconcilePersistentVolumeClaim r] (cr\<lparr>reg_Conditions := D\<rparr>))
    (\<lambda>res. res = Returned (None, cr\<lparr>reg_Conditions := D\<rparr>))" for D
    by (rule next_task) simp_all
  have rest: "steady published (run_tasks [reconcileStatefulSet r, reconcilePersistentVolumeClaim r] (cr\<lparr>reg_Conditions := C\<rparr>))
    (\<lambda>res. \<exists>c. same_condition c is_ready \<and> res = Returned (None, cr\<lparr>reg_Conditions := C(ConditionReady \<mapsto> c)\<rparr>))"
    (is "steady _ _ ?ready")
    unfolding run_tasks.simps(2) [of "reconcileStatefulSet r"]
  proof (rule steady_bind [OF stateful_set_ready [OF assms(1-3)]], elim exE conjE)
    fix a :: "(go_error option \<times> ImageRegistry) outcome" and c
    assume c: "same_condition c is_ready" "a = Returned (None, cr\<lparr>reg_Conditions := C(ConditionReady \<mapsto> c)\<rparr>)"
    have "steady published (run_tasks [reconcilePersistentVolumeClaim r] (cr\<lparr>reg_Conditions := C(ConditionReady \<mapsto> c)\<rparr>)) ?ready"
      by (rule steady_mono [OF claim]) (use c(1) in blast)
    then show "steady published (case a of Panicked p \<Rightarrow> ret (Panicked p)
      | Returned q \<Rightarrow> (case fst q of Some err \<Rightarrow> ret (Returned (Some err, snd q))
         | None \<Rightarrow> run_tasks [reconcilePersistentVolumeClaim r] (snd q))) ?ready"
      by (simp only: c(2) outcome.case fst_conv snd_conv option.case)
  qed
  show ?thesis
    unfolding reconcileTasks_def by (rule next_task [OF _ next_task [OF _ next_task [OF _ next_task [OF _
      next_task [OF _ next_task [OF _ rest]]]]]]) simp_all
qed

text \<open>Merging tells whether a condition is not there yet.\<close>

lemma merge_steady:
  assumes "condition_contract lib" "\<forall>c cs. steady published (SetCondition lib c cs) (\<lambda>_. True)"
    and "distinct (map CondType cs)"
  shows "steady published (merge_conditions lib cs C ch) (\<lambda>(C', ch').
     (\<forall>c \<in> set cs. \<exists>c'. C' (CondType c) = Some c' \<and> same_condition c' c) \<and>
     (\<forall>k. k \<notin> CondType ` set cs \<longrightarrow> C' k = C k) \<and>
     (ch' \<longleftrightarrow> ch \<or> (\<exists>c \<in> set cs. \<not> (\<exists>d. C (CondType c) = Some d \<and> same_condition d c))))"
  using assms(3)
proof (induction cs arbitrary: C ch)
  case (Cons c cs)
  then have IH: "steady published (merge_conditions lib cs D h) (\<lambda>(C', ch').
     (\<forall>c \<in> set cs. \<exists>c'. C' (CondType c) = Some c' \<and> same_condition c' c) \<and>
     (\<forall>k. k \<notin> CondType ` set cs \<longrightarrow> C' k = D k) \<and>
     (ch' \<longleftrightarrow> h \<or> (\<exists>c \<in> set cs. \<not> (\<exists>d. D (CondType c) = Some d \<and> same_condition d c))))" for D h
    by simp
  have fold: "(\<forall>x \<in> set (c # cs). \<exists>x'. C' (CondType x) = Some x' \<and> same_condition x' x) \<and>
     (\<forall>k. k \<notin> CondType ` set (c # cs) \<longrightarrow> C' k = C k) \<and>
     (ch' \<longleftrightarrow> ch \<or> (\<exists>x \<in> set (c # cs). \<not> (\<exists>d. C (CondType x) = Some d \<and> same_condition d x)))"
    if c: "same_condition c' c"
      and h: "h \<longleftrightarrow> ch \<or> \<not> (\<exists>d. C (CondType c) = Some d \<and> same_condition d c)"
      and rest: "\<forall>x \<in> set cs. \<exists>x'. C' (CondType x) = Some x' \<and> same_condition x' x"
      "\<forall>k. k \<notin> CondType ` set cs \<longrightarrow> C' k = (C(CondType c \<mapsto> c')) k"
      "ch' \<longleftrightarrow> h \<or> (\<exists>x \<in> set cs. \<not> (\<exists>d. (C(CondType c \<mapsto> c')) (CondType x) = Some d \<and> same_condition d x))"
    for c' C' ch' h
  proof -
    have n: "CondType x \<noteq> CondType c" if "x \<in> set cs" for x
      using Cons.prems that by (auto) (metis image_eqI)
    then have "CondType c \<notin> CondType ` set cs" by force
    with rest(2) have "C' (CondType c) = Some c'" by simp
    with c rest(1,2) h rest(3) n show ?thesis by auto
  qed
  show ?case
    by (simp, rule steady_bind [OF SetCondition_steady [OF assms(1,2)]], rule steady_mono [OF IH])
      (use fold in \<open>clarsimp; blast\<close>)
qed simp


subsection \<open>The status\<close>

text \<open>
  A status that reports a registry as ready: both conditions are true, without a reason or a
  message of an earlier failure, and the generation, host name and secret are its own.
\<close>

definition reports_ready :: "'s ReconcileImageRegistry \<Rightarrow> ImageRegistry \<Rightarrow> ImageRegistry \<Rightarrow> bool" where
  "reports_ready r cr y \<longleftrightarrow>
     (\<exists>c. reg_Conditions y ConditionReady = Some c \<and> same_condition c is_ready) \<and>
     (\<exists>c. reg_Conditions y ConditionSynced = Some c \<and> same_condition c is_synced) \<and>
     reg_ObservedGeneration y = Generation cr \<and> Hostname y = externalHostnameForCR r cr \<and>
     TLSSecretName y = tlsSecretNameForCR cr"

lemma merged_ready:
  assumes "condition_contract lib" "\<forall>c cs. steady published (SetCondition lib c cs) (\<lambda>_. True)" "order_contract order"
    and "same_condition c1 is_ready" "same_condition c2 is_synced"
  shows "steady published (merge_conditions lib (order [ConditionReady \<mapsto> c1, ConditionSynced \<mapsto> c2]) C False)
    (\<lambda>(C', ch). (\<exists>c. C' ConditionReady = Some c \<and> same_condition c is_ready) \<and>
       (\<exists>c. C' ConditionSynced = Some c \<and> same_condition c is_synced) \<and>
       (ch \<longleftrightarrow> \<not> ((\<exists>c. C ConditionReady = Some c \<and> same_condition c is_ready) \<and>
         (\<exists>c. C ConditionSynced = Some c \<and> same_condition c is_synced))))"
proof -
  have k: "CondType c1 = ConditionReady" "CondType c2 = ConditionSynced"
    using assms(4,5) by (simp_all add: same_condition_def mk_condition_def)
  have same: "same_condition d c1 = same_condition d is_ready" "same_condition d c2 = same_condition d is_synced" for d
    using assms(4,5) by (auto simp: same_condition_def)
  have "distinct (map CondType (order [ConditionReady \<mapsto> c1, ConditionSynced \<mapsto> c2]))"
    "set (order [ConditionReady \<mapsto> c1, ConditionSynced \<mapsto> c2]) = {c1, c2}"
    using assms(3) k unfolding order_contract_def by (auto split: if_splits)
  from merge_steady [OF assms(1,2) this(1), of C False, unfolded this(2)]
  show ?thesis by (rule steady_mono) (auto simp: k same)
qed

lemma update_status_ready:
  assumes "condition_contract (reg_lib r)" "order_contract (condition_order r)"
    and "registry_answered published r request cr" "published s = Some cr" "same_condition c is_ready"
  shows "wp (update_status r (reg_Conditions cr) (cr\<lparr>reg_Conditions := [ConditionReady \<mapsto> c]\<rparr>) None)
    (\<lambda>e s'. e = None \<and> (\<exists>y. published s' = Some y \<and> reports_ready r cr y \<and> (reports_ready r cr cr \<longrightarrow> y = cr))) s"
proof -
  have lib: "\<forall>c cs. steady published (SetCondition (reg_lib r) c cs) (\<lambda>_. True)"
    using assms(3) unfolding registry_answered_def by blast
  have sync: "steady published (sync_conditions r None [ConditionReady \<mapsto> c])
     (\<lambda>D. \<exists>d. same_condition d is_synced \<and> D = [ConditionReady \<mapsto> c, ConditionSynced \<mapsto> d])"
    unfolding sync_conditions_def option.case
    by (rule steady_bind [OF SetCondition_steady [OF assms(1) lib]]) (auto simp: mk_condition_def)
  have conditions: "reg_Conditions (cr\<lparr>reg_Conditions := C\<rparr>) = C"
    "cr\<lparr>reg_Conditions := C, reg_Conditions := D\<rparr> = cr\<lparr>reg_Conditions := D\<rparr>" for C D
    by simp_all
  have written: "wp (StatusUpdate (reg_crs r) x) (\<lambda>u s'. fst u = None \<and> (\<exists>y. published s' = Some y \<and> same_status y x)) s1"
    if "published s1 = Some cr" "kobject.truncate x = kobject.truncate cr" for x s1
    using assms(3) that unfolding registry_answered_def by blast
  show ?thesis
    unfolding update_status_def wp_bind conditions
    by (rule wp_steady [OF sync], elim exE conjE, hypsubst,
        rule wp_steady [OF merged_ready [OF assms(1) lib assms(2,5)]], assumption)
      (auto simp: Let_def assms(4) reports_ready_def same_status_def kobject.defs intro!: wp_mono [OF written])
qed

text \<open>
  C14. A registry whose pods are rolled out becomes ready. When a reconciliation's calls are
  answered, the certificates that the operator makes for the registry are renewed, nothing
  else controls its objects and the stateful set that is found is rolled out for the
  registry's generation, the reconciliation succeeds and the published registry has both
  conditions true, without a trace of earlier failures, its current generation as the
  observed one, and the host name and the name of the TLS secret for clients. When the
  published registry says all that already, it is left as it is.
\<close>

theorem registry_becomes_ready:
  assumes "condition_contract (reg_lib r)" "order_contract (condition_order r)"
    and "registry_answered published r request cr" "objects_served published r cr" "certificates_renewed published r cr"
    and "published s = Some cr"
  shows "wp (RegistryWorkload.Reconcile r request) (\<lambda>res s'. res = Returned (no_requeue, None) \<and>
     (\<exists>y. published s' = Some y \<and> reports_ready r cr y \<and> (reports_ready r cr cr \<longrightarrow> y = cr))) s"
proof -
  have get: "wp (Get (reg_crs r) request) (\<lambda>g s'. g = Inr cr \<and> published s' = published s) s"
    using assms(3,6) unfolding registry_answered_def by blast
  have run: "wp (run_tasks (reconcileTasks r) (cr\<lparr>reg_Conditions := Map.empty\<rparr>))
     (\<lambda>t s'. \<exists>c. t = Returned (None, cr\<lparr>reg_Conditions := [ConditionReady \<mapsto> c]\<rparr>) \<and> same_condition c is_ready \<and>
        published s' = Some cr) s1" if "published s1 = Some cr" for s1
    by (rule wp_steady [OF run_tasks_ready [OF assms(1,3-5)]]) (use that in auto)
  show ?thesis
    unfolding RegistryWorkload.Reconcile_def wp_bind
    by (rule wp_mono [OF get], clarsimp simp: assms(6), rule wp_mono [OF run], assumption)
      (auto intro!: wp_mono [OF update_status_ready [OF assms(1-3)]])
qed

subsection \<open>A rollout on the cluster\<close>

text \<open>A registry with certificates of its own, and a server that has rolled its pods out.\<close>

definition demo_rolled_registry :: ImageRegistry where
  "demo_rolled_registry = (new_ImageRegistry ''ns'' ''r'')\<lparr>
     AuthCA := \<lparr>cs_IssuerRef = None, cs_SecretName = Some ''ca''\<rparr>,
     reg_TLS := \<lparr>cs_IssuerRef = Some \<lparr>issuer_Name = ''corp'', issuer_Kind = ''Issuer''\<rparr>, cs_SecretName = None\<rparr>\<rparr>"

definition rolling :: "ImageRegistry \<Rightarrow> (StatefulSet, cluster) upserter" where
  "rolling cr = accepting\<lparr>up_fetch := (\<lambda>x. ret (None, x\<lparr>
     Annotations := annotate annotationImageRegistryGeneration (FormatInt (Generation cr)) (Annotations x),
     sts_ObservedGeneration := Generation x, sts_Replicas := replicas_for_cr cr,
     sts_ReadyReplicas := replicas_for_cr cr, sts_UpdatedReplicas := replicas_for_cr cr\<rparr>))\<rparr>"

definition demo_rolled :: "cluster ReconcileImageRegistry" where
  "demo_rolled = (cluster_registry [])\<lparr>up_StatefulSets := rolling demo_rolled_registry\<rparr>"

lemma unowned_ownable:
  assumes "OwnerReferences x = []"
  shows "ownable cluster_lib cr x"
  using assms by (auto simp: ownable_def cluster_lib_def kobject.defs prepare_def)

lemma rolling_rolled_out:
  "rolled_out cr (x\<lparr>Annotations := annotate annotationImageRegistryGeneration (FormatInt (Generation cr)) (Annotations x),
     sts_ObservedGeneration := Generation x, sts_Replicas := replicas_for_cr cr,
     sts_ReadyReplicas := replicas_for_cr cr, sts_UpdatedReplicas := replicas_for_cr cr\<rparr>)"
  by (simp add: rolled_out_def)

lemma registry_becomes_ready_witness:
  "wp (RegistryWorkload.Reconcile demo_rolled (NN ''ns'' ''r''))
     (\<lambda>res s'. res = Returned (no_requeue, None) \<and>
        (\<exists>y. all_registries s' (NN ''ns'' ''r'') = Some y \<and> Hostname y = ''r.ns.svc.cluster.local''))
     (empty_cluster\<lparr>all_registries := [NN ''ns'' ''r'' \<mapsto> demo_rolled_registry]\<rparr>)"
proof -
  let ?published = "\<lambda>s. all_registries s (NN ''ns'' ''r'')" and ?cr = demo_rolled_registry
  have key: "object_key x = NN ''ns'' ''r''" if "kobject.truncate x = kobject.truncate ?cr" for x :: ImageRegistry
    using that by (simp add: kobject.defs object_key_def demo_rolled_registry_def new_ImageRegistry_def)
  have c: "condition_contract (reg_lib demo_rolled)" "order_contract (condition_order demo_rolled)"
    by (simp_all add: demo_rolled_def cluster_registry_def cluster_lib_contracts ready_first_order)
  have a: "registry_answered ?published demo_rolled (NN ''ns'' ''r'') ?cr"
    unfolding registry_answered_def
    by (auto simp: key demo_rolled_def cluster_registry_def cluster_registries_def mem_client_def wp_State
        steady_def cluster_lib_def same_status_def split: option.split)
  have o: "objects_served ?published demo_rolled ?cr"
    by (simp add: objects_served_def served_def demo_rolled_def cluster_registry_def rolling_def accepting_def
        unowned_ownable rolling_rolled_out)
  have "certificates_renewed ?published demo_rolled ?cr"
    by (simp add: certificates_renewed_def demo_rolled_registry_def)
  from registry_becomes_ready [OF c a o this, of "empty_cluster\<lparr>all_registries := [NN ''ns'' ''r'' \<mapsto> ?cr]\<rparr>"]
  show ?thesis
    by (auto elim!: wp_mono simp: reports_ready_def externalHostnameForCR_def RegistryHostname_def serviceNameForCR_def
        demo_rolled_def cluster_registry_def demo_rolled_registry_def new_ImageRegistry_def kobject.defs)
qed

end
