(* ===== verification/BuildEnvMerge.thy ===== *)
theory BuildEnvMerge
  imports BuildEnvReconciler
begin

text \<open>
  The merge of the input secrets, against a reference: the last input that has credentials
  for a registry wins, and the Makisu configuration has the same credentials as Docker's.
\<close>

subsection \<open>The reference\<close>

text \<open>The credentials of one input, as a map.\<close>

definition input_auths :: "codecs \<Rightarrow> Secret \<Rightarrow> string \<rightharpoonup> string" where
  "input_auths cd secret =
     (case dockerConfigFromSecret cd secret of
        Inl _ \<Rightarrow> Map.empty
      | Inr c \<Rightarrow> (case Auths c of None \<Rightarrow> Map.empty | Some es \<Rightarrow> map_of es))"

definition merged_auths :: "codecs \<Rightarrow> Secret list \<Rightarrow> string \<rightharpoonup> string" where
  "merged_auths cd secrets = foldl (++) Map.empty (map (input_auths cd) secrets)"

definition decoded :: "string \<Rightarrow> MakisuBasicAuth" where
  "decoded v = (case ToMakisuBasicAuth v of Inl _ \<Rightarrow> ([], []) | Inr a \<Rightarrow> a)"

definition makisu_of :: "(string \<rightharpoonup> string) \<Rightarrow> MakisuRegistries" where
  "makisu_of m = (\<lambda>k. map_option (\<lambda>v. [''.*'' \<mapsto> decoded v]) (m k))"

text \<open>An input that the controller accepts.\<close>

definition valid_input :: "codecs \<Rightarrow> Secret \<Rightarrow> bool" where
  "valid_input cd secret =
     (case dockerConfigFromSecret cd secret of
        Inl _ \<Rightarrow> False
      | Inr c \<Rightarrow> (case Auths c of None \<Rightarrow> True
          | Some es \<Rightarrow> list_all (\<lambda>e. \<exists>a. ToMakisuBasicAuth (snd e) = Inr a) es))"

text \<open>\<open>json.Unmarshal\<close> returns a map.\<close>

definition map_contract :: "codecs \<Rightarrow> bool" where
  "map_contract cd \<longleftrightarrow> (\<forall>data c es. UnmarshalJSON cd data = Inr c \<longrightarrow> Auths c = Some es \<longrightarrow> entries_ok es)"

subsection \<open>The loops\<close>

lemma makisu_of_upd [simp]:
  "ToMakisuBasicAuth v = Inr auth \<Longrightarrow> AddRegistry k ''.*'' auth (makisu_of m) = makisu_of (m(k \<mapsto> v))"
  by (auto simp: AddRegistry_def makisu_of_def decoded_def fun_eq_iff Let_def split: option.split)

text \<open>Both configurations agree with a map of credentials.\<close>

definition represents :: "(string \<rightharpoonup> string) \<Rightarrow> (string \<times> string) list \<times> MakisuRegistries \<Rightarrow> bool" where
  "represents m acc \<longleftrightarrow> entries_ok (fst acc) \<and> map_of (fst acc) = m \<and> snd acc = makisu_of m"

lemma represents_empty [simp]: "represents Map.empty ([], Map.empty)"
  by (simp add: represents_def entries_ok_def makisu_of_def)

lemma merge_auths_result:
  assumes "represents m acc" "entries_ok es"
  shows "case merge_auths n es acc of
      Inl err \<Rightarrow> \<not> list_all (\<lambda>e. \<exists>a. ToMakisuBasicAuth (snd e) = Inr a) es \<and>
        (\<exists>e. err = ErrWrap (''secret '' @ n @ '' basic auth: '') e)
    | Inr acc' \<Rightarrow> list_all (\<lambda>e. \<exists>a. ToMakisuBasicAuth (snd e) = Inr a) es \<and>
        represents (m ++ map_of es) acc'"
  using assms
proof (induction es arbitrary: m acc)
  case Nil
  then show ?case by simp
next
  case (Cons e es)
  obtain k v where e: "e = (k, v)" by (cases e)
  have fresh: "k \<notin> dom (map_of es)" and es: "entries_ok es"
    using Cons.prems(2) by (auto simp: entries_ok_def e dom_map_of_conv_image_fst)
  show ?case
  proof (cases "ToMakisuBasicAuth v")
    case (Inl err)
    then show ?thesis by (simp add: e)
  next
    case (Inr auth)
    then have "represents (m(k \<mapsto> v)) (AList.update k v (fst acc), AddRegistry k ''.*'' auth (snd acc))"
      using Cons.prems(1)
      by (simp add: represents_def entries_ok_def distinct_update update_conv')
    from Cons.IH [OF this es]
    have "case merge_auths n es (AList.update k v (fst acc), AddRegistry k ''.*'' auth (snd acc)) of
        Inl err \<Rightarrow> \<not> list_all (\<lambda>e. \<exists>a. ToMakisuBasicAuth (snd e) = Inr a) es \<and>
          (\<exists>e. err = ErrWrap (''secret '' @ n @ '' basic auth: '') e)
      | Inr acc' \<Rightarrow> list_all (\<lambda>e. \<exists>a. ToMakisuBasicAuth (snd e) = Inr a) es \<and>
          represents (m(k \<mapsto> v) ++ map_of es) acc'" .
    moreover have "m(k \<mapsto> v) ++ map_of es = m ++ map_of (e # es)"
      using fresh by (auto simp: e map_add_def fun_eq_iff split: option.split)
    ultimately show ?thesis
      using Inr by (auto simp add: e simp del: map_of.simps split: sum.splits)
  qed
qed

lemma dockerConfig_entries_ok:
  assumes "map_contract cd" "dockerConfigFromSecret cd s = Inr c" "Auths c = Some es"
  shows "entries_ok es"
  using assms
  by (auto simp: dockerConfigFromSecret_def map_contract_def ParseDockerConfig_def Let_def split: if_splits)

text \<open>An error that names the first invalid input of the list.\<close>

definition blames :: "codecs \<Rightarrow> Secret list \<Rightarrow> go_error \<Rightarrow> bool" where
  "blames cd secrets err \<longleftrightarrow> (\<exists>before s after e. secrets = before @ s # after \<and>
     list_all (valid_input cd) before \<and> \<not> valid_input cd s \<and> (
     err = ErrWrap (''secret '' @ Name s @ '': '') e \<or> err = ErrWrap (''secret '' @ Name s @ '' basic auth: '') e))"

lemma blames_first:
  assumes "\<not> valid_input cd s"
    and "err = ErrWrap (''secret '' @ Name s @ '': '') e \<or> err = ErrWrap (''secret '' @ Name s @ '' basic auth: '') e"
  shows "blames cd (s # secrets) err"
  unfolding blames_def by (rule exI [of _ "[]"]) (use assms in auto)

lemma blames_later: "valid_input cd s \<Longrightarrow> blames cd secrets err \<Longrightarrow> blames cd (s # secrets) err"
  unfolding blames_def by (metis append_Cons list.pred_inject(2))

lemma merge_inputs_result:
  assumes "map_contract cd" "represents m acc"
  shows "case merge_inputs cd secrets acc of
      Inl err \<Rightarrow> \<not> list_all (valid_input cd) secrets \<and> blames cd secrets err
    | Inr acc' \<Rightarrow> list_all (valid_input cd) secrets \<and>
        represents (foldl (++) m (map (input_auths cd) secrets)) acc'"
  using assms(2)
proof (induction secrets arbitrary: m acc)
  case Nil
  then show ?case by simp
next
  case (Cons s secrets)
  show ?case
  proof (cases "dockerConfigFromSecret cd s")
    case (Inl err)
    then show ?thesis by (auto simp: valid_input_def intro: blames_first)
  next
    case (Inr c)
    show ?thesis
    proof (cases "Auths c")
      case None
      then have "input_auths cd s = Map.empty" "valid_input cd s"
        by (simp_all add: input_auths_def valid_input_def Inr)
      with Cons.IH [OF Cons.prems] show ?thesis
        by (auto simp: Inr None blames_later split: sum.splits)
    next
      case (Some es)
      note ok = dockerConfig_entries_ok [OF assms(1) Inr Some]
      have i: "input_auths cd s = map_of es"
        "valid_input cd s = list_all (\<lambda>e. \<exists>a. ToMakisuBasicAuth (snd e) = Inr a) es"
        by (simp_all add: input_auths_def valid_input_def Inr Some)
      show ?thesis
      proof (cases "merge_auths (Name s) es acc")
        case (Inl err)
        with merge_auths_result [OF Cons.prems ok, of "Name s"] show ?thesis
          by (auto simp: Inr Some i intro: blames_first)
      next
        case acc': (Inr acc')
        with merge_auths_result [OF Cons.prems ok, of "Name s"]
        have "represents (m ++ map_of es) acc'" "valid_input cd s" by (simp_all add: i)
        with Cons.IH [OF this(1)] show ?thesis
          by (auto simp: Inr Some i acc' blames_later split: sum.splits)
      qed
    qed
  qed
qed

subsection \<open>The result\<close>

lemma mergeSecretData_cases:
  assumes "map_contract cd"
  shows "case mergeSecretData cd secrets of
      Panicked p \<Rightarrow> \<exists>err. MarshalYAML cd (makisu_of (merged_auths cd secrets)) = Inl err
    | Returned (Inl err) \<Rightarrow> \<not> list_all (valid_input cd) secrets \<and> blames cd secrets err
    | Returned (Inr data) \<Rightarrow> list_all (valid_input cd) secrets \<and>
        (\<exists>es. entries_ok es \<and> map_of es = merged_auths cd secrets \<and>
          data DockerConfigJsonKey = Some (JSON \<lparr>Auths = Some es\<rparr>)) \<and>
        (\<exists>y. MarshalYAML cd (makisu_of (merged_auths cd secrets)) = Inr y \<and> data SecretKeyMakisuYAML = Some y) \<and>
        (\<forall>k. k \<notin> {DockerConfigJsonKey, SecretKeyMakisuYAML} \<longrightarrow>
          data k = (case secrets of [] \<Rightarrow> None | s # _ \<Rightarrow> Option.bind (Data s) (\<lambda>m. m k)))"
proof (cases "merge_inputs cd secrets ([], Map.empty)")
  case (Inl err)
  with merge_inputs_result [OF assms represents_empty, of secrets] show ?thesis
    by (simp add: mergeSecretData_def)
next
  case (Inr acc)
  obtain es mk where acc: "acc = (es, mk)" by (cases acc)
  from Inr merge_inputs_result [OF assms represents_empty, of secrets]
  have valid: "list_all (valid_input cd) secrets"
    and es: "entries_ok es" "map_of es = merged_auths cd secrets" "mk = makisu_of (merged_auths cd secrets)"
    by (simp_all add: acc represents_def merged_auths_def)
  have keys: "DockerConfigJsonKey \<noteq> SecretKeyMakisuYAML"
    by (simp add: DockerConfigJsonKey_def SecretKeyMakisuYAML_def)
  have rest: "(case secrets of [] \<Rightarrow> Map.empty | s # _ \<Rightarrow> (case Data s of None \<Rightarrow> Map.empty | Some m \<Rightarrow> m)) k =
      (case secrets of [] \<Rightarrow> None | s # _ \<Rightarrow> Option.bind (Data s) (\<lambda>m. m k))" for k
    by (simp split: list.split option.split)
  show ?thesis
  proof (cases "MarshalYAML cd mk")
    case (Inl err)
    then show ?thesis
      by (simp add: mergeSecretData_def Inr acc YAML_def es(3) Let_def)
  next
    case y: (Inr y)
    show ?thesis
      using valid es(1,2) y keys
      by (auto simp: mergeSecretData_def Inr acc YAML_def es(3) Let_def rest)
  qed
qed

lemma merge_secret_data_result:
  assumes "map_contract cd" "mergeSecretData cd secrets = Returned (Inr data)"
  shows "\<exists>es. entries_ok es \<and> map_of es = merged_auths cd secrets \<and>
    data DockerConfigJsonKey = Some (JSON \<lparr>Auths = Some es\<rparr>)"
  using mergeSecretData_cases [OF assms(1), of secrets] by (simp add: assms(2))

text \<open>
  C20. A build environment gets the credentials of all its inputs. Merging fails exactly when
  an input is invalid (no data, another type, no configuration, one that cannot be parsed
  or credentials that cannot be decoded), with an error that names the first invalid input of
  the list. Otherwise the
  Docker configuration of the result is the override of the inputs' credentials in the
  order of the list, and the Makisu configuration is the same credentials, decoded, for
  every image; all other keys are those of the first input.
\<close>

theorem merge_secret_data:
  assumes "map_contract cd"
  shows "case mergeSecretData cd secrets of
      Panicked p \<Rightarrow> \<exists>err. MarshalYAML cd (makisu_of (merged_auths cd secrets)) = Inl err
    | Returned (Inl err) \<Rightarrow> \<not> list_all (valid_input cd) secrets \<and> blames cd secrets err
    | Returned (Inr data) \<Rightarrow> list_all (valid_input cd) secrets \<and>
        (\<exists>es. entries_ok es \<and> map_of es = merged_auths cd secrets \<and>
          data DockerConfigJsonKey = Some (JSON \<lparr>Auths = Some es\<rparr>)) \<and>
        (\<exists>y. MarshalYAML cd (makisu_of (merged_auths cd secrets)) = Inr y \<and> data SecretKeyMakisuYAML = Some y) \<and>
        (\<forall>k. k \<notin> {DockerConfigJsonKey, SecretKeyMakisuYAML} \<longrightarrow>
          data k = (case secrets of [] \<Rightarrow> None | s # _ \<Rightarrow> Option.bind (Data s) (\<lambda>m. m k)))"
  using assms by (rule mergeSecretData_cases)

text \<open>The text of a configuration does not depend on the order of a visit.\<close>

lemma JSON_order:
  assumes "entries_ok es" "entries_ok es'" "map_of es = map_of es'"
  shows "JSON \<lparr>Auths = Some es\<rparr> = JSON \<lparr>Auths = Some es'\<rparr>"
proof -
  have "set es = set es'"
    using assms by (metis entries_ok_def map_of_inject_set)
  then have "sort_key fst es = sort_key fst es'"
    using assms(1,2)
    by (intro map_sorted_distinct_set_unique [where f = fst])
      (auto simp: entries_ok_def distinct_map inj_on_def sort_key_entries eq_key_imp_eq_value)
  then show ?thesis by (simp add: JSON_def)
qed

subsection \<open>The order of a visit\<close>

text \<open>Two runs of the code see the same maps, but may visit their entries in different orders.\<close>

definition same_map :: "(string \<times> string) list \<Rightarrow> (string \<times> string) list \<Rightarrow> bool" where
  "same_map es es' \<longleftrightarrow> entries_ok es \<and> entries_ok es' \<and> map_of es = map_of es'"

definition reordered :: "codecs \<Rightarrow> codecs \<Rightarrow> bool" where
  "reordered cd cd' \<longleftrightarrow> MarshalYAML cd' = MarshalYAML cd \<and>
     (\<forall>data. rel_sum (=) (\<lambda>c c'. rel_option same_map (Auths c) (Auths c')) (UnmarshalJSON cd data) (UnmarshalJSON cd' data))"

lemma reordered_contract:
  assumes "reordered cd cd'"
  shows "map_contract cd" "map_contract cd'"
proof -
  have r: "rel_sum (=) (\<lambda>c c'. rel_option same_map (Auths c) (Auths c')) (UnmarshalJSON cd data) (UnmarshalJSON cd' data)" for data
    using assms by (simp add: reordered_def)
  have "entries_ok es" if "UnmarshalJSON cd data = Inr c" "Auths c = Some es" for data c es
    using r [of data] that by (cases "UnmarshalJSON cd' data") (auto simp: same_map_def option_rel_Some1)
  then show "map_contract cd" by (simp add: map_contract_def)
  have "entries_ok es" if "UnmarshalJSON cd' data = Inr c" "Auths c = Some es" for data c es
    using r [of data] that by (cases "UnmarshalJSON cd data") (auto simp: same_map_def option_rel_Some2)
  then show "map_contract cd'" by (simp add: map_contract_def)
qed

lemma reordered_input:
  assumes "reordered cd cd'"
  shows "rel_sum (=) (\<lambda>c c'. rel_option same_map (Auths c) (Auths c')) (dockerConfigFromSecret cd s) (dockerConfigFromSecret cd' s)"
  using assms by (simp add: reordered_def dockerConfigFromSecret_def ParseDockerConfig_def Let_def)

lemma same_map_set: "same_map es es' \<Longrightarrow> set es = set es'"
  unfolding same_map_def entries_ok_def by (metis map_of_inject_set)

lemma reordered_same:
  assumes "reordered cd cd'"
  shows "input_auths cd' s = input_auths cd s" "valid_input cd' s = valid_input cd s"
  using reordered_input [OF assms, of s]
  by (auto simp: input_auths_def valid_input_def same_map_def list_all_iff
      elim!: rel_sum.cases option.rel_cases dest: same_map_set split: option.split)

text \<open>
  The order in which Go visits a map cannot be seen in the merged secret: when two runs
  on the same inputs visit the entries of the parsed configurations in different orders and
  one of them succeeds, the other one succeeds with the same bytes.
\<close>

theorem merge_order_irrelevant:
  assumes "reordered cd cd'" and "mergeSecretData cd secrets = Returned (Inr data)"
  shows "mergeSecretData cd' secrets = Returned (Inr data)"
proof -
  have m: "merged_auths cd' secrets = merged_auths cd secrets"
    and v: "list_all (valid_input cd') secrets = list_all (valid_input cd) secrets"
    by (simp_all add: merged_auths_def reordered_same [OF assms(1)] cong: map_cong list.pred_cong)
  have y: "MarshalYAML cd' = MarshalYAML cd" using assms(1) by (simp add: reordered_def)
  note one = mergeSecretData_cases [OF reordered_contract(1) [OF assms(1)], of secrets, unfolded assms(2) outcome.case sum.case]
  note two = mergeSecretData_cases [OF reordered_contract(2) [OF assms(1)], of secrets, unfolded m v y]
  show ?thesis
  proof (cases "mergeSecretData cd' secrets")
    case (Panicked p)
    with one two show ?thesis by auto
  next
    case (Returned r)
    show ?thesis
    proof (cases r)
      case (Inl err)
      with one two Returned show ?thesis by auto
    next
      case (Inr data')
      note two = two [unfolded Returned Inr outcome.case sum.case]
      obtain es es' where "entries_ok es" "map_of es = merged_auths cd secrets"
        "data DockerConfigJsonKey = Some (JSON \<lparr>Auths = Some es\<rparr>)"
        "entries_ok es'" "map_of es' = merged_auths cd secrets"
        "data' DockerConfigJsonKey = Some (JSON \<lparr>Auths = Some es'\<rparr>)"
        using one two by blast
      then have "data' DockerConfigJsonKey = data DockerConfigJsonKey"
        using JSON_order [of es es'] by simp
      moreover have "data' SecretKeyMakisuYAML = data SecretKeyMakisuYAML"
        using one two by auto
      moreover have "data' k = data k" if "k \<notin> {DockerConfigJsonKey, SecretKeyMakisuYAML}" for k
        using one two that by simp
      ultimately have "data' = data" by (metis ext insert_iff empty_iff)
      with Returned Inr show ?thesis by simp
    qed
  qed
qed

subsection \<open>Witnesses\<close>

text \<open>Codecs that read what \<open>JSON\<close> writes, in the order of the text or in the reverse one.\<close>

definition checked :: "(string \<times> string) list \<Rightarrow> bool" where
  "checked es \<longleftrightarrow> distinct (map fst es)"

definition checked_codecs :: "((string \<times> string) list \<Rightarrow> (string \<times> string) list) \<Rightarrow> codecs" where
  "checked_codecs order = \<lparr>
     UnmarshalJSON = (\<lambda>data. case read_config data of
         Inl err \<Rightarrow> Inl err
       | Inr c \<Rightarrow> (case Auths c of
           None \<Rightarrow> Inr c
         | Some es \<Rightarrow> if checked es then Inr (c\<lparr>Auths := Some (order es)\<rparr>)
             else Inl (ErrOther ''duplicate registry''))),
     MarshalYAML = (\<lambda>_. Inr ''yaml'')\<rparr>"

lemma checked_codecs_reordered: "reordered (checked_codecs id) (checked_codecs rev)"
  by (auto simp: reordered_def checked_codecs_def same_map_def entries_ok_def checked_def
      rev_map [symmetric] split: sum.split option.split intro: map_of_inject_set [THEN iffD2, symmetric])

lemma checked_codecs_json: "json_contract (checked_codecs id)"
  unfolding json_contract_def
proof (intro allI impI)
  fix c assume c: "ascii_config c"
  obtain c' where c': "UnmarshalJSON strict_codecs (JSON c) = Inr c'" "Auths c = None \<longleftrightarrow> Auths c' = None"
    "ascii_config c'" "map_option map_of (Auths c') = map_option map_of (Auths c)"
    using strict_codecs_ok [unfolded json_contract_def, rule_format, OF c] by (elim exE conjE) (rule that)
  have "UnmarshalJSON (checked_codecs id) (JSON c) = Inr c'"
  proof (cases "Auths c'")
    case None
    with c'(1) show ?thesis by (simp add: strict_codecs_def checked_codecs_def)
  next
    case (Some es)
    with c'(3) have "distinct (map fst es)" by (simp add: ascii_config_def entries_ok_def)
    moreover have "c'\<lparr>Auths := Some es\<rparr> = c'" unfolding Some [symmetric] by simp
    ultimately show ?thesis
      using c'(1) Some by (simp add: strict_codecs_def checked_codecs_def checked_def)
  qed
  then show "\<exists>c'. UnmarshalJSON (checked_codecs id) (JSON c) = Inr c' \<and>
      (Auths c = None \<longleftrightarrow> Auths c' = None) \<and> ascii_config c' \<and>
      map_option map_of (Auths c') = map_option map_of (Auths c)"
    by (intro exI [of _ c'] conjI c'(2-4))
qed

definition demo_inputs :: "Secret list" where
  "demo_inputs =
     [(new_secret ''ns'' ''one'')\<lparr>SecretType := SecretTypeDockerConfigJson,
        Data := Some [DockerConfigJsonKey \<mapsto> JSON \<lparr>Auths = Some [(''r'', EncodeToString ''x:y''), (''q'', EncodeToString ''x:y'')]\<rparr>]\<rparr>,
      (new_secret ''ns'' ''two'')\<lparr>SecretType := SecretTypeOpaque,
        Data := Some [secretKeyConfigJson \<mapsto> JSON \<lparr>Auths = Some [(''r'', EncodeToString ''y:z'')]\<rparr>]\<rparr>]"

lemma JSON_nonempty: "JSON c \<noteq> []"
  by (simp add: JSON_def)

lemma ascii_letters: "ascii ''r''" "ascii ''q''"
  by (simp_all add: ascii_def)

lemma demo_yaml: "MarshalYAML (checked_codecs order) m = Inr ''yaml''"
  by (simp add: checked_codecs_def)

lemma demo_inputs_config:
  "map (dockerConfigFromSecret (checked_codecs id)) demo_inputs =
     [Inr \<lparr>Auths = Some [(''q'', EncodeToString ''x:y''), (''r'', EncodeToString ''x:y'')]\<rparr>, Inr \<lparr>Auths = Some [(''r'', EncodeToString ''y:z'')]\<rparr>]"
  by (simp add: demo_inputs_def dockerConfigFromSecret_def map_get_def ParseDockerConfig_def checked_codecs_def
      read_JSON JSON_nonempty ascii_config_def ascii_letters EncodeToString_ascii entries_ok_def checked_def SecretTypeDockerConfigJson_def
      SecretTypeOpaque_def Let_def del: EncodeToString.simps)

lemma demo_merge_runs: "\<exists>data. mergeSecretData (checked_codecs id) demo_inputs = Returned (Inr data)"
proof -
  have "ToMakisuBasicAuth (EncodeToString ''x:y'') = Inr (''x'', ''y'')"
    "ToMakisuBasicAuth (EncodeToString ''y:z'') = Inr (''y'', ''z'')"
    using ToMakisuBasicAuth_encoded [of "''x''" "''y''"] ToMakisuBasicAuth_encoded [of "''y''" "''z''"]
    by (simp_all del: EncodeToString.simps)
  with demo_inputs_config show ?thesis
    by (simp add: mergeSecretData_def demo_inputs_def YAML_def demo_yaml Let_def del: EncodeToString.simps)
qed

lemma merge_secret_data_witness:
  "\<exists>data es. mergeSecretData (checked_codecs id) demo_inputs = Returned (Inr data) \<and>
     data DockerConfigJsonKey = Some (JSON \<lparr>Auths = Some es\<rparr>) \<and>
     map_of es = [''q'' \<mapsto> EncodeToString ''x:y'', ''r'' \<mapsto> EncodeToString ''y:z'']"
proof -
  obtain data where d: "mergeSecretData (checked_codecs id) demo_inputs = Returned (Inr data)"
    using demo_merge_runs by blast
  have "merged_auths (checked_codecs id) demo_inputs = [''q'' \<mapsto> EncodeToString ''x:y'', ''r'' \<mapsto> EncodeToString ''y:z'']"
    using demo_inputs_config by (simp add: merged_auths_def input_auths_def demo_inputs_def fun_eq_iff map_add_def
        del: EncodeToString.simps)
  with merge_secret_data [OF reordered_contract(1) [OF checked_codecs_reordered], of demo_inputs] d show ?thesis
    by auto
qed

lemma merge_order_irrelevant_witness:
  "\<exists>data. mergeSecretData (checked_codecs id) demo_inputs = Returned (Inr data) \<and>
     mergeSecretData (checked_codecs rev) demo_inputs = Returned (Inr data)"
  using merge_order_irrelevant [OF checked_codecs_reordered] demo_merge_runs by blast

end
