(* ===== verification/BuildEnvStatus.thy ===== *)
theory BuildEnvStatus
  imports BuildEnvRefs BuildEnvMerge
begin

text \<open>
  What a reconciliation of a build environment leaves behind: the Redis password that never
  changes, the merged secret with its inputs' credentials, and a status that is true.
\<close>

subsection \<open>The Redis password\<close>

definition redis_data :: "string \<Rightarrow> string \<rightharpoonup> string" where
  "redis_data p = [SecretKeyRedisPassword \<mapsto> p, ''redis.conf'' \<mapsto> ''requirepass '' @ p]"

lemma redis_data_password [simp]: "map_get (Some (redis_data p)) SecretKeyRedisPassword = p"
  "map_get (Some (redis_data p)) ''redis_password'' = p"
  by (simp_all add: redis_data_def map_get_def SecretKeyRedisPassword_def)

lemma wp_redis_callback:
  assumes "random_contract (env_random r)" "random_frame stored (env_random r)"
    and "\<And>s' p. stored s' = stored s \<Longrightarrow> p \<noteq> [] \<Longrightarrow> Q (Returned (None, x\<lparr>Data := Some (redis_data p)\<rparr>, p)) s'"
    and "\<And>s' m. stored s' = stored s \<Longrightarrow> Q (Panicked m) s'"
  shows "wp (redis_callback r x p0) Q s"
proof (cases "Data x \<noteq> None \<and> length (map_get (Data x) ''redis_password'') > 0")
  case True
  then show ?thesis
    using assms(3) [of s] by (auto simp: redis_callback_def redis_data_def SecretKeyRedisPassword_def)
next
  case False
  have "wp (GeneratePassword (env_random r)) (\<lambda>res s'. stored s' = stored s \<and>
      (case res of Returned pw \<Rightarrow> pw \<noteq> [] | Panicked _ \<Rightarrow> True)) s"
    using wp_conj [OF GeneratePassword_ok [OF assms(1), of s]
        wp_reads_only [OF GeneratePassword_frame [OF assms(2)], where Q = "\<lambda>_ s'. stored s' = stored s"]]
    by (rule wp_mono) (auto simp: password_ok_def split: outcome.splits)
  then show ?thesis
    using False assms(3,4)
    by (auto simp: redis_callback_def redis_data_def elim!: wp_mono split: outcome.splits)
qed

text \<open>
  The Redis password of an environment is stable. When the Redis secret has been written
  without an error, the server has a secret whose password and configuration agree and the
  password is not empty; and as long as nobody else changes this secret, every further run
  returns the same password and changes nothing.
\<close>

theorem redis_password_stable:
  assumes "upsert_store (up_env_Secrets r) stored"
    and "\<And>k x. stored s k = Some x \<Longrightarrow> object_key x = k"
    and "random_contract (env_random r)" "random_frame stored (env_random r)"
    and "run_state (upsertRedisSecretForCR r cr) s = (Returned (None, p), s1)"
    and "stored s2 (NN (Namespace cr) (redisSecretName cr)) = stored s1 (NN (Namespace cr) (redisSecretName cr))"
  shows "\<exists>x. stored s1 (NN (Namespace cr) (redisSecretName cr)) = Some x \<and>
    Data x = Some [SecretKeyRedisPassword \<mapsto> p, ''redis.conf'' \<mapsto> ''requirepass '' @ p] \<and> p \<noteq> [] \<and>
    run_state (upsertRedisSecretForCR r cr) s2 = (Returned (None, p), s2)"
proof -
  let ?k = "NN (Namespace cr) (redisSecretName cr)"
  let ?new = "(new_secret (Namespace cr) (redisSecretName cr))\<lparr>SecretType := SecretTypeOpaque\<rparr>"
  obtain refs where refs: "SetControllerReference (env_lib r) (kobject.truncate cr) (kobject.truncate ?new) = Inr refs"
    using assms(5) by (auto simp: upsertRedisSecretForCR_def Let_def split: sum.splits)
  let ?obj = "?new\<lparr>OwnerReferences := refs\<rparr>"
  have key: "object_key ?obj = ?k" by (simp add: object_key_def)
  have "wp (CreateOrUpdate (up_env_Secrets r) ?obj (redis_callback r) []) (\<lambda>u s'. \<forall>w x q.
      u = Returned (w, None, x, q) \<longrightarrow> q \<noteq> [] \<and> (\<exists>z. stored s' ?k = Some z \<and> Data z = Some (redis_data q) \<and> object_key z = ?k)) s"
  proof (rule upsert_store.wp_upsert [OF assms(1)], unfold key, goal_cases)
    case (1 y)
    then show ?case by (rule assms(2))
  next
    case (2 old)
    then show ?case
      by (intro wp_redis_callback [OF assms(3,4)]) (auto simp: completed_def object_key_def)
  qed
  then obtain x where x: "stored s1 ?k = Some x" "Data x = Some (redis_data p)" "object_key x = ?k" "p \<noteq> []"
    using assms(5)
    by (auto simp: upsertRedisSecretForCR_def Let_def refs wp_def split: prod.splits outcome.splits)
  have same: "x\<lparr>Data := Some [SecretKeyRedisPassword \<mapsto> p, ''redis.conf'' \<mapsto> ''requirepass '' @ p]\<rparr> = x"
    unfolding redis_data_def [symmetric] x(2) [symmetric] by simp
  have "Data x \<noteq> None \<and> 0 < length (map_get (Data x) ''redis_password'')"
    "map_get (Data x) SecretKeyRedisPassword = p"
    unfolding x(2) using x(4) by simp_all
  then have cb: "run_state (redis_callback r x []) s2 = (Returned (None, x, p), s2)"
    by (simp only: redis_callback_def not_False_eq_True simp_thms if_True same State_Monad.bind_left_identity outcome.case run_state_return)
  have st: "stored s2 ?k = Some x" using x(1) assms(6) by simp
  have f: "run_state (up_fetch (up_env_Secrets r) ?obj) s2 = ((None, x), s2)"
    by (rule upsert_store.fetch_found [OF assms(1)]) (simp only: key st)
  have "run_state (up_write (up_env_Secrets r) x x) s2 = ((OperationResultNone, None, x), s2)"
    by (rule upsert_store.write_same [OF assms(1)]) (simp only: x(3) st)
  with cb f
  have "run_state (CreateOrUpdate (up_env_Secrets r) ?obj (redis_callback r) []) s2 =
      (Returned (OperationResultNone, None, x, p), s2)"
    by (simp add: CreateOrUpdate_def)
  then have "run_state (upsertRedisSecretForCR r cr) s2 = (Returned (None, p), s2)"
    by (simp add: upsertRedisSecretForCR_def Let_def refs)
  with x show ?thesis by (auto simp: redis_data_def)
qed

subsection \<open>The merged secret\<close>

text \<open>A reference does not change what is merged.\<close>

lemma AddReference_frame:
  "AddReference x w = Returned (b, y) \<Longrightarrow> Data (y :: Secret) = Data x \<and> SecretType y = SecretType x \<and> Name y = Name x"
  by (auto simp: AddReference_def DelReference_def split: if_splits outcome.splits)

lemma mergeSecretData_cong:
  assumes "list_all2 (\<lambda>x y. Data y = Data x \<and> SecretType y = SecretType x \<and> Name y = Name x) xs ys"
  shows "mergeSecretData cd ys = mergeSecretData cd xs"
proof -
  have one: "dockerConfigFromSecret cd y = dockerConfigFromSecret cd x"
    if "Data y = Data x \<and> SecretType y = SecretType x \<and> Name y = Name x" for x y
    using that by (auto simp add: dockerConfigFromSecret_def Let_def)
  have "merge_inputs cd ys acc = merge_inputs cd xs acc" for acc
    using assms
  proof (induction arbitrary: acc rule: list_all2_induct)
    case (Cons x xs y ys)
    then have "dockerConfigFromSecret cd y = dockerConfigFromSecret cd x" "Name y = Name x"
      using one by blast+
    then show ?case by (auto simp: Cons.IH split: sum.split option.split)
  qed simp
  moreover have "(case ys of [] \<Rightarrow> m | s # _ \<Rightarrow> f (Data s)) = (case xs of [] \<Rightarrow> m | s # _ \<Rightarrow> f (Data s))"
    for m and f :: "strmap \<Rightarrow> string \<rightharpoonup> string"
    by (cases xs; use assms in \<open>auto simp: list_all2_Cons1\<close>)
  ultimately show ?thesis by (simp only: mergeSecretData_def)
qed

text \<open>Operations that keep a condition on the world.\<close>

definition keeps :: "('s \<Rightarrow> bool) \<Rightarrow> ('s, 'a) state \<Rightarrow> bool" where
  "keeps P m \<longleftrightarrow> (\<forall>s. P s \<longrightarrow> P (snd (run_state m s)))"

lemma wp_keeps: "keeps P m \<Longrightarrow> P s \<Longrightarrow> (\<And>a s'. P s' \<Longrightarrow> Q a s') \<Longrightarrow> wp m Q s"
  by (auto simp: keeps_def wp_def split: prod.splits)

text \<open>
  A server that answers, for the whole controller: it stores secrets, and setting a
  condition or writing a secret keeps it consistent.
\<close>

definition build_world ::
  "('s \<Rightarrow> NamespacedName \<rightharpoonup> Secret) \<Rightarrow> ('s \<Rightarrow> bool) \<Rightarrow> NamespacedName \<Rightarrow> 's ReconcileImageBuildEnv \<Rightarrow> bool" where
  "build_world stored consistent k r \<longleftrightarrow> input_world stored consistent k r \<and>
     upsert_store (up_env_Secrets r) stored \<and>
     (\<forall>c cs. reads_only stored (SetCondition (env_lib r) c cs) \<and> keeps consistent (SetCondition (env_lib r) c cs)) \<and>
     (\<forall>x y. keeps consistent (up_write (up_env_Secrets r) x y))"

lemma wp_updateStatus:
  assumes "build_world stored consistent k r" "consistent s" "object_key cr = k"
    and "\<And>s'. stored s' = stored s \<Longrightarrow> consistent s' \<Longrightarrow> Q None s'"
  shows "wp (updateStatus r cr st reason msg) Q s"
proof -
  have world: "input_world stored consistent k r" using assms(1) by (simp add: build_world_def)
  have status: "wp (StatusUpdate (env_crs r) w) (\<lambda>u. wp (ret (fst u)) Q) s'"
    if "stored s' = stored s" "consistent s'" "object_key w = k" for w s'
    using referenced_objects.status_update [OF world that(2,3)] that(1) assms(4) by (auto simp: wp_run)
  have "reads_only stored (SetCondition (env_lib r) c cs)" "keeps consistent (SetCondition (env_lib r) c cs)" for c cs
    using assms(1) by (simp_all add: build_world_def)
  then have "wp (SetCondition (env_lib r) c cs) (\<lambda>_ s'. stored s' = stored s \<and> consistent s') s" for c cs
    by (intro wp_conj)
      (rule wp_reads_only [of stored], assumption, assumption, rule wp_keeps [of consistent], assumption, rule assms(2), assumption)
  then show ?thesis
    unfolding updateStatus_def wp_bind
    by (rule wp_mono) (use assms(3,4) in \<open>auto intro!: status simp: object_key_def\<close>)
qed

lemma wp_upsertMergedSecret:
  assumes "build_world stored consistent k r" "consistent s"
    and "SetControllerReference (env_lib r) (kobject.truncate cr) (kobject.truncate
      ((new_secret (Namespace cr) (mergedSecretName cr))\<lparr>SecretType := SecretTypeOpaque\<rparr>)) = Inr refs"
    and "\<And>s' x. consistent s' \<Longrightarrow> stored s' (NN (Namespace cr) (mergedSecretName cr)) = Some x \<Longrightarrow>
      Data x = Some data \<Longrightarrow> Q (Returned None) s'"
  shows "wp (upsertMergedSecretForCR r cr data) Q s"
proof -
  let ?k = "NN (Namespace cr) (mergedSecretName cr)"
  let ?obj = "(new_secret (Namespace cr) (mergedSecretName cr))\<lparr>SecretType := SecretTypeOpaque, OwnerReferences := refs\<rparr>"
  have u: "upsert_store (up_env_Secrets r) stored" and store: "object_store (env_secrets r) stored consistent"
    and kw: "keeps consistent (up_write (up_env_Secrets r) x y)" for x y
    using assms(1) by (auto simp: build_world_def referenced_objects_def)
  have key: "object_key ?obj = ?k" by (simp add: object_key_def)
  have "wp (CreateOrUpdate (up_env_Secrets r) ?obj (merged_callback data) ()) (\<lambda>res s'.
      \<exists>w z. res = Returned (w, None, z) \<and> (\<exists>x. stored s' ?k = Some x \<and> Data x = Some data)) s"
  proof (rule upsert_store.wp_upsert [OF u], unfold key, goal_cases)
    case (1 y)
    then show ?case by (rule object_store.stored_key [OF store assms(2)])
  next
    case (2 old)
    then show ?case by (auto simp: merged_callback_def completed_def object_key_def)
  qed
  moreover have "wp (CreateOrUpdate (up_env_Secrets r) ?obj (merged_callback data) ()) (\<lambda>_. consistent) s"
  proof -
    have "wp (up_fetch (up_env_Secrets r) ?obj) (\<lambda>_ s'. s' = s) s"
      using upsert_store.fetch_missing [OF u, of s ?obj] upsert_store.fetch_found [OF u, of s ?obj]
      by (cases "stored s (object_key ?obj)") (simp_all add: wp_run)
    then show ?thesis
      by (intro wp_CreateOrUpdate, elim wp_mono)
        (auto simp: merged_callback_def assms(2) split: option.split intro: wp_keeps [OF kw assms(2)])
  qed
  ultimately have "wp (CreateOrUpdate (up_env_Secrets r) ?obj (merged_callback data) ()) (\<lambda>res s'.
      (\<exists>w z. res = Returned (w, None, z) \<and> (\<exists>x. stored s' ?k = Some x \<and> Data x = Some data)) \<and> consistent s') s"
    by (rule wp_conj)
  then show ?thesis
    by (auto simp: upsertMergedSecretForCR_def Let_def assms(3) elim!: wp_mono intro: assms(4))
qed

lemma SetStatusReferences_frame:
  "kobject.truncate (SetStatusReferences rs cr) = kobject.truncate cr"
  "mergedSecretName (SetStatusReferences rs cr) = mergedSecretName cr"
  "env_Redis (SetStatusReferences rs cr) = env_Redis cr"
  by (simp_all add: SetStatusReferences_def mergedSecretName_def kobject.defs)

definition published :: "('s \<Rightarrow> NamespacedName \<rightharpoonup> Secret) \<Rightarrow> ImageBuildEnv \<Rightarrow> (string \<rightharpoonup> string) \<Rightarrow> 's \<Rightarrow> bool" where
  "published stored cr data s \<longleftrightarrow>
     (\<exists>x. stored s (NN (Namespace cr) (mergedSecretName cr)) = Some x \<and> Data x = Some data)"

text \<open>The reference with which the output secret is created.\<close>

definition output_owner :: "'s ReconcileImageBuildEnv \<Rightarrow> ImageBuildEnv \<Rightarrow> OwnerReference list result" where
  "output_owner r cr = SetControllerReference (env_lib r) (kobject.truncate cr) (kobject.truncate
     ((new_secret (Namespace cr) (mergedSecretName cr))\<lparr>SecretType := SecretTypeOpaque\<rparr>))"

lemma wp_publish:
  assumes "build_world stored consistent k r" "consistent s" "object_key cr = k"
    and "\<not> env_Redis cr" "output_owner r cr = Inr ctrl"
  shows "wp (publish r cr data) (\<lambda>res s'. res = Returned (no_requeue, None) \<and> published stored cr data s') s"
proof -
  have status: "wp (updateStatus r cr ConditionTrue [] []) (\<lambda>e. wp (ret (Returned (no_requeue, e)))
      (\<lambda>res s'. res = Returned (no_requeue, None) \<and> published stored cr data s')) s'"
    if "consistent s'" "published stored cr data s'" for s'
    by (rule wp_updateStatus [OF assms(1) that(1) assms(3)]) (use that(2) in \<open>simp add: published_def\<close>)
  have "wp (upsertMergedSecretForCR r cr data)
      (\<lambda>res s'. res = Returned None \<and> consistent s' \<and> published stored cr data s') s"
    by (rule wp_upsertMergedSecret [OF assms(1,2) assms(5) [unfolded output_owner_def]])
      (auto simp: published_def)
  then show ?thesis
    using assms(4) by (auto simp: publish_def configureRedis_def elim!: wp_mono intro: status)
qed

lemma wp_update_and_publish:
  assumes "build_world stored consistent k r" "consistent s" "object_key cr = k" "refs_sane (stored s) cr"
    and "\<not> env_Redis cr" "output_owner r cr = Inr ctrl"
    and "distinct (map object_key refs)" "\<forall>x \<in> set refs. stored s (object_key x) = Some x"
    and "\<forall>x \<in> set refs. nn_namespace (object_key x) = Namespace cr"
    and "mergeSecretData (env_codecs r) refs = Returned (Inr data)"
  shows "wp (update_and_publish r cr refs) (\<lambda>res s'. res = Returned (no_requeue, None) \<and> published stored cr data s') s"
proof -
  have world: "input_world stored consistent k r" using assms(1) by (simp add: build_world_def)
  show ?thesis
    unfolding update_and_publish_def wp_bind
  proof (rule wp_mono [OF update_inputs [OF world assms(2-4,7-9)]], goal_cases)
    case (1 u s')
    then obtain cr' rs where u: "u = Returned (None, cr', rs)"
      and cr': "cr' \<in> {cr, SetStatusReferences refs cr}" and c: "consistent s'"
      and rs: "list_all2 (\<lambda>x y. \<exists>b. AddReference x cr' = Returned (b, y)) refs rs"
      by blast
    have "mergeSecretData (env_codecs r) rs = mergeSecretData (env_codecs r) refs"
      by (rule mergeSecretData_cong, rule list_all2_mono [OF rs]) (auto dest: AddReference_frame)
    moreover have "object_key cr' = k" "\<not> env_Redis cr'" "output_owner r cr' = Inr ctrl"
      "published stored cr' data = published stored cr data"
      using cr' assms(3,5,6) by (auto simp: output_owner_def published_def SetStatusReferences_frame fun_eq_iff)
    ultimately show ?case
      using wp_publish [OF assms(1) c, of cr' ctrl data] by (simp add: u merge_and_publish_def assms(10))
  qed
qed

lemma load_found:
  assumes "object_store (env_secrets r) stored consistent"
    and "list_all2 (\<lambda>n x. stored s (NN (Namespace cr) n) = Some x) (env_Secrets cr) refs"
  shows "wp (loadInputSecretsForCR r cr) (\<lambda>res s'. s' = s \<and> res = Inr refs) s"
  unfolding loadInputSecretsForCR_def
proof (rule wp_mono [OF load_inputs [OF assms(1)]])
  fix res s'
  assume r: "s' = s \<and> (case res of
      Inl e \<Rightarrow> IsNotFound e \<and> (\<exists>n \<in> set (env_Secrets cr). stored s (NN (Namespace cr) n) = None)
    | Inr secrets \<Rightarrow> list_all2 (\<lambda>n x. stored s (NN (Namespace cr) n) = Some x) (env_Secrets cr) secrets)"
  have "\<forall>n \<in> set (env_Secrets cr). stored s (NN (Namespace cr) n) \<noteq> None"
    using assms(2) by (auto simp: list_all2_conv_all_nth in_set_conv_nth)
  moreover have "secrets = refs"
    if "list_all2 (\<lambda>n x. stored s (NN (Namespace cr) n) = Some x) (env_Secrets cr) secrets" for secrets
    using assms(2) that by (auto simp: list_all2_conv_all_nth intro!: nth_equalityI)
  ultimately show "s' = s \<and> res = Inr refs"
    using r by (auto split: sum.splits)
qed

text \<open>
  C23. A build environment gets its secret. Reconciling an environment without Redis whose
  input secrets exist and can be merged, on a server that answers, returns without an error
  and leaves on the server, under the name of the environment's output, a secret with
  exactly the merged data of the inputs. The environment is not being deleted and has its
  finalizer, it lists each input once, the owner references of the inputs are consistent, and
  the environment can be made the controller of its output.
\<close>

theorem build_env_published:
  assumes "build_world stored consistent k r" "consistent s" "object_key cr = k" "refs_sane (stored s) cr"
    and "distinct (env_Secrets cr)" "\<not> env_Redis cr" "output_owner r cr = Inr ctrl"
    and "run_state (Get (env_crs r) k) s = (Inr cr, s)"
    and "IsZero (DeletionTimestamp cr)" "HasFinalizer cr finalizer"
    and "list_all2 (\<lambda>n x. stored s (NN (Namespace cr) n) = Some x) (env_Secrets cr) refs"
    and "mergeSecretData (env_codecs r) refs = Returned (Inr data)"
  shows "wp (BuildEnvReconciler.Reconcile r k) (\<lambda>res s'. res = Returned (no_requeue, None) \<and>
      (\<exists>x. stored s' (NN (Namespace cr) (mergedSecretName cr)) = Some x \<and> Data x = Some data)) s"
proof -
  have store: "object_store (env_secrets r) stored consistent"
    using assms(1) by (simp add: build_world_def referenced_objects_def)
  note found = inputs_found [OF store assms(2,11)]
  have ns: "\<forall>x \<in> set refs. nn_namespace (object_key x) = Namespace cr"
    using arg_cong [OF found(1), of set] by (metis (no_types, lifting) NamespacedName.sel(1) image_iff image_set)
  have dist: "distinct (map object_key refs)"
    using assms(5) by (simp add: found(1) distinct_map inj_on_def)
  have "wp (sync_env r cr) (\<lambda>res s'. res = Returned (no_requeue, None) \<and> published stored cr data s') s"
    unfolding sync_env_def wp_bind
    by (rule wp_mono [OF load_found [OF store assms(11)]])
      (use wp_update_and_publish [OF assms(1-4,6,7) dist found(2) ns assms(12)] in simp)
  then show ?thesis
    using assms(9,10) by (simp add: BuildEnvReconciler.Reconcile_def wp_run [OF assms(8)] published_def)
qed

end
