(* ===== verification/BuildEnvReady.thy ===== *)
theory BuildEnvReady
  imports BuildEnvStatus
begin

text \<open>
  The status of a build environment is true, whatever the server answers: a run is recorded
  against an arbitrary world, and only a successful write of the output secret lets the
  controller report that the environment is ready.
\<close>

subsection \<open>Recording a run\<close>

datatype env_event =
    EnvGot "ImageBuildEnv result"
  | EnvStatus ImageBuildEnv "go_error option"
  | SecretWritten Secret "go_error option"

definition recorded_env ::
  "'s ReconcileImageBuildEnv \<Rightarrow> ('s \<times> env_event list) ReconcileImageBuildEnv" where
  "recorded_env r = \<lparr>
     env_crs = (lifted_client (env_crs r))
       \<lparr>Get := (\<lambda>k. recorded EnvGot (Get (env_crs r) k)),
        StatusUpdate := (\<lambda>x. recorded (\<lambda>a. EnvStatus x (fst a)) (StatusUpdate (env_crs r) x))\<rparr>,
     env_secrets = lifted_client (env_secrets r), env_pods = lifted_client (env_pods r),
     up_env_Secrets = recorded_upserter SecretWritten (up_env_Secrets r),
     up_env_Services = lifted_upserter (up_env_Services r), env_lib = recorded_lib (env_lib r),
     env_codecs = env_codecs r, env_random = recorded_random (env_random r)\<rparr>"

lemma recorded_env_simps [simp]:
  "Get (env_crs (recorded_env r)) k = recorded EnvGot (Get (env_crs r) k)"
  "Update (env_crs (recorded_env r)) x = unrecorded (Update (env_crs r) x)"
  "StatusUpdate (env_crs (recorded_env r)) x = recorded (\<lambda>a. EnvStatus x (fst a)) (StatusUpdate (env_crs r) x)"
  "env_secrets (recorded_env r) = lifted_client (env_secrets r)"
  "env_pods (recorded_env r) = lifted_client (env_pods r)"
  "up_env_Secrets (recorded_env r) = recorded_upserter SecretWritten (up_env_Secrets r)"
  "up_env_Services (recorded_env r) = lifted_upserter (up_env_Services r)"
  "env_lib (recorded_env r) = recorded_lib (env_lib r)" "env_codecs (recorded_env r) = env_codecs r"
  "env_random (recorded_env r) = recorded_random (env_random r)"
  by (simp_all add: recorded_env_def)

subsection \<open>What is reported\<close>

definition claims_ready :: "ImageBuildEnv \<Rightarrow> bool" where
  "claims_ready cr \<longleftrightarrow> (\<exists>c. env_Conditions cr ConditionReady = Some c \<and> CondStatus c = ConditionTrue)"

text \<open>Every report of readiness so far repeats the conditions that were read.\<close>

definition carried :: "env_event list \<Rightarrow> bool" where
  "carried l \<longleftrightarrow> (\<forall>cr e. EnvStatus cr e \<in> set l \<longrightarrow> claims_ready cr \<longrightarrow>
     (\<exists>cr0. EnvGot (Inr cr0) \<in> set l \<and> env_Conditions cr = env_Conditions cr0))"

text \<open>A secret with the merged data of some inputs, and possibly the access to Redis.\<close>

definition merged_output :: "codecs \<Rightarrow> Secret \<Rightarrow> bool" where
  "merged_output cd x \<longleftrightarrow> (\<exists>secrets data data'. mergeSecretData cd secrets = Returned (Inr data) \<and>
     Data x = Some data' \<and> (\<forall>k. k \<notin> {SecretKeyRedis, SecretKeyRedisPassword} \<longrightarrow> data' k = data k))"

definition truthful :: "codecs \<Rightarrow> env_event list \<Rightarrow> bool" where
  "truthful cd l \<longleftrightarrow> (\<forall>cr e. EnvStatus cr e \<in> set l \<longrightarrow> claims_ready cr \<longrightarrow>
     (\<exists>cr0. EnvGot (Inr cr0) \<in> set l \<and> env_Conditions cr = env_Conditions cr0) \<or>
     (\<exists>l0 x. l = l0 @ [SecretWritten x None, EnvStatus cr e] \<and> merged_output cd x))"

lemma carried_truthful: "carried l \<Longrightarrow> truthful cd l"
  by (auto simp: carried_def truthful_def)

lemma carried_append:
  "carried l \<Longrightarrow> carried (l @ [SecretWritten x e])"
  "carried l \<Longrightarrow> \<not> claims_ready cr \<Longrightarrow> carried (l @ [EnvStatus cr e])"
  "carried l \<Longrightarrow> EnvGot (Inr cr0) \<in> set l \<Longrightarrow> env_Conditions cr = env_Conditions cr0 \<Longrightarrow> carried (l @ [EnvStatus cr e])"
  by (auto simp: carried_def)

lemma truthful_report:
  "carried l \<Longrightarrow> merged_output cd x \<Longrightarrow> truthful cd (l @ [SecretWritten x None, EnvStatus cr e])"
  by (auto simp: carried_def truthful_def)

subsection \<open>The steps\<close>

lemma updateStatus_events:
  assumes "condition_contract (env_lib r)"
    and "\<And>e s'. Q e (s', l)"
    and "\<And>cr' e s'. claims_ready cr' \<longleftrightarrow> st = ConditionTrue \<Longrightarrow> Q e (s', l @ [EnvStatus cr' e])"
  shows "wp (updateStatus (recorded_env r) cr st reason msg) Q (s, l)"
  unfolding updateStatus_def wp_bind recorded_env_simps recorded_lib_simps wp_unrecorded
proof (rule wp_SetCondition [OF assms(1)])
  fix c' s' let ?c = "mk_condition ConditionReady st reason msg"
  assume "same_condition c' ?c"
  then have "claims_ready (cr\<lparr>env_Conditions := (env_Conditions cr)(ConditionReady \<mapsto> c')\<rparr>) \<longleftrightarrow> st = ConditionTrue"
    by (simp add: claims_ready_def same_condition_def)
  then show "wp (if snd ((env_Conditions cr)(CondType ?c \<mapsto> c'), case env_Conditions cr (CondType ?c) of
        None \<Rightarrow> True | Some d \<Rightarrow> \<not> same_condition d ?c)
      then do { u \<leftarrow> recorded (\<lambda>a. EnvStatus (cr\<lparr>env_Conditions := fst ((env_Conditions cr)(CondType ?c \<mapsto> c'),
          case env_Conditions cr (CondType ?c) of None \<Rightarrow> True | Some d \<Rightarrow> \<not> same_condition d ?c)\<rparr>) (fst a))
          (StatusUpdate (env_crs r) (cr\<lparr>env_Conditions := fst ((env_Conditions cr)(CondType ?c \<mapsto> c'),
          case env_Conditions cr (CondType ?c) of None \<Rightarrow> True | Some d \<Rightarrow> \<not> same_condition d ?c)\<rparr>)); ret (fst u) }
      else ret None) Q (s', l)"
    using assms(2,3) by (auto intro!: wp_recordedI)
qed

lemma not_ready_events:
  assumes "condition_contract (env_lib r)" "carried l" "st \<noteq> ConditionTrue"
  shows "wp (updateStatus (recorded_env r) cr st reason msg) (\<lambda>_ w. carried (snd w)) (s, l)"
  by (rule updateStatus_events [OF assms(1)]) (use assms(2,3) carried_append in auto)

lemma deleteOldRefs_silent: "reads_only snd (deleteOldRefs (secretRefs (recorded_env r)) cr refs)"
  by (induction refs) (auto split: sum.split outcome.split option.split intro!: reads_only_bind)

lemma addNewRefs_silent: "reads_only snd (addNewRefs (secretRefs (recorded_env r)) cr refs)"
  by (induction refs) (auto split: sum.split outcome.split option.split intro!: reads_only_bind)

lemma UpdateReferences_events:
  assumes "carried l" "EnvGot (Inr cr) \<in> set l"
  shows "wp (UpdateReferences (secretRefs (recorded_env r)) cr refs) (\<lambda>_ w. carried (snd w)) (s, l)"
proof -
  have status: "carried (l @ [EnvStatus (SetStatusReferences refs cr) e])" for e
    by (rule carried_append(3) [OF assms]) (simp add: SetStatusReferences_def)
  have add: "wp (addNewRefs (secretRefs (recorded_env r)) cr' rs) (\<lambda>a. wp (case a of Panicked p \<Rightarrow> ret (Panicked p)
      | Returned x \<Rightarrow> ret (Returned (fst x, cr', snd x))) (\<lambda>_ w. carried (snd w))) (s', l')"
    if "carried l'" for cr' rs s' l'
    by (rule wp_reads_only [OF addNewRefs_silent]) (use that in \<open>auto split: outcome.split\<close>)
  show ?thesis
    unfolding UpdateReferences_def Let_def case_prod_beta wp_bind
    by (rule wp_reads_only [OF deleteOldRefs_silent])
      (use assms(1) status add in \<open>auto intro!: wp_recordedI split: outcome.split option.split\<close>)
qed

lemma load_silent: "reads_only snd (load_secrets (recorded_env r) ns names)"
  by (induction names) (auto split: sum.split intro!: reads_only_bind)

lemma finalize_events:
  assumes "carried l" "EnvGot (Inr cr) \<in> set l"
  shows "wp (finalize_env (recorded_env r) cr) (\<lambda>_ w. carried (snd w)) (s, l)"
  unfolding finalize_env_def wp_bind wp_if wp_return
  by (auto simp: assms(1) wp_unrecorded split_paired_all split: outcome.split option.split
      intro!: wp_mono [OF UpdateReferences_events [OF assms]] wp_any [where Q = "\<lambda>_ _. True"])

lemma upsertRedisSecret_events:
  assumes "carried l"
  shows "wp (upsertRedisSecretForCR (recorded_env r) cr) (\<lambda>_ w. carried (snd w)) (s, l)"
  unfolding upsertRedisSecretForCR_def Let_def
  by (auto simp: assms carried_append redis_callback_def split: sum.split option.split outcome.split
      intro!: wp_CreateOrUpdate wp_unrecordedI wp_recordedI wp_recorded_GeneratePassword)

lemma createRedisPod_silent: "reads_only snd (createRedisPodForCR (recorded_env r) cr)"
  unfolding createRedisPodForCR_def by (auto split: sum.split intro!: reads_only_bind)

lemma upsertRedisService_silent: "reads_only snd (upsertRedisServiceForCR (recorded_env r) cr)"
  unfolding upsertRedisServiceForCR_def CreateOrUpdate_def redis_service_callback_def Let_def
  by (auto split: sum.split option.split outcome.split prod.split intro!: reads_only_bind)

text \<open>Configuring Redis only adds the two keys.\<close>

lemma configureRedis_events:
  assumes "carried l"
  shows "wp (configureRedis (recorded_env r) cr data) (\<lambda>res w. carried (snd w) \<and>
    (\<forall>ready e data'. res = Returned (ready, e, data') \<longrightarrow>
       (\<forall>k. k \<notin> {SecretKeyRedis, SecretKeyRedisPassword} \<longrightarrow> data' k = data k))) (s, l)"
  unfolding configureRedis_def Let_def
  by (auto simp: assms split: outcome.split option.split
      intro!: wp_mono [OF upsertRedisSecret_events [OF assms]] wp_reads_only [OF createRedisPod_silent]
        wp_reads_only [OF upsertRedisService_silent])

lemma upsertMerged_events:
  assumes "\<And>s' p. Q (Panicked p) (s', l)" "\<And>s' e. Q (Returned (Some e)) (s', l)"
    and "\<And>s' e x. Q (Returned (Some e)) (s', l @ [SecretWritten x (Some e)])"
    and "\<And>s' x. Data x = Some data \<Longrightarrow> Q (Returned None) (s', l @ [SecretWritten x None])"
  shows "wp (upsertMergedSecretForCR (recorded_env r) cr data) Q (s, l)"
proof -
  have w: "Q (Returned e) (s', l @ [SecretWritten x e])" if "Data x = Some data" for e s' x
    using assms(3,4) that by (cases e) auto
  show ?thesis
    unfolding upsertMergedSecretForCR_def Let_def
    by (auto simp: assms(1,2) merged_callback_def split: sum.split option.split
        intro!: wp_CreateOrUpdate wp_unrecordedI wp_recordedI w)
qed

lemma publish_events:
  assumes "condition_contract (env_lib r)" "carried l" "mergeSecretData cd secrets = Returned (Inr data)"
  shows "wp (publish (recorded_env r) cr data) (\<lambda>_ w. truthful cd (snd w)) (s, l)"
proof -
  have failed: "wp (updateStatus (recorded_env r) cr' ConditionFalse reason msg)
      (\<lambda>e. wp (ret (Returned (no_requeue, e))) (\<lambda>_ w. truthful cd (snd w))) (s', l')"
    if "carried l'" for cr' reason msg s' l'
    by (rule wp_mono [OF not_ready_events [OF assms(1) that]]) (simp_all add: carried_truthful)
  have ready: "wp (updateStatus (recorded_env r) cr' ConditionTrue [] [])
      (\<lambda>e. wp (ret (Returned (no_requeue, e))) (\<lambda>_ w. truthful cd (snd w))) (s', l' @ [SecretWritten x None])"
    if "carried l'" "merged_output cd x" for cr' s' l' x
    by (rule updateStatus_events [OF assms(1)])
      (use that in \<open>auto simp: truthful_report carried_truthful carried_append\<close>)
  show ?thesis
    unfolding publish_def wp_bind
  proof (rule wp_mono [OF configureRedis_events [OF assms(2)]], goal_cases)
    case (1 k w)
    note k = this
    obtain s' l' where w: "w = (s', l')" by (cases w)
    show ?case
    proof (cases k)
      case (Panicked p)
      then show ?thesis using k by (simp add: w carried_truthful)
    next
      case (Returned q)
      obtain rd e data' where q: "q = (rd, e, data')" by (cases q)
      have l': "carried l'" using k by (simp add: w)
      have out: "merged_output cd x" if "Data x = Some data'" for x
        using k assms(3) that by (auto simp: merged_output_def Returned q)
      show ?thesis
        using l' by (cases e) (auto simp: Returned q w carried_truthful carried_append intro!: failed upsertMerged_events
            ready out)
    qed
  qed
qed

lemma sync_events:
  assumes "condition_contract (env_lib r)" "carried l" "EnvGot (Inr cr) \<in> set l"
  shows "wp (sync_env (recorded_env r) cr) (\<lambda>_ w. truthful (env_codecs r) (snd w)) (s, l)"
proof -
  have failed: "wp (updateStatus (recorded_env r) cr' ConditionFalse reason msg)
      (\<lambda>e. wp (ret (Returned (d, e))) (\<lambda>_ w. truthful (env_codecs r) (snd w))) (s', l')"
    if "carried l'" for cr' reason msg s' l' d
    by (rule wp_mono [OF not_ready_events [OF assms(1) that]]) (simp_all add: carried_truthful)
  have merge: "wp (merge_and_publish (recorded_env r) cr' secrets) (\<lambda>_ w. truthful (env_codecs r) (snd w)) (s', l')"
    if "carried l'" for cr' secrets s' l'
    unfolding merge_and_publish_def
    by (cases "mergeSecretData (env_codecs r) secrets")
      (auto simp: that carried_truthful split: sum.split intro!: failed publish_events [OF assms(1)])
  have "wp (update_and_publish (recorded_env r) cr secrets) (\<lambda>_ w. truthful (env_codecs r) (snd w)) (s', l)" for s' secrets
    unfolding update_and_publish_def wp_bind
    by (rule wp_mono [OF UpdateReferences_events [OF assms(2,3)]])
      (auto simp: split_paired_all carried_truthful split: outcome.split option.split intro!: failed merge)
  then show ?thesis
    unfolding sync_env_def loadInputSecretsForCR_def wp_bind
    by (intro wp_reads_only [OF load_silent])
      (auto simp: split_paired_all assms(2) split: sum.split intro!: failed)
qed

text \<open>
  C16. A build environment is only reported ready when its secret is. In a run against any
  server, every status the controller writes that claims readiness either repeats the
  conditions of the environment as it was read, or it is the last call of the run and
  directly follows a successful write of a secret that has the merged data of input
  secrets, with at most the two Redis keys changed.
\<close>

theorem env_ready_truthful:
  assumes "condition_contract (env_lib r)"
  shows "wp (BuildEnvReconciler.Reconcile (recorded_env r) request) (\<lambda>res (s', l).
    \<forall>cr e. EnvStatus cr e \<in> set l \<longrightarrow> claims_ready cr \<longrightarrow>
      (\<exists>cr0. EnvGot (Inr cr0) \<in> set l \<and> env_Conditions cr = env_Conditions cr0) \<or>
      (\<exists>l0 x. l = l0 @ [SecretWritten x None, EnvStatus cr e] \<and> merged_output (env_codecs r) x)) (s, [])"
proof -
  have got: "carried [EnvGot g]" for g by (simp add: carried_def)
  have add: "wp (add_env_finalizer (recorded_env r) cr) (\<lambda>_ w. truthful (env_codecs r) (snd w)) (s', [EnvGot g])" for cr s' g
    unfolding add_env_finalizer_def
    by (auto simp: got carried_truthful split: option.split intro!: wp_unrecordedI wp_mono [OF not_ready_events [OF assms got]])
  have "wp (BuildEnvReconciler.Reconcile (recorded_env r) request) (\<lambda>_ w. truthful (env_codecs r) (snd w)) (s, [])"
    unfolding BuildEnvReconciler.Reconcile_def
    by (auto simp: got carried_truthful split: sum.split intro!: wp_recordedI add sync_events [OF assms got]
        wp_mono [OF finalize_events [OF got]])
  then show ?thesis
    by (rule wp_mono) (simp add: truthful_def case_prod_beta)
qed

end
