(* ===== verification/BuildEnvWitnesses.thy ===== *)
theory BuildEnvWitnesses
  imports BuildEnvReady
begin

text \<open>The theorems about build environments, applied on the cluster.\<close>

lemma cluster_build_world: "build_world all_secrets (env_stored k) k (cluster_build cd rnd)"
proof -
  have "keeps (env_stored k) (up_write (mem_upserter cluster_secrets) x y)" for x y
    by (auto simp: keeps_def mem_upserter_def cluster_secrets_def mem_client_def env_stored_def complete_object_def
        keyed_def object_key_def Let_def split: option.split)
  moreover have "reads_only all_secrets (SetCondition cluster_lib c cs)"
    "keeps (env_stored k) (SetCondition cluster_lib c cs)" for c cs
    by (auto simp: reads_only_def keeps_def cluster_lib_def)
  ultimately show ?thesis
    using cluster_inputs.referenced_objects_axioms cluster_secret_upserts.upsert_store_axioms
    by (simp add: build_world_def) (simp add: cluster_build_def)
qed

lemma redis_password_stable_witness:
  "\<exists>p s1. run_state (upsertRedisSecretForCR demo_build demo_env) empty_cluster = (Returned (None, p), s1) \<and>
     p \<noteq> [] \<and> run_state (upsertRedisSecretForCR demo_build demo_env) s1 = (Returned (None, p), s1)"
proof -
  have u: "upsert_store (up_env_Secrets demo_build) all_secrets"
    by (simp add: demo_build_def cluster_build_def cluster_secret_upserts.upsert_store_axioms)
  have r: "random_contract (env_random demo_build)" "random_frame all_secrets (env_random demo_build)"
    by (simp_all add: demo_build_def cluster_build_def cluster_random_ok cluster_random_keeps)
  have "wp (upsertRedisSecretForCR demo_build demo_env) (\<lambda>res s'. \<exists>p. res = Returned (None, p)) empty_cluster"
    by (auto simp: upsertRedisSecretForCR_def demo_build_def cluster_build_def CreateOrUpdate_def mem_upserter_def
        cluster_secrets_def mem_client_def empty_cluster_def redis_callback_def cluster_lib_def
        OwnerReferences_truncate Let_def wp_State object_key_def intro!: wp_cluster_password)
  then obtain p s1 where run: "run_state (upsertRedisSecretForCR demo_build demo_env) empty_cluster = (Returned (None, p), s1)"
    by (auto simp: wp_def split: prod.splits)
  have "\<And>k x. all_secrets empty_cluster k = Some x \<Longrightarrow> object_key x = k"
    by (simp add: empty_cluster_def)
  from redis_password_stable [OF u this r run refl] run show ?thesis by blast
qed

text \<open>The environment with the two inputs of \<open>BuildEnvMerge\<close>.\<close>

definition demo_two :: ImageBuildEnv where
  "demo_two = demo_env\<lparr>env_Secrets := [''one'', ''two'']\<rparr>"

definition demo_two_cluster :: cluster where
  "demo_two_cluster = empty_cluster\<lparr>all_envs := [NN ''ns'' ''e'' \<mapsto> demo_two],
     all_secrets := [NN ''ns'' ''one'' \<mapsto> demo_inputs ! 0, NN ''ns'' ''two'' \<mapsto> demo_inputs ! 1]\<rparr>"

definition demo_two_build :: "cluster ReconcileImageBuildEnv" where
  "demo_two_build = cluster_build (checked_codecs id) cluster_random"

lemma demo_inputs_meta:
  "Name (demo_inputs ! 0) = ''one''" "Namespace (demo_inputs ! 0) = ''ns''" "OwnerReferences (demo_inputs ! 0) = []"
  "Name (demo_inputs ! 1) = ''two''" "Namespace (demo_inputs ! 1) = ''ns''" "OwnerReferences (demo_inputs ! 1) = []"
  "length demo_inputs = 2"
  by (simp_all add: demo_inputs_def)

lemma demo_two_simps [simp]:
  "Namespace demo_two = ''ns''" "Name demo_two = ''e''" "Finalizers demo_two = [finalizer]"
  "DeletionTimestamp demo_two = None" "env_Redis demo_two = False" "env_Secrets demo_two = [''one'', ''two'']"
  "Kind demo_two = ''ImageBuildEnv''"
  by (simp_all add: demo_two_def)

lemma build_env_published_witness:
  "\<exists>data. mergeSecretData (checked_codecs id) demo_inputs = Returned (Inr data) \<and>
     wp (BuildEnvReconciler.Reconcile demo_two_build (NN ''ns'' ''e'')) (\<lambda>res s'. res = Returned (no_requeue, None) \<and>
       (\<exists>x. all_secrets s' (NN ''ns'' ''imagebuildenv-e-conf'') = Some x \<and> Data x = Some data)) demo_two_cluster"
proof -
  obtain data where d: "mergeSecretData (checked_codecs id) demo_inputs = Returned (Inr data)"
    using demo_merge_runs by blast
  have w: "build_world all_secrets (env_stored (NN ''ns'' ''e'')) (NN ''ns'' ''e'') demo_two_build"
    unfolding demo_two_build_def by (rule cluster_build_world)
  have s: "env_stored (NN ''ns'' ''e'') demo_two_cluster" "refs_sane (all_secrets demo_two_cluster) demo_two"
    by (auto simp: demo_two_cluster_def env_stored_def keyed_def object_key_def refs_sane_def refs_consistent_def
        demo_inputs_meta demo_inputs_meta [unfolded One_nat_def] split: if_splits)
  have g: "run_state (Get (env_crs demo_two_build) (NN ''ns'' ''e'')) demo_two_cluster = (Inr demo_two, demo_two_cluster)"
    by (simp add: demo_two_build_def cluster_build_def cluster_envs_def mem_client_def demo_two_cluster_def)
  obtain ctrl where c: "output_owner demo_two_build demo_two = Inr ctrl"
    by (simp add: output_owner_def demo_two_build_def cluster_build_def cluster_lib_def OwnerReferences_truncate)
  have i: "list_all2 (\<lambda>n x. all_secrets demo_two_cluster (NN (Namespace demo_two) n) = Some x)
      (env_Secrets demo_two) demo_inputs"
    using demo_inputs_meta(7) by (auto simp: list_all2_conv_all_nth demo_two_cluster_def less_Suc_eq numeral_2_eq_2)
  have "mergeSecretData (env_codecs demo_two_build) demo_inputs = Returned (Inr data)"
    using d by (simp add: demo_two_build_def cluster_build_def)
  from build_env_published [OF w s(1) _ s(2) _ _ c g _ _ i this]
  show ?thesis
    by (intro exI [of _ data]) (simp add: d object_key_def mergedSecretName_def)
qed

text \<open>An environment without inputs.\<close>

definition demo_idle :: ImageBuildEnv where
  "demo_idle = demo_env\<lparr>env_Secrets := [], SecretRefs := []\<rparr>"

lemma demo_idle_simps [simp]:
  "Namespace demo_idle = ''ns''" "Name demo_idle = ''e''" "Finalizers demo_idle = [finalizer]"
  "DeletionTimestamp demo_idle = None" "env_Redis demo_idle = False" "env_Secrets demo_idle = []"
  "SecretRefs demo_idle = []" "env_Conditions demo_idle = Map.empty"
  by (simp_all add: demo_idle_def)

lemma demo_idle_run:
  "\<exists>res s' l cr e. run_state (BuildEnvReconciler.Reconcile (recorded_env demo_build) (NN ''ns'' ''e''))
     (empty_cluster\<lparr>all_envs := [NN ''ns'' ''e'' \<mapsto> demo_idle]\<rparr>, []) = (res, s', l) \<and>
     EnvStatus cr e \<in> set l \<and> claims_ready cr \<and> (\<forall>cr0. EnvGot (Inr cr0) \<in> set l \<longrightarrow> cr0 = demo_idle)"
  by (simp add: BuildEnvReconciler.Reconcile_def sync_env_def loadInputSecretsForCR_def update_and_publish_def
      UpdateReferences_def diffRefs_def GetStatusReferences_def merge_and_publish_def mergeSecretData_def
      publish_def configureRedis_def upsertMergedSecretForCR_def CreateOrUpdate_def mem_upserter_def
      merged_callback_def updateStatus_def claims_ready_def YAML_def strict_codecs_def Let_def
      demo_build_def cluster_build_def recorded_lib_def cluster_lib_def cluster_envs_def cluster_secrets_def
      mem_client_def empty_cluster_def OwnerReferences_truncate object_key_def)

lemma env_ready_truthful_witness:
  "\<exists>res s' l0 x cr e. run_state (BuildEnvReconciler.Reconcile (recorded_env demo_build) (NN ''ns'' ''e''))
     (empty_cluster\<lparr>all_envs := [NN ''ns'' ''e'' \<mapsto> demo_idle]\<rparr>, []) =
       (res, s', l0 @ [SecretWritten x None, EnvStatus cr e]) \<and> claims_ready cr"
proof -
  obtain res s' l cr e where run: "run_state (BuildEnvReconciler.Reconcile (recorded_env demo_build) (NN ''ns'' ''e''))
      (empty_cluster\<lparr>all_envs := [NN ''ns'' ''e'' \<mapsto> demo_idle]\<rparr>, []) = (res, s', l)"
    and l: "EnvStatus cr e \<in> set l" "claims_ready cr" "\<forall>cr0. EnvGot (Inr cr0) \<in> set l \<longrightarrow> cr0 = demo_idle"
    using demo_idle_run by blast
  have c: "condition_contract (env_lib demo_build)"
    by (simp add: demo_build_def cluster_build_def cluster_lib_contracts)
  have "env_Conditions cr \<noteq> env_Conditions demo_idle"
    using l(2) by (auto simp: claims_ready_def)
  moreover have "(\<exists>cr0. EnvGot (Inr cr0) \<in> set l \<and> env_Conditions cr = env_Conditions cr0) \<or>
      (\<exists>l0 x. l = l0 @ [SecretWritten x None, EnvStatus cr e] \<and> merged_output (env_codecs demo_build) x)"
    using env_ready_truthful [OF c, of "NN ''ns'' ''e''" "empty_cluster\<lparr>all_envs := [NN ''ns'' ''e'' \<mapsto> demo_idle]\<rparr>"] l(1,2)
    unfolding wp_run [OF run] prod.case by blast
  ultimately obtain l0 x where "l = l0 @ [SecretWritten x None, EnvStatus cr e]"
    using l(3) by auto
  with run l(2) show ?thesis by blast
qed

end
