(* ===== verification/Spec2Isabelle.thy ===== *)
theory Spec2Isabelle
  imports SecretRepair AuthConcurrency AuthFrontends RefHandler OwnerRefs CaRoot RegistryRollout BuildEnvWitnesses
begin

text \<open>
  The image registry operator: a model of its Go code with the theorems that make it correct.

  \<^bold>\<open>The program.\<close> The operator runs image registries in a Kubernetes cluster and gives out
  credentials for them. An \<open>ImageRegistry\<close> becomes a stateful set with three containers, a
  service, a volume claim, certificates and a service account. An \<open>ImagePullSecret\<close> or
  \<open>ImagePushSecret\<close> becomes an \<open>ImageRegistryAccount\<close> with a password hash in the registry's
  namespace and a secret with the password. An \<open>ImageBuildEnv\<close> merges such secrets into one
  for a build. The registry's authenticator looks accounts up to check a login. The parts
  share no memory: they meet in objects of the API server, which every reconciler reads and
  writes, and each must be correct while the others, and people, change the same objects.

  \<^bold>\<open>Conventions.\<close> Code with effects is a function of \<open>HOL-Library.State_Monad\<close> over a state of
  the world \<open>'s\<close> that is left abstract. The API server, the clock, randomness and the
  libraries that the operator calls are records of operations on it, the arguments of the
  reconcilers (\<open>client\<close>, \<open>upserter\<close>, \<open>kube_lib\<close>, \<open>random\<close>, \<open>crypto\<close>, \<open>codecs\<close>). What the code
  relies on is a named contract (\<open>finalizer_contract\<close>, \<open>condition_contract\<close>,
  \<open>controller_contract\<close>, \<open>random_contract\<close>, \<open>bcrypt_contract\<close>, \<open>json_contract\<close>,
  \<open>map_contract\<close>, \<open>crypto_contract\<close>, \<open>ownership_contract\<close>, \<open>handler_contract\<close>, \<open>selector_contract\<close>) or a locale (\<open>object_store\<close>, \<open>upsert_store\<close>), with a
  computable instance that satisfies it. An \<open>error\<close> is a value of \<open>go_error\<close>, with the
  wrapping of \<open>fmt.Errorf\<close>; a panic is the constructor \<open>Panicked\<close> of \<open>outcome\<close>. \<open>wp m Q s\<close>
  says that \<open>Q\<close> holds of the result and the state of \<open>m\<close> run in \<open>s\<close>. Theorems about every run
  against any server use clients that record their calls (\<open>recorded_client\<close>): the recorded
  list is the history of the run, whatever the server answers.

  \<^bold>\<open>Foundations.\<close> \<open>Prelude\<close>: outcomes, errors, \<open>wp\<close>, recording, list and map lemmas. \<open>GoLib\<close>:
  decimal numbers, \<open>strings.SplitN\<close>, time and durations with their bounds, base64. \<open>Kube\<close>:
  object metadata, secrets, conditions, clients, \<open>CreateOrUpdate\<close>. \<open>Store\<close>: a server that
  answers, as the locales \<open>object_store\<close> and \<open>upsert_store\<close>, interpreted on a map. \<open>Cluster\<close>:
  a world with all kinds of objects, a clock and random numbers, on which the contracts are discharged and
  the witnesses run.

  \<open>Faults\<close>: a client whose calls are refused, or answered with an error after they were
  carried out, by any pattern.

  \<^bold>\<open>Libraries of the repository.\<close>
  \<^item> \<open>KeyToRequest\<close> (\<open>pkg/backrefs/keytorequest.go\<close>): which object an event is mapped to.
  \<^item> \<open>OwnerRefs\<close> (\<open>pkg/backrefs/ownerrefs.go\<close>): owner references; the locale
    \<open>back_reference_strategy\<close> is what the handler needs and is interpreted on them.
  \<^item> \<open>RefHandler\<close> (\<open>pkg/backrefs/refhandler.go\<close>): \<open>UpdateReferences\<close>; the order of its calls in
    every run, and, in the locale \<open>referenced_objects\<close>, its effect on a server that answers.
  \<^item> \<open>Merge\<close> (\<open>pkg/merge\<close>): named items of a pod, with the locale \<open>named_items\<close>.
  \<^item> \<open>PasswordGen\<close> (\<open>pkg/passwordgen\<close>): the alphabet and shape of a password, the 63-bit source.
  \<^item> \<open>RegistriesConf\<close> (\<open>pkg/registriesconf\<close>): Docker and Makisu credentials and their round trip.
  \<^item> \<open>KeyPair\<close>, \<open>CertManager\<close>, \<open>CertRenewal\<close> (\<open>pkg/certs\<close>): certificates in secrets. The locale
    \<open>cert_profile\<close> is what renewal needs of a kind of certificate; it is interpreted for the
    CA and the server certificates.
  \<^item> \<open>Auth\<close> (\<open>pkg/auth\<close>): login with a cache; the reachable histories of an authenticator are
    the inductive relation \<open>reached\<close>. \<open>AuthConcurrency\<close>: logins at the same time, as the
    step relation \<open>auth_step\<close>, whose steps for one login alone are a call of \<open>Authenticate\<close>; the
    read of the cache without the lock sees any former cache. \<open>AuthFrontends\<close> (\<open>docker-authn-plugin\<close>,
    \<open>cmd/authn-client\<close>): how the plugin and the client start, and that the plugin of a registry
    finds the accounts that are issued for it.

  \<^bold>\<open>Controllers\<close> (\<open>pkg/controller\<close>).
  \<^item> \<open>ApiTypes\<close> (\<open>pkg/apis\<close>): specs and statuses.
  \<^item> \<open>SecretReconciler\<close> (\<open>imagesecret\<close>, and the configurations of \<open>imagepullsecret\<close> and
    \<open>imagepushsecret\<close>): the code. \<open>SecretProtocol\<close>: the automaton of a rotation, and that a
    stored secret fits an account that was created. \<open>SecretSync\<close>: the calls of \<open>Reconcile\<close>,
    the resource at rest and its next rotation. \<open>SecretConvergence\<close>: what one run leaves, on the
    server in memory: a resource at rest, whatever credentials there were, when no account has
    the name of the next rotation and no other object controls the resource's secret.
    \<open>SecretQueue\<close>: the loop that reconciles until nothing changes ends when the counter reaches
    a rotation whose account's name is free, and never ends when another object controls the
    secret.
  \<^item> \<open>AccountController\<close> (\<open>imageregistryaccount\<close>): expiry of accounts. \<open>SecretSystem\<close>: the two
    controllers and everybody else in any order, as the step relation \<open>system_step\<close>, in which
    any call of a controller may fail (\<open>Faults\<close>), with the invariant that the secret of a
    resource fits its account. \<open>SecretRepair\<close>: the loop closed through the watches; lost
    credentials come back.
  \<^item> \<open>CaRoot\<close> (\<open>caroot\<close>): the root certificate, and a concrete cryptography for witnesses.
  \<^item> \<open>RegistryNames\<close>, \<open>RegistryReconciler\<close>, \<open>RegistryWorkload\<close> (\<open>imageregistry\<close>): the code.
    \<open>RegistryReadiness\<close>: when a status says ready. \<open>RegistryPods\<close>: the objects it makes.
    \<open>RegistryRollout\<close>: a registry whose pods are rolled out becomes ready.
  \<^item> \<open>BuildEnvReconciler\<close> (\<open>imagebuildenv\<close>): the code. \<open>BuildEnvMerge\<close>: the merged data as the
    override of finite maps. \<open>BuildEnvRefs\<close>: back references of the inputs, a refinement of the
    assignment of a set. \<open>BuildEnvStatus\<close>: the password and the output. \<open>BuildEnvReady\<close>: when a
    status says ready. \<open>BuildEnvWitnesses\<close>: concrete runs.
  \<^item> \<open>Controllers\<close> (\<open>Add\<close> of each controller, \<open>controller.go\<close>, \<open>cmd/manager\<close>): the watches, and the
    process. \<open>Startup\<close>: each run of the process follows one plan. \<open>WatchedObjects\<close> and
    \<open>WatchedInputs\<close>: the events of the objects that a controller writes or depends on request
    the resource they belong to.
  \<^item> This theory composes three parts: what the secret controller writes, merged by the build
    environment controller, is a login that the authenticator accepts.

  \<^bold>\<open>Correspondence.\<close> A definition has the name of the function it models; a callback or a part
  of a long function that has a name of its own here is described where it is defined
  (\<open>KeyPair_of\<close> is the method \<open>KeyPair\<close>, \<open>secretNameFilter_Map\<close> the method \<open>Map\<close>). A function
  that fills in an object or a variable of its caller returns it. A client's operations
  return the object with the error, since the Go client writes the server's answer into the
  object. The order in which Go ranges over a map is a parameter (\<open>condition_order\<close>) or an
  association list whose order does not matter, which is proved.

  \<^bold>\<open>Bounds.\<close> Times are integers in nanoseconds, without a bound; a duration is one of 64 bits:
  \<open>time_Sub\<close> saturates and the sum of two durations wraps (\<open>wrap64\<close>); the rotation count wraps at 64 bits; the random
  source is a \<open>64 word\<close>. Every loop of the code ranges over a list or a map, so its function is
  structurally recursive and total; the retries of the work queue, which might not end, are a
  \<open>while_option\<close>, and that they end is proved. The only fuel is that of the sample JSON reader
  \<open>read_entries\<close>, the length of its input, from which every round consumes a character.

  \<^bold>\<open>Not modelled.\<close> Generated deep copies and scheme registration: records are values. The
  parsing of flags, the reading of a kubeconfig and the event handlers of controller-runtime
  are parameters, as libraries are (\<open>handler_contract\<close> says what the handlers request,
  \<open>selector_contract\<close> what \<open>labels.SelectorFromSet\<close> makes of legal and illegal label values). Log output, metrics beyond the calls that serve them.
  The conversion \<open>secretsToObjects\<close>, which changes the type of a list only.
\<close>

section \<open>From an image secret to a login\<close>

lemma dockerConfig_of_credentials:
  assumes "json_contract cd" "credentials_of registry matches a x" "SecretType x = SecretTypeDockerConfigJson"
    and "ascii (tr_Hostname registry)"
  shows "input_auths cd x = [tr_Hostname registry \<mapsto> EncodeToString (Name a @ '':'' @ map_get (Data x) SecretKeyPassword)]"
proof -
  let ?c = "\<lparr>Auths = Some [(tr_Hostname registry, EncodeToString (Name a @ '':'' @ map_get (Data x) SecretKeyPassword))]\<rparr>"
  have j: "map_get (Data x) DockerConfigJsonKey = JSON ?c"
    using assms(2) by (simp add: credentials_of_def Let_def)
  have "Data x \<noteq> None" using j JSON_nonempty [of ?c] by (metis map_get_simps(1))
  moreover have "ascii_config ?c"
    by (simp add: ascii_config_def assms(4) EncodeToString_ascii entries_ok_def del: EncodeToString.simps)
  then obtain c' where "UnmarshalJSON cd (JSON ?c) = Inr c'" "map_option map_of (Auths c') = map_option map_of (Auths ?c)"
    using assms(1) unfolding json_contract_def by blast
  ultimately show ?thesis
    using assms(3) j JSON_nonempty [of ?c]
    by (auto simp: input_auths_def dockerConfigFromSecret_def ParseDockerConfig_def Let_def simp del: EncodeToString.simps)
qed

lemma last_input_wins:
  "\<forall>y \<in> set after. input_auths cd y k = None \<Longrightarrow>
   merged_auths cd (before @ x # after) k = (case input_auths cd x k of None \<Rightarrow> merged_auths cd before k | Some v \<Rightarrow> Some v)"
proof -
  have "\<forall>y \<in> set after. input_auths cd y k = None \<Longrightarrow> foldl (++) m (map (input_auths cd) after) k = m k" for m
    by (induction after arbitrary: m) (auto simp: map_add_def)
  then show "\<forall>y \<in> set after. input_auths cd y k = None \<Longrightarrow>
      merged_auths cd (before @ x # after) k = (case input_auths cd x k of None \<Rightarrow> merged_auths cd before k | Some v \<Rightarrow> Some v)"
    unfolding merged_auths_def by (simp add: map_add_def)
qed

text \<open>
  C4. A build can log in with an image secret. Take a secret with the credentials of an
  account, as the image secret controller writes it, list it as an input of a build
  environment in which no later input has credentials for the same registry, and let the
  merge succeed. Then the merged Docker configuration has an entry for the registry's host
  name that decodes to the account's name and a password with which the registry's
  authenticator, which finds the account on the server, returns the account's labels.
\<close>

theorem image_secret_logs_in:
  assumes "json_contract cd" "map_contract cd"
    and "credentials_of registry (CompareHashAndPassword au) a x" "SecretType x = SecretTypeDockerConfigJson"
    and "ascii (tr_Hostname registry)" "CHR '':'' \<notin> set (Name a)" "Name a \<noteq> []"
    and "mergeSecretData cd (before @ x # after) = Returned (Inr data)"
    and "\<forall>y \<in> set after. input_auths cd y (tr_Hostname registry) = None"
    and "run_state (au_Get au (NN (au_namespace au) (Name a))) s = (Inr a, s)" "run_state (au_Now au) s = (now, s)"
  shows "\<exists>es v pw. data DockerConfigJsonKey = Some (JSON \<lparr>Auths = Some es\<rparr>) \<and>
    map_of es (tr_Hostname registry) = Some v \<and> ToMakisuBasicAuth v = Inr (Name a, pw) \<and>
    fst (fst (run_state (Authenticate au [] (Name a) pw) s)) = (Some (labels_of a), None)"
proof -
  let ?k = "tr_Hostname registry" and ?pw = "map_get (Data x) SecretKeyPassword"
  let ?v = "EncodeToString (Name a @ '':'' @ ?pw)"
  have "merged_auths cd (before @ x # after) ?k = Some ?v"
    by (simp add: last_input_wins [OF assms(9)] dockerConfig_of_credentials [OF assms(1,3,4,5)]
        del: EncodeToString.simps)
  moreover from merge_secret_data_result [OF assms(2,8)] obtain es
    where "map_of es = merged_auths cd (before @ x # after)"
      "data DockerConfigJsonKey = Some (JSON \<lparr>Auths = Some es\<rparr>)" by blast
  moreover have "?pw \<noteq> []" "CompareHashAndPassword au (acc_Password a) ?pw"
    using assms(3) by (auto simp: credentials_of_def Let_def password_ok_def)
  then have "fst (fst (run_state (Authenticate au [] (Name a) ?pw) s)) = (Some (labels_of a), None)"
    by (simp add: Authenticate_def findAccount_def fetchAccount_def addToCache_def assms(7,10,11)
        MatchPassword_def cached_of_def)
  ultimately show ?thesis
    using ToMakisuBasicAuth_encoded [OF assms(6), of ?pw]
    by (intro exI [of _ es] exI [of _ ?v] exI [of _ ?pw]) simp
qed

text \<open>The pull secret of a resource \<open>x\<close>, in the namespace \<open>ns\<close> like the environment.\<close>

definition demo_login_target :: targetRegistry where
  "demo_login_target = \<lparr>tr_Namespace = ''reg'', tr_Hostname = ''r'', tr_CA = ''CA''\<rparr>"

definition demo_login_account :: ImageRegistryAccount where
  "demo_login_account = new_account (cluster_reconciler pull_config) demo_cr demo_login_target ''hash:0.aaaaaaaaaaaaaa''"

definition demo_login_secret :: Secret where
  "demo_login_secret = (fill_secret (cluster_reconciler pull_config) demo_cr demo_login_target
     demo_login_account ''0.aaaaaaaaaaaaaa'' (new_secret ''ns'' ''imagepullsecret-x''))\<lparr>OwnerReferences := []\<rparr>"

lemma image_secret_logs_in_witness:
  "\<exists>data es v pw. mergeSecretData (checked_codecs id) [demo_login_secret] = Returned (Inr data) \<and>
     map_of es ''r'' = Some v \<and> ToMakisuBasicAuth v = Inr (Name demo_login_account, pw) \<and>
     fst (fst (run_state (Authenticate demo_authenticator [] (Name demo_login_account) pw)
       ([NN ''reg'' (Name demo_login_account) \<mapsto> demo_login_account], 0))) = (Some (labels_of demo_login_account), None)"
proof -
  let ?a = demo_login_account and ?x = demo_login_secret
  let ?c = "\<lparr>Auths = Some [(''r'', EncodeToString (''pull.ns.x.0'' @ '':'' @ ''0.aaaaaaaaaaaaaa''))]\<rparr>"
  have name: "Name ?a = ''pull.ns.x.0''"
    by (simp add: demo_login_account_def accountNameForCR_def pull_config_def TypePull_def FormatInt_zero demo_cr_def
        new_ImageSecret_def new_ImageSecretStatus_def new_kobject_def kobject.defs ImageSecret.defs)
  have type: "SecretType ?x = SecretTypeDockerConfigJson"
    by (simp add: demo_login_secret_def fill_secret_def pull_config_def)
  have "password_ok ''0.aaaaaaaaaaaaaa''"
    by (simp add: password_ok_def allChars_def digitChars_def specialChars_def)
  then have cred: "credentials_of demo_login_target (CompareHashAndPassword demo_authenticator) ?a ?x"
    unfolding demo_login_account_def demo_login_secret_def
    by (intro fill_secret_credentials) (simp_all add: standard_config_def demo_authenticator_def)
  have conf: "dockerConfigFromSecret (checked_codecs id) ?x = Inr ?c"
  proof -
    have "map_get (Data ?x) SecretKeyPassword = ''0.aaaaaaaaaaaaaa''"
      by (simp add: demo_login_secret_def fill_secret_def pull_config_def secret_keys map_get_def)
    then have j: "map_get (Data ?x) DockerConfigJsonKey = JSON ?c"
      using cred name by (simp add: credentials_of_def Let_def demo_login_target_def del: EncodeToString.simps)
    moreover have "Data ?x \<noteq> None" using j JSON_nonempty [of ?c] by (metis map_get_simps(1))
    moreover have "UnmarshalJSON (checked_codecs id) (JSON ?c) = Inr ?c"
      by (simp add: checked_codecs_def read_JSON ascii_config_def ascii_letters EncodeToString_ascii entries_ok_def
          checked_def del: EncodeToString.simps)
    ultimately show ?thesis
      using type JSON_nonempty [of ?c] by (simp add: dockerConfigFromSecret_def ParseDockerConfig_def Let_def del: EncodeToString.simps)
  qed
  have "\<exists>data. mergeSecretData (checked_codecs id) ([] @ ?x # []) = Returned (Inr data)"
    using ToMakisuBasicAuth_encoded [of "''pull.ns.x.0''" "''0.aaaaaaaaaaaaaa''"]
    by (simp add: mergeSecretData_def conf YAML_def demo_yaml Let_def del: EncodeToString.simps)
  then obtain data where data: "mergeSecretData (checked_codecs id) ([] @ ?x # []) = Returned (Inr data)" by blast
  have get: "run_state (au_Get demo_authenticator (NN (au_namespace demo_authenticator) (Name ?a)))
      ([NN ''reg'' (Name ?a) \<mapsto> ?a], 0) = (Inr ?a, ([NN ''reg'' (Name ?a) \<mapsto> ?a], 0))"
    by (simp add: demo_authenticator_def object_key_def) (simp add: demo_login_account_def demo_login_target_def new_account_def)
  have clk: "run_state (au_Now demo_authenticator) ([NN ''reg'' (Name ?a) \<mapsto> ?a], 0) = (0, ([NN ''reg'' (Name ?a) \<mapsto> ?a], 0))"
    by (simp add: demo_authenticator_def)
  have "ascii (tr_Hostname demo_login_target)" "CHR '':'' \<notin> set (Name ?a)" "Name ?a \<noteq> []"
    by (simp_all add: name demo_login_target_def ascii_letters)
  from image_secret_logs_in [OF checked_codecs_json reordered_contract(1) [OF checked_codecs_reordered] cred type
      this data _ get clk] data
  show ?thesis by (auto simp: demo_login_target_def)
qed

end
